(* ===== verification/Sentinel_Prelude.thy ===== *)
theory Sentinel_Prelude
  imports Complex_Main "HOL-Library.Word" "HOL-Library.Monad_Syntax" "HOL-Library.Sublist"
begin

text \<open>
  Shared vocabulary of the development: the machine integer types of the Rust sources, the
  \<open>Result\<close> type as a sum whose left component is the error, the \<open>?\<close> operator as \<open>rbind\<close>, and
  the generic lemmas on lists, options and words that the component theories use.
\<close>

named_theorems budget_intros "that an evaluation step does not raise the remaining budget"
named_theorems strictness "that a combination of decisions is no laxer than its parts"

type_synonym u64 = "64 word"
type_synonym u32 = "32 word"
type_synonym i64 = "64 word"
type_synonym i32 = "32 word"
type_synonym byte = "8 word"
type_synonym bytes = "8 word list"

section \<open>Result values\<close>

text \<open>
  Rust's \<open>Result<T, E>\<close> is \<open>'e + 't\<close>: \<open>Inl\<close> carries the error and \<open>Inr\<close> the value. \<open>rbind\<close> is the
  \<open>?\<close> operator: it returns the first error, and passes on the value otherwise.
\<close>

definition rbind :: "'e + 'a \<Rightarrow> ('a \<Rightarrow> 'e + 'b) \<Rightarrow> 'e + 'b" where
  "rbind m f = (case m of Inl e \<Rightarrow> Inl e | Inr x \<Rightarrow> f x)"

lemma rbind_simps [simp]:
  "rbind (Inl e) f = Inl e"
  "rbind (Inr x) f = f x"
  by (simp_all add: rbind_def)

lemma rbind_eq_Inr [simp]:
  "rbind m f = Inr y \<longleftrightarrow> (\<exists>x. m = Inr x \<and> f x = Inr y)"
  by (cases m) auto

lemma rbind_eq_Inl:
  "rbind m f = Inl e \<longleftrightarrow> m = Inl e \<or> (\<exists>x. m = Inr x \<and> f x = Inl e)"
  by (cases m) auto

lemma rbind_cong [fundef_cong]:
  "m = m' \<Longrightarrow> (\<And>x. m' = Inr x \<Longrightarrow> f x = g x) \<Longrightarrow> rbind m f = rbind m' g"
  by (cases m') auto

definition of_option :: "'e \<Rightarrow> 'a option \<Rightarrow> 'e + 'a" where
  "of_option e x = (case x of None \<Rightarrow> Inl e | Some y \<Rightarrow> Inr y)"

lemma of_option_simps [simp]:
  "of_option e None = Inl e"
  "of_option e (Some y) = Inr y"
  by (simp_all add: of_option_def)

lemma of_option_eq_Inr [simp]: "of_option e x = Inr y \<longleftrightarrow> x = Some y"
  by (cases x) auto

definition is_ok :: "'e + 'a \<Rightarrow> bool" where
  "is_ok r = (case r of Inl _ \<Rightarrow> False | Inr _ \<Rightarrow> True)"

lemma is_ok_simps [simp]: "is_ok (Inl e) = False" "is_ok (Inr x) = True"
  by (simp_all add: is_ok_def)

text \<open>\<open>Iterator::collect::<Result<Vec<_>>>\<close>: the first error, or all the values in order.\<close>

fun collect_results :: "('a \<Rightarrow> 'e + 'b) \<Rightarrow> 'a list \<Rightarrow> 'e + 'b list" where
  "collect_results f [] = Inr []"
| "collect_results f (x # xs) = rbind (f x) (\<lambda>y. rbind (collect_results f xs) (\<lambda>ys. Inr (y # ys)))"

lemma collect_results_Inr:
  "collect_results f xs = Inr ys \<longleftrightarrow> length ys = length xs \<and> (\<forall>i < length xs. f (xs ! i) = Inr (ys ! i))"
proof (induction xs arbitrary: ys)
  case Nil
  then show ?case by auto
next
  case (Cons x xs)
  show ?case
    by (cases ys) (auto simp: Cons.IH less_Suc_eq_0_disj)
qed

lemma collect_results_cong [fundef_cong]:
  "xs = ys \<Longrightarrow> (\<And>x. x \<in> set ys \<Longrightarrow> f x = g x) \<Longrightarrow> collect_results f xs = collect_results g ys"
  by (induction ys arbitrary: xs) auto

lemma collect_results_ok:
  "(\<exists>ys. collect_results f xs = Inr ys) \<longleftrightarrow> (\<forall>x \<in> set xs. is_ok (f x))"
proof (induction xs)
  case (Cons x xs)
  then show ?case by (cases "f x"; cases "collect_results f xs") (auto split: if_splits)
qed simp

section \<open>Steps that may not return\<close>

text \<open>Sequencing of steps that may not return (\<open>None\<close>) or may fail (\<open>Inl\<close>).\<close>

definition tbind :: "('e + 'a) option \<Rightarrow> ('a \<Rightarrow> ('e + 'b) option) \<Rightarrow> ('e + 'b) option" where
  "tbind m f = (case m of None \<Rightarrow> None | Some (Inl e) \<Rightarrow> Some (Inl e) | Some (Inr x) \<Rightarrow> f x)"

lemma tbind_simps [simp]:
  "tbind None f = None" "tbind (Some (Inl e)) f = Some (Inl e)" "tbind (Some (Inr x)) f = f x"
  by (simp_all add: tbind_def)

lemma tbind_Inr [simp]: "tbind m f = Some (Inr y) \<longleftrightarrow> (\<exists>x. m = Some (Inr x) \<and> f x = Some (Inr y))"
  by (auto simp: tbind_def split: option.splits sum.splits)

lemma tbind_cong [fundef_cong]:
  "m = m' \<Longrightarrow> (\<And>x. f x = g x) \<Longrightarrow> tbind m f = tbind m' g"
  by (auto simp: tbind_def split: option.splits sum.splits)

text \<open>A step returns, and what it returns satisfies \<open>P\<close>.\<close>

definition returns :: "('a \<Rightarrow> bool) \<Rightarrow> ('e + 'a) option \<Rightarrow> bool" where
  "returns P m \<longleftrightarrow> (\<exists>r. m = Some r \<and> (\<forall>x. r = Inr x \<longrightarrow> P x))"

lemma returns_intros [intro]:
  "P x \<Longrightarrow> returns P (Some (Inr x))" "returns P (Some (Inl e))"
  by (auto simp: returns_def)

lemma returns_tbind:
  "returns P m \<Longrightarrow> (\<And>x. P x \<Longrightarrow> returns Q (f x)) \<Longrightarrow> returns Q (tbind m f)"
  by (auto simp: returns_def tbind_def split: sum.splits)

section \<open>Lists of options\<close>

fun collect_options :: "('a \<Rightarrow> 'b option) \<Rightarrow> 'a list \<Rightarrow> 'b list option" where
  "collect_options f [] = Some []"
| "collect_options f (x # xs) = do { y \<leftarrow> f x; ys \<leftarrow> collect_options f xs; Some (y # ys) }"

lemma collect_options_map:
  "(\<And>x. x \<in> set xs \<Longrightarrow> f (g x) = Some x) \<Longrightarrow> collect_options f (map g xs) = Some xs"
  by (induction xs) auto

text \<open>A separator that does not occur before its first place determines the two parts.\<close>

lemma split_at_separator:
  "x \<notin> set xs \<Longrightarrow> x \<notin> set xs' \<Longrightarrow> xs @ x # ys = xs' @ x # ys' \<longleftrightarrow> xs = xs' \<and> ys = ys'"
proof (induction xs arbitrary: xs')
  case Nil
  then show ?case by (cases xs') auto
next
  case (Cons a xs)
  then show ?case by (cases xs') auto
qed

text \<open>A first match splits the list.\<close>

lemma find_split:
  assumes "find P xs = Some x"
  shows "\<exists>pre post. xs = pre @ x # post \<and> P x \<and> (\<forall>y \<in> set pre. \<not> P y)"
proof -
  from assms obtain i where i: "i < length xs" "P (xs ! i)" "x = xs ! i" "\<forall>j<i. \<not> P (xs ! j)"
    by (auto simp: find_Some_iff)
  have "xs = take i xs @ x # drop (Suc i) xs" using i(1,3) id_take_nth_drop by blast
  moreover have "\<forall>y \<in> set (take i xs). \<not> P y" using i by (auto simp: in_set_conv_nth)
  ultimately show ?thesis using i(2,3) by blast
qed

section \<open>Byte strings\<close>

text \<open>
  A Rust string is its UTF-8 bytes, one \<open>char\<close> each. \<open>as_bytes\<close> reads them as machine bytes;
  ASCII case folding changes the letters \<open>A\<close> to \<open>Z\<close> only.
\<close>

definition as_bytes :: "string \<Rightarrow> bytes" where
  "as_bytes s = map of_char s"

definition ascii_lower_char :: "char \<Rightarrow> char" where
  "ascii_lower_char ch = (let n = (of_char ch :: nat) in if 65 \<le> n \<and> n \<le> 90 then char_of (n + 32) else ch)"

definition to_ascii_lowercase :: "string \<Rightarrow> string" where
  "to_ascii_lowercase s = map ascii_lower_char s"

text \<open>
  \<open>str::trim\<close> removes the characters with the Unicode property \<open>White_Space\<close> from both ends; the
  list holds their UTF-8 encodings.
\<close>

definition white_spaces :: "string list" where
  "white_spaces = map (map char_of)
     ([[9], [10], [11], [12], [13], [32], [194, 133], [194, 160], [225, 154, 128]] @
      map (\<lambda>b. [226, 128, b]) ([128..<139] @ [168, 169, 175]) @
      [[226, 129, 159], [227, 128, 128 :: nat]])"

function strip_any :: "string list \<Rightarrow> string \<Rightarrow> string" where
  "strip_any ws s = (case find (\<lambda>w. w \<noteq> [] \<and> prefix w s) ws of
     Some w \<Rightarrow> strip_any ws (drop (length w) s) | None \<Rightarrow> s)"
  by pat_completeness auto
termination
  by (relation "measure (\<lambda>(ws, s). length s)")
     (auto simp: find_Some_iff length_greater_0_conv [symmetric] dest!: prefix_length_le simp del: length_greater_0_conv)

declare strip_any.simps [simp del]

definition str_trim :: "string \<Rightarrow> string" where
  "str_trim s = rev (strip_any (map rev white_spaces) (rev (strip_any white_spaces s)))"

text \<open>Text that begins and ends with a visible ASCII character is its own trim.\<close>

definition visible :: "char \<Rightarrow> bool" where
  "visible ch \<longleftrightarrow> 33 \<le> (of_char ch :: nat) \<and> (of_char ch :: nat) < 128"

lemma white_spaces_invisible:
  "list_all (\<lambda>w. w \<noteq> [] \<and> \<not> visible (hd w) \<and> \<not> visible (last w)) white_spaces"
  by code_simp

lemma strip_any_visible:
  assumes "\<And>w. w \<in> set ws \<Longrightarrow> w \<noteq> [] \<and> \<not> visible (hd w)" "s \<noteq> []" "visible (hd s)"
  shows "strip_any ws s = s"
proof -
  have "\<not> prefix w s" if "w \<in> set ws" for w
    using assms(1) [OF that] assms(2,3) by (cases w; cases s) auto
  then have "find (\<lambda>w. w \<noteq> [] \<and> prefix w s) ws = None" by (auto simp: find_None_iff)
  then show ?thesis by (simp add: strip_any.simps)
qed

lemma str_trim_visible:
  assumes "s \<noteq> []" "visible (hd s)" "visible (last s)"
  shows "str_trim s = s"
proof -
  have ws: "w \<noteq> [] \<and> \<not> visible (hd w) \<and> \<not> visible (last w)" if "w \<in> set white_spaces" for w
    using white_spaces_invisible that by (auto simp: list_all_iff)
  then have "strip_any white_spaces s = s" using assms by (intro strip_any_visible) auto
  moreover have "strip_any (map rev white_spaces) (rev s) = rev s"
    using ws assms by (intro strip_any_visible) (auto simp: hd_rev)
  ultimately show ?thesis by (simp add: str_trim_def)
qed

lemma byte_of_char_inj: "(of_char a :: byte) = of_char b \<longleftrightarrow> a = b"
proof
  assume "(of_char a :: byte) = of_char b"
  then have "(of_nat (of_char a) :: byte) = of_nat (of_char b)" by (simp only: of_nat_of_char)
  then have "(of_char a :: nat) = of_char b"
    by (simp add: word_of_nat_eq_iff take_bit_nat_eq_self del: of_nat_of_char)
  then show "a = b" by simp
qed simp

lemma as_bytes_inj: "as_bytes a = as_bytes b \<longleftrightarrow> a = b"
  unfolding as_bytes_def by (rule inj_map_eq_map) (simp add: inj_def byte_of_char_inj)

lemma as_bytes_append [simp]: "as_bytes (a @ b) = as_bytes a @ as_bytes b"
  by (simp add: as_bytes_def)

section \<open>Collisions\<close>

text \<open>Two different inputs with the same digest.\<close>

definition collides :: "('a \<Rightarrow> 'b) \<Rightarrow> 'a \<Rightarrow> 'a \<Rightarrow> bool" where
  "collides f x y \<longleftrightarrow> x \<noteq> y \<and> f x = f y"

section \<open>Runs of a state machine\<close>

text \<open>A sequence of calls on a state: the results in order, and the state left behind.\<close>

fun run_steps :: "('c \<Rightarrow> 's \<Rightarrow> 'r \<times> 's) \<Rightarrow> 'c list \<Rightarrow> 's \<Rightarrow> 'r list \<times> 's" where
  "run_steps step [] s = ([], s)"
| "run_steps step (c # cs) s = (case step c s of (r, s1) \<Rightarrow> case run_steps step cs s1 of (rs, s2) \<Rightarrow> (r # rs, s2))"

lemma run_steps_Cons:
  "fst (run_steps step (c # cs) s) = fst (step c s) # fst (run_steps step cs (snd (step c s)))"
  "snd (run_steps step (c # cs) s) = snd (run_steps step cs (snd (step c s)))"
  by (simp_all add: case_prod_beta)

lemma run_steps_length [simp]: "length (fst (run_steps step cs s)) = length cs"
  by (induction cs arbitrary: s) (simp_all add: case_prod_beta)

text \<open>A condition holds of the state before each of the calls up to the one at \<open>i\<close>.\<close>

definition holds_until :: "('c \<Rightarrow> 's \<Rightarrow> 'r \<times> 's) \<Rightarrow> ('s \<Rightarrow> bool) \<Rightarrow> 'c list \<Rightarrow> 's \<Rightarrow> nat \<Rightarrow> bool" where
  "holds_until step present cs s i \<longleftrightarrow> (\<forall>j \<le> i. present (snd (run_steps step (take j cs) s)))"

lemma holds_until_Suc:
  "holds_until step present (c # cs) s (Suc i) \<Longrightarrow> present (snd (step c s)) \<and> holds_until step present cs (snd (step c s)) i"
proof -
  assume until: "holds_until step present (c # cs) s (Suc i)"
  have "present (snd (run_steps step (take j cs) (snd (step c s))))" if "j \<le> i" for j
    using until that unfolding holds_until_def by (auto dest!: spec [of _ "Suc j"] simp: case_prod_beta)
  from this [of 0] this show ?thesis by (simp add: holds_until_def)
qed

text \<open>
  A monitor watches something that may disappear from the state. As long as what it watches is there,
  a closed monitor stays closed, and a closed monitor refuses the calls it guards against: then no
  guarded call gets through before the watched thing is gone.
\<close>

locale watched_monitor =
  fixes step :: "'c \<Rightarrow> 's \<Rightarrow> 'r \<times> 's"
    and present :: "'s \<Rightarrow> bool"
    and closed :: "'s \<Rightarrow> bool"
    and guarded :: "'c \<Rightarrow> bool"
    and refused :: "'r \<Rightarrow> bool"
  assumes stays_closed: "closed s \<Longrightarrow> present (snd (step c s)) \<Longrightarrow> closed (snd (step c s))"
    and closed_refuses: "closed s \<Longrightarrow> guarded c \<Longrightarrow> refused (fst (step c s))"
begin

lemma run_stays_closed: "closed s \<Longrightarrow> holds_until step present cs s (length cs) \<Longrightarrow> closed (snd (run_steps step cs s))"
proof (induction cs arbitrary: s)
  case (Cons c cs)
  from holds_until_Suc [of step present c cs s "length cs"] Cons show ?case by (simp add: run_steps_Cons stays_closed del: run_steps.simps(2))
qed simp

lemma run_refuses:
  "closed s \<Longrightarrow> i < length cs \<Longrightarrow> holds_until step present cs s i \<Longrightarrow> guarded (cs ! i) \<Longrightarrow> refused (fst (run_steps step cs s) ! i)"
proof (induction cs arbitrary: s i)
  case (Cons c cs)
  then show ?case
    by (cases i) (auto simp: run_steps_Cons stays_closed closed_refuses simp del: run_steps.simps(2) dest!: holds_until_Suc)
qed simp

end

text \<open>Where the watched thing cannot disappear, no sequence of calls gets a guarded one through.\<close>

locale closing_monitor =
  fixes step :: "'c \<Rightarrow> 's \<Rightarrow> 'r \<times> 's"
    and closed :: "'s \<Rightarrow> bool"
    and guarded :: "'c \<Rightarrow> bool"
    and refused :: "'r \<Rightarrow> bool"
  assumes stays_closed: "closed s \<Longrightarrow> closed (snd (step c s))"
    and closed_refuses: "closed s \<Longrightarrow> guarded c \<Longrightarrow> refused (fst (step c s))"

sublocale closing_monitor \<subseteq> always: watched_monitor step "\<lambda>_. True" closed guarded refused
  by unfold_locales (simp_all add: stays_closed closed_refuses)

context closing_monitor begin

lemma run_stays_closed: "closed s \<Longrightarrow> closed (snd (run_steps step cs s))"
  by (simp add: always.run_stays_closed holds_until_def)

lemma run_refuses:
  "closed s \<Longrightarrow> i < length cs \<Longrightarrow> guarded (cs ! i) \<Longrightarrow> refused (fst (run_steps step cs s) ! i)"
  by (simp add: always.run_refuses holds_until_def)

end

end
