(* ===== verification/Json_Model.thy ===== *)
theory Json_Model
  imports Sentinel_Prelude
begin

text \<open>
  JSON values as \<open>serde_json\<close> represents them, and the conventions of serde's derived
  \<open>Serialize\<close> and \<open>Deserialize\<close> implementations that the record types of the receipt log
  rely on: field order, skipped fields, defaults, and the reading of \<open>null\<close> as an absent
  \<open>Option\<close>. Text is printed and parsed by the library, which is a parameter of the model.
\<close>

section \<open>Numbers\<close>

text \<open>
  An IEEE-754 double, up to the sign of zero: the sources only compare doubles, test them
  for zero and convert integers to them, and both zeros behave alike there.
\<close>

datatype f64 = NaN | PInf | NInf | Fin rat

text \<open>The \<open>N\<close> enum behind \<open>serde_json::Number\<close>.\<close>

datatype jnum = PosInt u64 | NegInt int | Float f64

datatype json =
    JNull
  | JBool bool
  | JNumber jnum
  | JString string
  | JArray "json list"
  | JObject "(string \<times> json) list"

section \<open>Derived serialization\<close>

text \<open>
  A derived \<open>Serialize\<close> writes the fields of a struct in declaration order. A field carrying
  \<open>skip_serializing_if\<close> is left out when the named test holds.
\<close>

type_synonym fields = "(string \<times> json) list"

definition ser_field :: "string \<Rightarrow> json \<Rightarrow> fields" where
  "ser_field k v = [(k, v)]"

definition ser_skip_none :: "string \<Rightarrow> ('a \<Rightarrow> json) \<Rightarrow> 'a option \<Rightarrow> fields" where
  "ser_skip_none k f x = (case x of None \<Rightarrow> [] | Some y \<Rightarrow> [(k, f y)])"

definition ser_skip_empty :: "string \<Rightarrow> ('a \<Rightarrow> json) \<Rightarrow> 'a list \<Rightarrow> fields" where
  "ser_skip_empty k f xs = (if xs = [] then [] else [(k, JArray (map f xs))])"

definition ser_skip_false :: "string \<Rightarrow> bool \<Rightarrow> fields" where
  "ser_skip_false k b = (if b then [(k, JBool True)] else [])"

definition ser_option :: "('a \<Rightarrow> json) \<Rightarrow> 'a option \<Rightarrow> json" where
  "ser_option f x = (case x of None \<Rightarrow> JNull | Some y \<Rightarrow> f y)"

section \<open>Derived deserialization\<close>

text \<open>
  A derived \<open>Deserialize\<close> ignores unknown fields, rejects a repeated field, takes the default
  for a missing field that has one, and otherwise fails on a missing field.
\<close>

datatype 'a field_read = Missing | Duplicate | Present 'a

definition occurrences :: "string \<Rightarrow> fields \<Rightarrow> json list" where
  "occurrences k fs = map snd (filter (\<lambda>kv. fst kv = k) fs)"

definition read_field :: "string \<Rightarrow> fields \<Rightarrow> json field_read" where
  "read_field k fs = (case occurrences k fs of [] \<Rightarrow> Missing | [v] \<Rightarrow> Present v | _ \<Rightarrow> Duplicate)"

definition de_required :: "string \<Rightarrow> (json \<Rightarrow> 'a option) \<Rightarrow> fields \<Rightarrow> 'a option" where
  "de_required k f fs = (case read_field k fs of Present v \<Rightarrow> f v | _ \<Rightarrow> None)"

definition de_default :: "string \<Rightarrow> 'a \<Rightarrow> (json \<Rightarrow> 'a option) \<Rightarrow> fields \<Rightarrow> 'a option" where
  "de_default k d f fs =
     (case read_field k fs of Present v \<Rightarrow> f v | Missing \<Rightarrow> Some d | Duplicate \<Rightarrow> None)"

fun de_string :: "json \<Rightarrow> string option" where
  "de_string (JString s) = Some s"
| "de_string _ = None"

fun de_bool :: "json \<Rightarrow> bool option" where
  "de_bool (JBool b) = Some b"
| "de_bool _ = None"

fun de_u64 :: "json \<Rightarrow> u64 option" where
  "de_u64 (JNumber (PosInt w)) = Some w"
| "de_u64 _ = None"

fun de_u32 :: "json \<Rightarrow> u32 option" where
  "de_u32 (JNumber (PosInt w)) = (if unat w < 2 ^ 32 then Some (ucast w) else None)"
| "de_u32 _ = None"

fun de_list :: "(json \<Rightarrow> 'a option) \<Rightarrow> json \<Rightarrow> 'a list option" where
  "de_list f (JArray xs) = collect_options f xs"
| "de_list f _ = None"

fun de_object :: "(fields \<Rightarrow> 'a option) \<Rightarrow> json \<Rightarrow> 'a option" where
  "de_object f (JObject fs) = f fs"
| "de_object f _ = None"

definition de_option :: "(json \<Rightarrow> 'a option) \<Rightarrow> json \<Rightarrow> 'a option option" where
  "de_option f v = (if v = JNull then Some None else map_option Some (f v))"

definition ser_u64 :: "u64 \<Rightarrow> json" where
  "ser_u64 w = JNumber (PosInt w)"

definition ser_u32 :: "u32 \<Rightarrow> json" where
  "ser_u32 w = JNumber (PosInt (ucast w))"

section \<open>Reading back what was written\<close>

lemma de_u64_ser [simp]: "de_u64 (ser_u64 w) = Some w"
  by (simp add: ser_u64_def)

lemma de_u32_ser [simp]: "de_u32 (ser_u32 w) = Some w"
proof -
  have "unat w < 2 ^ LENGTH(32)" by (rule unsigned_less)
  then have "unat (ucast w :: u64) < 2 ^ 32"
    by (simp add: unsigned_ucast_eq take_bit_eq_mod)
  moreover have "ucast (ucast w :: u64) = w"
    by (rule bit_word_eqI) (simp add: bit_simps)
  ultimately show ?thesis by (simp add: ser_u32_def)
qed

lemma occurrences_append [simp]: "occurrences k (xs @ ys) = occurrences k xs @ occurrences k ys"
  by (simp add: occurrences_def)

lemma occurrences_Nil [simp]: "occurrences k [] = []"
  by (simp add: occurrences_def)

lemma occurrences_ser_field [simp]:
  "occurrences k (ser_field k' v) = (if k' = k then [v] else [])"
  by (simp add: occurrences_def ser_field_def)

lemma occurrences_ser_skip_none [simp]:
  "occurrences k (ser_skip_none k' f x) =
     (if k' = k then (case x of None \<Rightarrow> [] | Some y \<Rightarrow> [f y]) else [])"
  by (simp add: occurrences_def ser_skip_none_def split: option.splits)

lemma occurrences_ser_skip_empty [simp]:
  "occurrences k (ser_skip_empty k' f xs) =
     (if k' = k then (if xs = [] then [] else [JArray (map f xs)]) else [])"
  by (simp add: occurrences_def ser_skip_empty_def)

lemma occurrences_ser_skip_false [simp]:
  "occurrences k (ser_skip_false k' b) = (if k' = k then (if b then [JBool True] else []) else [])"
  by (simp add: occurrences_def ser_skip_false_def)

lemma de_required_one: "occurrences k fs = [v] \<Longrightarrow> de_required k f fs = f v"
  by (simp add: de_required_def read_field_def)

lemma de_default_none:
  "occurrences k fs = (case x of None \<Rightarrow> [] | Some y \<Rightarrow> [g y]) \<Longrightarrow>
   (\<And>y. x = Some y \<Longrightarrow> g y \<noteq> JNull \<and> f (g y) = Some y) \<Longrightarrow>
   de_default k None (de_option f) fs = Some x"
  by (cases x) (auto simp: de_default_def read_field_def de_option_def)

lemma de_default_empty:
  "occurrences k fs = (if xs = [] then [] else [JArray (map g xs)]) \<Longrightarrow>
   (\<And>x. x \<in> set xs \<Longrightarrow> f (g x) = Some x) \<Longrightarrow>
   de_default k [] (de_list f) fs = Some xs"
  by (auto simp: de_default_def read_field_def collect_options_map)

lemma de_default_false:
  "occurrences k fs = (if b then [JBool True] else []) \<Longrightarrow> de_default k False de_bool fs = Some b"
  by (auto simp: de_default_def read_field_def)

lemma de_option_ser:
  "(\<And>y. x = Some y \<Longrightarrow> g y \<noteq> JNull \<and> f (g y) = Some y) \<Longrightarrow> de_option f (ser_option g x) = Some x"
  by (cases x) (auto simp: de_option_def ser_option_def)

end
