(* ===== verification/Receipt_Model.thy ===== *)
theory Receipt_Model
  imports Json_Model
begin

text \<open>
  The data of the signed receipt log (\<open>crates/iaga-sentinel-receipts/src/receipt.rs\<close> and the
  cost ledger types of \<open>crates/iaga-sentinel-cost/src/usage.rs\<close>): the receipt body with every
  field of the source, its derived serialization and deserialization, and the round trip
  between them, on which both storage and signature verification rest.
\<close>

section \<open>Cost ledger\<close>

datatype cost_source = Caller | PricingTable | Cache | Unpriced

record usage_data =
  ud_provider :: string
  ud_model :: string
  ud_prompt_tokens :: "u64 option"
  ud_completion_tokens :: "u64 option"
  ud_total_tokens :: "u64 option"
  ud_cost_micros :: u64
  ud_cache_hit :: bool
  ud_savings_micros :: "u64 option"
  ud_cost_source :: cost_source

fun ser_cost_source :: "cost_source \<Rightarrow> json" where
  "ser_cost_source Caller = JString ''caller''"
| "ser_cost_source PricingTable = JString ''pricing_table''"
| "ser_cost_source Cache = JString ''cache''"
| "ser_cost_source Unpriced = JString ''unpriced''"

definition de_cost_source :: "json \<Rightarrow> cost_source option" where
  "de_cost_source v = (do {
     s \<leftarrow> de_string v;
     if s = ''caller'' then Some Caller
     else if s = ''pricing_table'' then Some PricingTable
     else if s = ''cache'' then Some Cache
     else if s = ''unpriced'' then Some Unpriced
     else None })"

definition usage_fields :: "usage_data \<Rightarrow> fields" where
  "usage_fields u =
     ser_field ''provider'' (JString (ud_provider u)) @
     ser_field ''model'' (JString (ud_model u)) @
     ser_skip_none ''promptTokens'' ser_u64 (ud_prompt_tokens u) @
     ser_skip_none ''completionTokens'' ser_u64 (ud_completion_tokens u) @
     ser_skip_none ''totalTokens'' ser_u64 (ud_total_tokens u) @
     ser_field ''costMicros'' (ser_u64 (ud_cost_micros u)) @
     ser_skip_false ''cacheHit'' (ud_cache_hit u) @
     ser_skip_none ''savingsMicros'' ser_u64 (ud_savings_micros u) @
     ser_field ''costSource'' (ser_cost_source (ud_cost_source u))"

definition de_usage :: "fields \<Rightarrow> usage_data option" where
  "de_usage fs = (do {
     provider \<leftarrow> de_required ''provider'' de_string fs;
     model \<leftarrow> de_required ''model'' de_string fs;
     prompt \<leftarrow> de_default ''promptTokens'' None (de_option de_u64) fs;
     completion \<leftarrow> de_default ''completionTokens'' None (de_option de_u64) fs;
     total \<leftarrow> de_default ''totalTokens'' None (de_option de_u64) fs;
     cost \<leftarrow> de_required ''costMicros'' de_u64 fs;
     hit \<leftarrow> de_default ''cacheHit'' False de_bool fs;
     savings \<leftarrow> de_default ''savingsMicros'' None (de_option de_u64) fs;
     src \<leftarrow> de_required ''costSource'' de_cost_source fs;
     Some \<lparr>ud_provider = provider, ud_model = model, ud_prompt_tokens = prompt,
       ud_completion_tokens = completion, ud_total_tokens = total, ud_cost_micros = cost,
       ud_cache_hit = hit, ud_savings_micros = savings, ud_cost_source = src\<rparr> })"

section \<open>Receipt data\<close>

datatype verdict = Allow | Review | Block

record plugin_digest =
  pd_name :: string
  pd_sha256 :: string
  pd_attested :: "bool option"
  pd_attestation_issuer :: "string option"

record model_digest =
  md_name :: string
  md_sha256 :: string

record pipeline_inputs_capture_t =
  pic_request_json :: json
  pic_framework :: string
  pic_payload_sha256 :: string

record dictum_eval_trace =
  det_policy_hash :: string
  det_policies_evaluated :: u32
  det_policies_fired :: "string list"
  det_evidence_sha256 :: "string option"

record ml_token_digest =
  mtd_model_name :: string
  mtd_tokenized_sha256 :: string

record ml_inference_inputs_t =
  mii_tokenized_digests :: "ml_token_digest list"

record receipt_body =
  run_id :: string
  seq :: u64
  parent_hash :: "string option"
  input_hash :: string
  policy_hash :: string
  threat_feed_hash :: "string option"
  plugin_digests :: "plugin_digest list"
  model_digests :: "model_digest list"
  ml_scores :: "json option"
  verdict :: verdict
  reasons :: "string list"
  risk_score :: u32
  timestamp :: string
  signer_key_id :: string
  pipeline_inputs_capture :: "pipeline_inputs_capture_t option"
  apl_eval_trace :: "dictum_eval_trace option"
  ml_inference_inputs :: "ml_inference_inputs_t option"
  is_authoritative :: "bool option"
  usage :: "usage_data option"

record receipt =
  body :: receipt_body
  signature :: string

section \<open>Serialization\<close>

fun ser_verdict :: "verdict \<Rightarrow> json" where
  "ser_verdict Allow = JString ''allow''"
| "ser_verdict Review = JString ''review''"
| "ser_verdict Block = JString ''block''"

definition plugin_digest_fields :: "plugin_digest \<Rightarrow> fields" where
  "plugin_digest_fields p =
     ser_field ''name'' (JString (pd_name p)) @
     ser_field ''sha256'' (JString (pd_sha256 p)) @
     ser_skip_none ''attested'' JBool (pd_attested p) @
     ser_skip_none ''attestation_issuer'' JString (pd_attestation_issuer p)"

definition model_digest_fields :: "model_digest \<Rightarrow> fields" where
  "model_digest_fields m =
     ser_field ''name'' (JString (md_name m)) @ ser_field ''sha256'' (JString (md_sha256 m))"

definition capture_fields :: "pipeline_inputs_capture_t \<Rightarrow> fields" where
  "capture_fields c =
     ser_field ''requestJson'' (pic_request_json c) @
     ser_field ''framework'' (JString (pic_framework c)) @
     ser_field ''payloadSha256'' (JString (pic_payload_sha256 c))"

definition eval_trace_fields :: "dictum_eval_trace \<Rightarrow> fields" where
  "eval_trace_fields t =
     ser_field ''policyHash'' (JString (det_policy_hash t)) @
     ser_field ''policiesEvaluated'' (ser_u32 (det_policies_evaluated t)) @
     ser_skip_empty ''policiesFired'' JString (det_policies_fired t) @
     ser_skip_none ''evidenceSha256'' JString (det_evidence_sha256 t)"

definition token_digest_fields :: "ml_token_digest \<Rightarrow> fields" where
  "token_digest_fields d =
     ser_field ''modelName'' (JString (mtd_model_name d)) @
     ser_field ''tokenizedSha256'' (JString (mtd_tokenized_sha256 d))"

definition inference_inputs_fields :: "ml_inference_inputs_t \<Rightarrow> fields" where
  "inference_inputs_fields i =
     ser_field ''tokenizedDigests''
       (JArray (map (\<lambda>d. JObject (token_digest_fields d)) (mii_tokenized_digests i)))"

text \<open>
  The \<open>body_fields\<close> of a receipt body in declaration order. \<open>ml_scores\<close> is a newtype around a
  JSON value and is written as that value.
\<close>

definition body_fields :: "receipt_body \<Rightarrow> fields" where
  "body_fields b =
     ser_field ''run_id'' (JString (run_id b)) @
     ser_field ''seq'' (ser_u64 (seq b)) @
     ser_field ''parent_hash'' (ser_option JString (parent_hash b)) @
     ser_field ''input_hash'' (JString (input_hash b)) @
     ser_field ''policy_hash'' (JString (policy_hash b)) @
     ser_skip_none ''threat_feed_hash'' JString (threat_feed_hash b) @
     ser_skip_empty ''plugin_digests'' (\<lambda>p. JObject (plugin_digest_fields p)) (plugin_digests b) @
     ser_skip_empty ''model_digests'' (\<lambda>m. JObject (model_digest_fields m)) (model_digests b) @
     ser_skip_none ''ml_scores'' (\<lambda>v. v) (ml_scores b) @
     ser_field ''verdict'' (ser_verdict (verdict b)) @
     ser_skip_empty ''reasons'' JString (reasons b) @
     ser_field ''risk_score'' (ser_u32 (risk_score b)) @
     ser_field ''timestamp'' (JString (timestamp b)) @
     ser_field ''signer_key_id'' (JString (signer_key_id b)) @
     ser_skip_none ''pipeline_inputs_capture'' (\<lambda>c. JObject (capture_fields c))
       (pipeline_inputs_capture b) @
     ser_skip_none ''apl_eval_trace'' (\<lambda>t. JObject (eval_trace_fields t)) (apl_eval_trace b) @
     ser_skip_none ''ml_inference_inputs'' (\<lambda>i. JObject (inference_inputs_fields i))
       (ml_inference_inputs b) @
     ser_skip_none ''is_authoritative'' JBool (is_authoritative b) @
     ser_skip_none ''usage'' (\<lambda>u. JObject (usage_fields u)) (usage b)"

definition body_json :: "receipt_body \<Rightarrow> json" where
  "body_json b = JObject (body_fields b)"

section \<open>Deserialization\<close>

definition de_verdict :: "json \<Rightarrow> verdict option" where
  "de_verdict v = (do {
     s \<leftarrow> de_string v;
     if s = ''allow'' then Some Allow
     else if s = ''review'' then Some Review
     else if s = ''block'' then Some Block
     else None })"

definition de_plugin_digest :: "fields \<Rightarrow> plugin_digest option" where
  "de_plugin_digest fs = (do {
     name \<leftarrow> de_required ''name'' de_string fs;
     sha \<leftarrow> de_required ''sha256'' de_string fs;
     att \<leftarrow> de_default ''attested'' None (de_option de_bool) fs;
     iss \<leftarrow> de_default ''attestation_issuer'' None (de_option de_string) fs;
     Some \<lparr>pd_name = name, pd_sha256 = sha, pd_attested = att, pd_attestation_issuer = iss\<rparr> })"

definition de_model_digest :: "fields \<Rightarrow> model_digest option" where
  "de_model_digest fs = (do {
     name \<leftarrow> de_required ''name'' de_string fs;
     sha \<leftarrow> de_required ''sha256'' de_string fs;
     Some \<lparr>md_name = name, md_sha256 = sha\<rparr> })"

definition de_capture :: "fields \<Rightarrow> pipeline_inputs_capture_t option" where
  "de_capture fs = (do {
     req \<leftarrow> de_required ''requestJson'' Some fs;
     fw \<leftarrow> de_required ''framework'' de_string fs;
     sha \<leftarrow> de_required ''payloadSha256'' de_string fs;
     Some \<lparr>pic_request_json = req, pic_framework = fw, pic_payload_sha256 = sha\<rparr> })"

definition de_eval_trace :: "fields \<Rightarrow> dictum_eval_trace option" where
  "de_eval_trace fs = (do {
     ph \<leftarrow> de_required ''policyHash'' de_string fs;
     ev \<leftarrow> de_required ''policiesEvaluated'' de_u32 fs;
     fired \<leftarrow> de_default ''policiesFired'' [] (de_list de_string) fs;
     sha \<leftarrow> de_default ''evidenceSha256'' None (de_option de_string) fs;
     Some \<lparr>det_policy_hash = ph, det_policies_evaluated = ev, det_policies_fired = fired,
       det_evidence_sha256 = sha\<rparr> })"

definition de_token_digest :: "fields \<Rightarrow> ml_token_digest option" where
  "de_token_digest fs = (do {
     name \<leftarrow> de_required ''modelName'' de_string fs;
     sha \<leftarrow> de_required ''tokenizedSha256'' de_string fs;
     Some \<lparr>mtd_model_name = name, mtd_tokenized_sha256 = sha\<rparr> })"

definition de_inference_inputs :: "fields \<Rightarrow> ml_inference_inputs_t option" where
  "de_inference_inputs fs = (do {
     ds \<leftarrow> de_required ''tokenizedDigests'' (de_list (de_object de_token_digest)) fs;
     Some \<lparr>mii_tokenized_digests = ds\<rparr> })"

text \<open>
  \<open>parent_hash\<close> carries no attribute, but a missing \<open>Option\<close> field is read as \<open>None\<close> by the
  derived code all the same.
\<close>

definition de_body :: "fields \<Rightarrow> receipt_body option" where
  "de_body fs = (do {
     rid \<leftarrow> de_required ''run_id'' de_string fs;
     sq \<leftarrow> de_required ''seq'' de_u64 fs;
     ph \<leftarrow> de_default ''parent_hash'' None (de_option de_string) fs;
     ih \<leftarrow> de_required ''input_hash'' de_string fs;
     pol \<leftarrow> de_required ''policy_hash'' de_string fs;
     tf \<leftarrow> de_default ''threat_feed_hash'' None (de_option de_string) fs;
     pds \<leftarrow> de_default ''plugin_digests'' [] (de_list (de_object de_plugin_digest)) fs;
     mds \<leftarrow> de_default ''model_digests'' [] (de_list (de_object de_model_digest)) fs;
     ml \<leftarrow> de_default ''ml_scores'' None (de_option Some) fs;
     v \<leftarrow> de_required ''verdict'' de_verdict fs;
     rs \<leftarrow> de_default ''reasons'' [] (de_list de_string) fs;
     risk \<leftarrow> de_required ''risk_score'' de_u32 fs;
     ts \<leftarrow> de_required ''timestamp'' de_string fs;
     kid \<leftarrow> de_required ''signer_key_id'' de_string fs;
     cap \<leftarrow> de_default ''pipeline_inputs_capture'' None (de_option (de_object de_capture)) fs;
     tr \<leftarrow> de_default ''apl_eval_trace'' None (de_option (de_object de_eval_trace)) fs;
     mi \<leftarrow> de_default ''ml_inference_inputs'' None (de_option (de_object de_inference_inputs)) fs;
     auth \<leftarrow> de_default ''is_authoritative'' None (de_option de_bool) fs;
     us \<leftarrow> de_default ''usage'' None (de_option (de_object de_usage)) fs;
     Some \<lparr>run_id = rid, seq = sq, parent_hash = ph, input_hash = ih, policy_hash = pol,
       threat_feed_hash = tf, plugin_digests = pds, model_digests = mds, ml_scores = ml,
       verdict = v, reasons = rs, risk_score = risk, timestamp = ts, signer_key_id = kid,
       pipeline_inputs_capture = cap, apl_eval_trace = tr, ml_inference_inputs = mi,
       is_authoritative = auth, usage = us\<rparr> })"

definition body_of_json :: "json \<Rightarrow> receipt_body option" where
  "body_of_json = de_object de_body"

section \<open>Round trips\<close>

text \<open>
  A read of a written field list reduces to the one occurrence of the field. \<open>field_reads\<close>
  collects the three shapes such a read takes.
\<close>

lemmas field_reads = de_required_one de_default_none de_default_empty de_default_false

lemma de_cost_source_ser [simp]: "de_cost_source (ser_cost_source c) = Some c"
  by (cases c) (simp_all add: de_cost_source_def)

lemma de_verdict_ser [simp]: "de_verdict (ser_verdict v) = Some v"
  by (cases v) (simp_all add: de_verdict_def)

lemma ser_u64_not_null [simp]: "ser_u64 w \<noteq> JNull"
  by (simp add: ser_u64_def)

lemma de_usage_fields [simp]: "de_usage (usage_fields u) = Some u"
  by (simp add: de_usage_def usage_fields_def field_reads cong: option.case_cong)

lemma de_plugin_digest_fields [simp]: "de_plugin_digest (plugin_digest_fields p) = Some p"
  by (simp add: de_plugin_digest_def plugin_digest_fields_def field_reads)

lemma de_model_digest_fields [simp]: "de_model_digest (model_digest_fields m) = Some m"
  by (simp add: de_model_digest_def model_digest_fields_def field_reads)

lemma de_capture_fields [simp]: "de_capture (capture_fields c) = Some c"
  by (simp add: de_capture_def capture_fields_def field_reads)

lemma de_eval_trace_fields [simp]: "de_eval_trace (eval_trace_fields t) = Some t"
  by (simp add: de_eval_trace_def eval_trace_fields_def field_reads)

lemma de_token_digest_fields [simp]: "de_token_digest (token_digest_fields d) = Some d"
  by (simp add: de_token_digest_def token_digest_fields_def field_reads)

lemma de_inference_inputs_fields [simp]: "de_inference_inputs (inference_inputs_fields i) = Some i"
  by (simp add: de_inference_inputs_def inference_inputs_fields_def field_reads collect_options_map)

lemma occurrences_parent_hash:
  "occurrences k fs = [ser_option JString x] \<Longrightarrow> de_default k None (de_option de_string) fs = Some x"
  by (cases x) (simp_all add: de_default_def read_field_def de_option_def ser_option_def)

lemma de_body_fields:
  assumes "ml_scores b \<noteq> Some JNull"
  shows "de_body (body_fields b) = Some b"
proof -
  have "de_default ''ml_scores'' None (de_option Some) (body_fields b) = Some (ml_scores b)"
    using assms by (intro de_default_none [where g = "\<lambda>v. v"]) (auto simp: body_fields_def)
  moreover have "de_default ''parent_hash'' None (de_option de_string) (body_fields b) = Some (parent_hash b)"
    by (intro occurrences_parent_hash) (simp add: body_fields_def)
  ultimately show ?thesis
    by (simp add: de_body_def) (simp add: body_fields_def field_reads)
qed

end
