(* ===== verification/Receipt_Chain.thy ===== *)
theory Receipt_Chain
  imports Receipt_Model
begin

text \<open>
  Signing and the hash chain (\<open>signer.rs\<close>, \<open>merkle.rs\<close>, \<open>errors.rs\<close> and the link check of
  \<open>store.rs\<close> in \<open>crates/iaga-sentinel-receipts/src\<close>). The external libraries (\<open>serde_json\<close>,
  \<open>sha2\<close>, \<open>hex\<close>, \<open>ed25519-dalek\<close>) are the fields of a record that every operation takes; what
  the code relies on of them are the named hypotheses at the end of the first section.
\<close>

section \<open>The external libraries\<close>

type_synonym signing_key = bytes
type_synonym verifying_key = bytes

text \<open>
  \<open>to_vec\<close> prints and \<open>from_slice\<close> parses a document: the members of an object stand in the order of the
  text, which is what a derived \<open>Deserialize\<close> is shown.
\<close>

record crypto =
  to_vec :: "json \<Rightarrow> bytes option"
  from_slice :: "bytes \<Rightarrow> json option"
  sha256 :: "bytes \<Rightarrow> bytes"
  hex_encode :: "bytes \<Rightarrow> string"
  hex_decode :: "string \<Rightarrow> bytes option"
  vk_from_bytes :: "bytes \<Rightarrow> verifying_key option"
  ed_verifying_key :: "signing_key \<Rightarrow> verifying_key"
  ed_sign :: "signing_key \<Rightarrow> bytes \<Rightarrow> bytes"
  ed_verify :: "verifying_key \<Rightarrow> bytes \<Rightarrow> bytes \<Rightarrow> bool"

text \<open>
  A JSON value is stable when parsing its printed text gives the value back. Not every value is:
  \<open>serde_json\<close> parses floating point numbers on a best effort unless its feature \<open>float_roundtrip\<close> is
  on, which the workspace does not enable, and it refuses values nested deeper than 127 levels.
  For all other values the round trip is documented behaviour, and this is the hypothesis.
\<close>

definition json_stable :: "crypto \<Rightarrow> json \<Rightarrow> bool" where
  "json_stable c j \<longleftrightarrow> (\<forall>bs. to_vec c j = Some bs \<longrightarrow> from_slice c bs = Some j)"

text \<open>
  \<open>plain_json n v\<close>: no floating point number in \<open>v\<close>, integers of 64 bits, arrays and objects nested at
  most \<open>n\<close> deep.
\<close>

fun plain_json :: "nat \<Rightarrow> json \<Rightarrow> bool" where
  "plain_json n (JNumber x) \<longleftrightarrow> (case x of PosInt _ \<Rightarrow> True | NegInt i \<Rightarrow> - (2 ^ 63) \<le> i \<and> i < 0 | Float _ \<Rightarrow> False)"
| "plain_json n (JArray xs) \<longleftrightarrow> 0 < n \<and> (\<forall>x \<in> set xs. plain_json (n - 1) x)"
| "plain_json n (JObject fs) \<longleftrightarrow> 0 < n \<and> (\<forall>kv \<in> set fs. plain_json (n - 1) (snd kv))"
| "plain_json n _ \<longleftrightarrow> True"

definition json_round_trip :: "crypto \<Rightarrow> bool" where
  "json_round_trip c \<longleftrightarrow> (\<forall>j. plain_json 127 j \<longrightarrow> json_stable c j)"

text \<open>\<open>hex::decode\<close> inverts \<open>hex::encode\<close>.\<close>

definition hex_round_trip :: "crypto \<Rightarrow> bool" where
  "hex_round_trip c \<longleftrightarrow> (\<forall>bs. hex_decode c (hex_encode c bs) = Some bs)"

text \<open>Ed25519: a signature has 64 bytes and verifies under the signer's own public key.\<close>

definition ed25519_correct :: "crypto \<Rightarrow> bool" where
  "ed25519_correct c \<longleftrightarrow>
     (\<forall>sk m. length (ed_sign c sk m) = 64 \<and> ed_verify c (ed_verifying_key c sk) m (ed_sign c sk m))"

lemma json_stableD: "json_stable c j \<Longrightarrow> to_vec c j = Some bs \<Longrightarrow> from_slice c bs = Some j"
  by (simp add: json_stable_def)

lemma to_vec_inj:
  "json_stable c j \<Longrightarrow> json_stable c j' \<Longrightarrow> to_vec c j = Some bs \<Longrightarrow> to_vec c j' = Some bs \<Longrightarrow> j = j'"
  by (metis json_stableD option.inject)

text \<open>
  Beside its scores and the captured request, a receipt body holds no value that could fail to be
  stable: texts, words and three levels of structure.
\<close>

definition plain_fields :: "nat \<Rightarrow> fields \<Rightarrow> bool" where
  "plain_fields n fs \<longleftrightarrow> (\<forall>kv \<in> set fs. plain_json n (snd kv))"

lemma plain_object [simp]: "plain_json n (JObject fs) \<longleftrightarrow> 0 < n \<and> plain_fields (n - 1) fs"
  by (simp add: plain_fields_def)

declare plain_json.simps(3) [simp del]

lemma plain_words [simp]: "plain_json n (ser_u64 w)" "plain_json n (ser_u32 v)"
  by (simp_all add: ser_u64_def ser_u32_def)

lemma plain_fields_simps [simp]:
  "plain_fields n (fs @ gs) \<longleftrightarrow> plain_fields n fs \<and> plain_fields n gs"
  "plain_fields n (ser_field k v) \<longleftrightarrow> plain_json n v"
  "plain_fields n (ser_skip_none k f x) \<longleftrightarrow> (\<forall>y. x = Some y \<longrightarrow> plain_json n (f y))"
  "plain_fields n (ser_skip_empty k g xs) \<longleftrightarrow> (xs = [] \<or> 0 < n \<and> (\<forall>y \<in> set xs. plain_json (n - 1) (g y)))"
  "plain_fields n (ser_skip_false k b)"
  by (auto simp: plain_fields_def ser_field_def ser_skip_none_def ser_skip_empty_def ser_skip_false_def split: option.splits)

lemma plain_verdict [simp]: "plain_json n (ser_verdict d)"
  by (cases d) simp_all

lemma plain_cost_source [simp]: "plain_json n (ser_cost_source x)"
  by (cases x) simp_all

lemma plain_text [simp]: "plain_json n (ser_option JString x)"
  by (cases x) (simp_all add: ser_option_def)

lemma plain_body_stable:
  assumes "json_round_trip c" "\<And>v. ml_scores b = Some v \<Longrightarrow> plain_json 126 v"
    and "\<And>p. pipeline_inputs_capture b = Some p \<Longrightarrow> plain_json 125 (pic_request_json p)"
  shows "json_stable c (body_json b)"
proof -
  have "plain_json 127 (body_json b)" using assms(2,3)
    by (simp add: body_json_def body_fields_def usage_fields_def plugin_digest_fields_def model_digest_fields_def capture_fields_def
        eval_trace_fields_def token_digest_fields_def inference_inputs_fields_def)
  then show ?thesis using assms(1) by (simp add: json_round_trip_def)
qed

lemma hex_encode_inj: "hex_round_trip c \<Longrightarrow> hex_encode c a = hex_encode c b \<Longrightarrow> a = b"
  unfolding hex_round_trip_def by (metis option.inject)

section \<open>Errors and statuses\<close>

text \<open>
  Human-readable texts are built with \<open>format!\<close>; the model keeps the data that goes into them.
\<close>

datatype link_violation =
    UnexpectedSeq u64 u64
  | ParentHashMismatch "string option" "string option"
  | ColumnSeqMismatch int u64

datatype receipt_error =
    SignatureInvalid u64
  | ChainViolation u64 link_violation
  | DuplicateSeq u64
  | UnknownRun string
  | Storage string
  | Canonical
  | Key string
  | Hex

datatype break_reason =
    RunIdMismatch string string
  | NonMonotonicSeq nat u64
  | ParentMismatch "string option" "string option"
  | BadSignature receipt_error
  | SignerKeyIdMismatch string string
  | ReceiptSignerMismatch u64 string string

datatype chain_status = Valid u64 | Broken u64 break_reason | Empty

section \<open>Bodies, hashes and signatures\<close>

definition signing_bytes :: "crypto \<Rightarrow> receipt_body \<Rightarrow> receipt_error + bytes" where
  "signing_bytes c b = of_option Canonical (to_vec c (body_json b))"

definition body_hash :: "crypto \<Rightarrow> receipt_body \<Rightarrow> receipt_error + bytes" where
  "body_hash c b = rbind (signing_bytes c b) (\<lambda>m. Inr (sha256 c m))"

definition key_id_for_verifying_key :: "crypto \<Rightarrow> verifying_key \<Rightarrow> string" where
  "key_id_for_verifying_key c vk = ''ed25519-'' @ hex_encode c (take 16 (sha256 c vk))"

record local_disk_signer =
  signing_key :: signing_key
  key_id :: string

definition signer_of_key :: "crypto \<Rightarrow> signing_key \<Rightarrow> local_disk_signer" where
  "signer_of_key c sk =
     \<lparr>signing_key = sk, key_id = key_id_for_verifying_key c (ed_verifying_key c sk)\<rparr>"

definition verifying_key_of :: "crypto \<Rightarrow> local_disk_signer \<Rightarrow> verifying_key" where
  "verifying_key_of c s = ed_verifying_key c (signing_key s)"

definition sign :: "crypto \<Rightarrow> local_disk_signer \<Rightarrow> receipt_body \<Rightarrow> receipt_error + receipt" where
  "sign c s b =
     (if signer_key_id b \<noteq> key_id s then Inl (Key (signer_key_id b))
      else rbind (signing_bytes c b) (\<lambda>m.
        Inr \<lparr>body = b, signature = hex_encode c (ed_sign c (signing_key s) m)\<rparr>))"

definition verify_receipt :: "crypto \<Rightarrow> receipt \<Rightarrow> verifying_key \<Rightarrow> receipt_error + unit" where
  "verify_receipt c r vk =
     rbind (of_option Hex (hex_decode c (signature r))) (\<lambda>sig.
       if length sig \<noteq> 64 then Inl (SignatureInvalid (seq (body r)))
       else rbind (signing_bytes c (body r)) (\<lambda>m.
         if ed_verify c vk m sig then Inr () else Inl (SignatureInvalid (seq (body r)))))"

section \<open>The chain\<close>

text \<open>
  The loop of \<open>verify_chain\<close> over the receipts from index \<open>i\<close> on. \<open>Inr (Some st)\<close> is an early
  \<open>return Ok(st)\<close>, \<open>Inr None\<close> is a loop that ran to its end.
\<close>

fun verify_loop ::
  "crypto \<Rightarrow> verifying_key \<Rightarrow> string \<Rightarrow> nat \<Rightarrow> string option \<Rightarrow> receipt list \<Rightarrow>
   receipt_error + chain_status option" where
  "verify_loop c vk rid i expected [] = Inr None"
| "verify_loop c vk rid i expected (r # rs) =
     (if run_id (body r) \<noteq> rid
        then Inr (Some (Broken (seq (body r)) (RunIdMismatch rid (run_id (body r)))))
      else if seq (body r) \<noteq> of_nat i
        then Inr (Some (Broken (seq (body r)) (NonMonotonicSeq i (seq (body r)))))
      else if parent_hash (body r) \<noteq> expected
        then Inr (Some (Broken (seq (body r)) (ParentMismatch expected (parent_hash (body r)))))
      else case verify_receipt c r vk of
          Inl e \<Rightarrow> Inr (Some (Broken (seq (body r)) (BadSignature e)))
        | Inr _ \<Rightarrow> rbind (body_hash c (body r)) (\<lambda>h.
            verify_loop c vk rid (Suc i) (Some (hex_encode c h)) rs))"

definition verify_chain :: "crypto \<Rightarrow> receipt list \<Rightarrow> verifying_key \<Rightarrow> receipt_error + chain_status" where
  "verify_chain c rs vk =
     (case rs of
        [] \<Rightarrow> Inr Empty
      | r0 # _ \<Rightarrow> rbind (verify_loop c vk (run_id (body r0)) 0 None rs) (\<lambda>out.
          case out of Some st \<Rightarrow> Inr st | None \<Rightarrow> Inr (Valid (of_nat (length rs)))))"

definition next_parent_hash :: "crypto \<Rightarrow> receipt option \<Rightarrow> receipt_error + string option" where
  "next_parent_hash c head =
     (case head of
        None \<Rightarrow> Inr None
      | Some r \<Rightarrow> rbind (body_hash c (body r)) (\<lambda>h. Inr (Some (hex_encode c h))))"

definition next_seq :: "receipt option \<Rightarrow> u64" where
  "next_seq head = (case head of None \<Rightarrow> 0 | Some r \<Rightarrow> seq (body r) + 1)"

definition chain_link :: "crypto \<Rightarrow> receipt option \<Rightarrow> receipt_error + (string option \<times> u64)" where
  "chain_link c head = rbind (next_parent_hash c head) (\<lambda>parent. Inr (parent, next_seq head))"

definition check_append_link :: "crypto \<Rightarrow> receipt option \<Rightarrow> receipt \<Rightarrow> receipt_error + unit" where
  "check_append_link c head incoming =
     rbind (next_parent_hash c head) (\<lambda>expected_parent.
       if seq (body incoming) \<noteq> next_seq head
         then Inl (ChainViolation (seq (body incoming))
                (UnexpectedSeq (next_seq head) (seq (body incoming))))
       else if parent_hash (body incoming) \<noteq> expected_parent
         then Inl (ChainViolation (seq (body incoming))
                (ParentHashMismatch expected_parent (parent_hash (body incoming))))
       else Inr ())"

section \<open>What a valid chain is\<close>

text \<open>
  The abstract contract of \<open>verify_chain\<close>: every receipt carries the run id of the first, the
  sequence number of its position, the digest of its predecessor and a good signature.
\<close>

definition link_digest :: "crypto \<Rightarrow> receipt \<Rightarrow> string option" where
  "link_digest c r = (case body_hash c (body r) of Inl _ \<Rightarrow> None | Inr h \<Rightarrow> Some (hex_encode c h))"

definition receipt_ok :: "crypto \<Rightarrow> verifying_key \<Rightarrow> string \<Rightarrow> nat \<Rightarrow> string option \<Rightarrow> receipt \<Rightarrow> bool" where
  "receipt_ok c vk rid i expected r \<longleftrightarrow>
     run_id (body r) = rid \<and> seq (body r) = of_nat i \<and> parent_hash (body r) = expected \<and>
     verify_receipt c r vk = Inr ()"

fun intact_from ::
  "crypto \<Rightarrow> verifying_key \<Rightarrow> string \<Rightarrow> nat \<Rightarrow> string option \<Rightarrow> receipt list \<Rightarrow> bool" where
  "intact_from c vk rid i expected [] = True"
| "intact_from c vk rid i expected (r # rs) =
     (receipt_ok c vk rid i expected r \<and> intact_from c vk rid (Suc i) (link_digest c r) rs)"

definition intact :: "crypto \<Rightarrow> verifying_key \<Rightarrow> string \<Rightarrow> receipt list \<Rightarrow> bool" where
  "intact c vk rid rs \<longleftrightarrow> intact_from c vk rid 0 None rs"

lemma verify_receipt_hashes:
  "verify_receipt c r vk = Inr () \<Longrightarrow> \<exists>h. body_hash c (body r) = Inr h"
  by (auto simp: verify_receipt_def body_hash_def split: if_splits)

lemma verify_receipt_unit: "verify_receipt c r vk = Inr u \<longleftrightarrow> verify_receipt c r vk = Inr ()"
  by simp

lemma link_digest_Some: "body_hash c (body r) = Inr h \<Longrightarrow> link_digest c r = Some (hex_encode c h)"
  by (simp add: link_digest_def)

text \<open>The loop ends normally exactly on an intact chain.\<close>

lemma verify_loop_None:
  "verify_loop c vk rid i expected rs = Inr None \<longleftrightarrow> intact_from c vk rid i expected rs"
proof (induction rs arbitrary: i expected)
  case Nil
  then show ?case by simp
next
  case (Cons r rs)
  show ?case
    by (cases "verify_receipt c r vk")
       (auto simp: receipt_ok_def Cons.IH link_digest_def dest!: verify_receipt_hashes)
qed

text \<open>The loop never fails: the \<open>?\<close> on \<open>body_hash\<close> runs only after the same bytes verified.\<close>

lemma verify_loop_total: "\<exists>out. verify_loop c vk rid i expected rs = Inr out"
proof (induction rs arbitrary: i expected)
  case Nil
  then show ?case by simp
next
  case (Cons r rs)
  show ?case
  proof (cases "verify_receipt c r vk")
    case (Inr u)
    then obtain h where "body_hash c (body r) = Inr h" using verify_receipt_hashes by fastforce
    with Inr Cons.IH show ?thesis by auto
  qed auto
qed

text \<open>An early return names the first receipt that is not in order.\<close>

lemma verify_loop_Broken:
  assumes "verify_loop c vk rid i expected rs = Inr (Some st)"
  shows "\<exists>pre r post why. rs = pre @ r # post \<and> st = Broken (seq (body r)) why \<and>
           intact_from c vk rid i expected pre \<and> \<not> intact_from c vk rid i expected (pre @ [r])"
  using assms
proof (induction rs arbitrary: i expected)
  case Nil
  then show ?case by simp
next
  case (Cons r rs)
  show ?case
  proof (cases "receipt_ok c vk rid i expected r")
    case True
    then obtain h where h: "body_hash c (body r) = Inr h"
      using verify_receipt_hashes by (fastforce simp: receipt_ok_def)
    with True Cons.prems have "verify_loop c vk rid (Suc i) (link_digest c r) rs = Inr (Some st)"
      by (simp add: receipt_ok_def link_digest_Some)
    from Cons.IH [OF this] obtain pre x post why where
      "rs = pre @ x # post" "st = Broken (seq (body x)) why"
      "intact_from c vk rid (Suc i) (link_digest c r) pre"
      "\<not> intact_from c vk rid (Suc i) (link_digest c r) (pre @ [x])" by blast
    with True show ?thesis
      by (intro exI [of _ "r # pre"] exI [of _ x] exI [of _ post] exI [of _ why]) simp
  next
    case False
    with Cons.prems have "\<exists>why. st = Broken (seq (body r)) why"
      by (auto simp: receipt_ok_def split: if_splits sum.splits)
    with False show ?thesis by (intro exI [of _ "[]"]) auto
  qed
qed

lemma intact_from_append:
  "intact_from c vk rid i e (xs @ ys) \<longleftrightarrow>
     intact_from c vk rid i e xs \<and>
     intact_from c vk rid (i + length xs) (if xs = [] then e else link_digest c (last xs)) ys"
  by (induction xs arbitrary: i e) auto

lemma intact_append:
  "intact c vk rid (xs @ ys) \<longleftrightarrow>
     intact c vk rid xs \<and>
     intact_from c vk rid (length xs) (if xs = [] then None else link_digest c (last xs)) ys"
  by (simp add: intact_def intact_from_append)

lemma intact_from_nth:
  "intact_from c vk rid i e rs \<Longrightarrow> k < length rs \<Longrightarrow>
   receipt_ok c vk rid (i + k) (if k = 0 then e else link_digest c (rs ! (k - 1))) (rs ! k)"
proof (induction rs arbitrary: i e k)
  case Nil
  then show ?case by simp
next
  case (Cons r rs)
  show ?case
  proof (cases k)
    case 0
    with Cons.prems show ?thesis by simp
  next
    case (Suc m)
    with Cons.prems have "receipt_ok c vk rid (Suc i + m) (if m = 0 then link_digest c r else link_digest c (rs ! (m - 1))) (rs ! m)"
      by (intro Cons.IH) auto
    with Suc show ?thesis by (cases m) auto
  qed
qed

lemma intact_nth:
  "intact c vk rid rs \<Longrightarrow> k < length rs \<Longrightarrow>
   receipt_ok c vk rid k (if k = 0 then None else link_digest c (rs ! (k - 1))) (rs ! k)"
  unfolding intact_def by (drule intact_from_nth) simp_all

lemma intactI:
  assumes "\<And>k. k < length rs \<Longrightarrow>
    receipt_ok c vk rid k (if k = 0 then None else link_digest c (rs ! (k - 1))) (rs ! k)"
  shows "intact c vk rid rs"
  using assms
proof (induction rs rule: rev_induct)
  case Nil
  then show ?case by (simp add: intact_def)
next
  case (snoc r rs)
  have "intact c vk rid rs"
  proof (rule snoc.IH)
    fix k
    assume "k < length rs"
    with snoc.prems [of k] show "receipt_ok c vk rid k
        (if k = 0 then None else link_digest c (rs ! (k - 1))) (rs ! k)"
      by (auto simp: nth_append split: if_splits)
  qed
  moreover have "receipt_ok c vk rid (length rs) (if rs = [] then None else link_digest c (last rs)) r"
    using snoc.prems [of "length rs"] by (auto simp: nth_append last_conv_nth split: if_splits)
  ultimately show ?case by (simp add: intact_append)
qed

lemma verify_chain_cases:
  "verify_chain c rs vk = Inr (Valid n) \<longleftrightarrow>
     rs \<noteq> [] \<and> intact c vk (run_id (body (hd rs))) rs \<and> n = of_nat (length rs)"
proof (cases rs)
  case Nil
  then show ?thesis by (simp add: verify_chain_def)
next
  case (Cons r rs')
  obtain out where out: "verify_loop c vk (run_id (body r)) 0 None rs = Inr out"
    using verify_loop_total by blast
  show ?thesis
  proof (cases out)
    case None
    then show ?thesis
      using out Cons by (auto simp: verify_chain_def intact_def simp flip: verify_loop_None)
  next
    case (Some st)
    then have "\<exists>s why. st = Broken s why" using verify_loop_Broken out by blast
    moreover have "\<not> intact c vk (run_id (body r)) rs"
      using Some out by (simp add: intact_def flip: verify_loop_None)
    ultimately show ?thesis using Some out Cons by (auto simp: verify_chain_def)
  qed
qed

lemma verify_chain_never_fails: "\<exists>st. verify_chain c rs vk = Inr st"
proof (cases rs)
  case (Cons r rs')
  obtain out where "verify_loop c vk (run_id (body r)) 0 None rs = Inr out" using verify_loop_total by blast
  with Cons show ?thesis by (cases out) (auto simp: verify_chain_def)
qed (simp add: verify_chain_def)

section \<open>Extending a chain\<close>

lemma sign_verifies:
  assumes "hex_round_trip c" "ed25519_correct c" "sign c s b = Inr r"
  shows "body r = b \<and> verify_receipt c r (verifying_key_of c s) = Inr ()"
proof -
  from assms(3) obtain m where m: "signing_bytes c b = Inr m"
    and r: "r = \<lparr>body = b, signature = hex_encode c (ed_sign c (signing_key s) m)\<rparr>"
    by (auto simp: sign_def split: if_splits)
  have "hex_decode c (signature r) = Some (ed_sign c (signing_key s) m)"
    using assms(1) r by (simp add: hex_round_trip_def)
  then show ?thesis
    using assms(2) m r unfolding verify_receipt_def ed25519_correct_def verifying_key_of_def
    by (simp del: rbind_eq_Inr)
qed

lemma sign_key_id: "sign c s b = Inr r \<Longrightarrow> signer_key_id (body r) = key_id s"
  by (auto simp: sign_def split: if_splits)

lemma next_parent_hash_link:
  "next_parent_hash c head = Inr p \<Longrightarrow> p = (case head of None \<Rightarrow> None | Some r \<Rightarrow> link_digest c r)"
  by (auto simp: next_parent_hash_def link_digest_def split: option.splits)

lemma check_append_link_iff:
  "check_append_link c head r = Inr () \<longleftrightarrow>
     (\<exists>p. next_parent_hash c head = Inr p \<and> seq (body r) = next_seq head \<and> parent_hash (body r) = p)"
  by (auto simp: check_append_link_def split: if_splits)

lemma check_append_link_own:
  "chain_link c head = Inr (p, n) \<Longrightarrow> parent_hash (body r) = p \<Longrightarrow> seq (body r) = n \<Longrightarrow>
   check_append_link c head r = Inr ()"
  by (auto simp: chain_link_def check_append_link_iff)

definition last_receipt :: "'a list \<Rightarrow> 'a option" where
  "last_receipt xs = (if xs = [] then None else Some (last xs))"

lemma intact_last_seq:
  assumes "intact c vk rid rs" "rs \<noteq> []"
  shows "seq (body (last rs)) = of_nat (length rs - 1)"
  using intact_nth [OF assms(1), of "length rs - 1"] assms(2)
  by (simp add: receipt_ok_def last_conv_nth)

lemma intact_next_seq:
  assumes "intact c vk rid rs"
  shows "next_seq (last_receipt rs) = of_nat (length rs)"
proof (cases "rs = []")
  case True
  then show ?thesis by (simp add: next_seq_def last_receipt_def)
next
  case False
  then have "length rs = Suc (length rs - 1)" by simp
  then have "(of_nat (length rs) :: u64) = of_nat (length rs - 1) + 1"
    by (metis of_nat_Suc add.commute)
  with False intact_last_seq [OF assms] show ?thesis
    by (simp add: next_seq_def last_receipt_def)
qed

lemma intact_extend:
  assumes "intact c vk rid rs" "check_append_link c (last_receipt rs) r = Inr ()"
    and "run_id (body r) = rid" "verify_receipt c r vk = Inr ()"
  shows "intact c vk rid (rs @ [r])"
proof -
  from assms(2) obtain p where "next_parent_hash c (last_receipt rs) = Inr p"
    "seq (body r) = next_seq (last_receipt rs)" "parent_hash (body r) = p"
    by (auto simp: check_append_link_iff)
  then have "parent_hash (body r) = (if rs = [] then None else link_digest c (last rs))"
    using next_parent_hash_link [of c "last_receipt rs" p]
    by (auto simp: last_receipt_def split: if_splits)
  with assms(1,3,4) \<open>seq (body r) = _\<close> intact_next_seq [OF assms(1)] show ?thesis
    by (simp add: intact_append receipt_ok_def)
qed

section \<open>Tamper evidence\<close>

text \<open>
  Two bodies \<open>collide\<close> when their signed bytes differ while the digests agree: a concrete
  SHA-256 collision, not the mere existence of one.
\<close>

definition collide :: "crypto \<Rightarrow> receipt_body \<Rightarrow> receipt_body \<Rightarrow> bool" where
  "collide c a b \<longleftrightarrow>
     (\<exists>m n. signing_bytes c a = Inr m \<and> signing_bytes c b = Inr n \<and> m \<noteq> n \<and> sha256 c m = sha256 c n)"

text \<open>A body reads back when its scores are not \<open>null\<close> and its JSON is stable.\<close>

definition body_reads_back :: "crypto \<Rightarrow> receipt_body \<Rightarrow> bool" where
  "body_reads_back c b \<longleftrightarrow> ml_scores b \<noteq> Some JNull \<and> json_stable c (body_json b)"

lemma signing_bytes_inj:
  assumes "json_stable c (body_json a)" "json_stable c (body_json b)" "signing_bytes c a = Inr m" "signing_bytes c b = Inr m"
    and "ml_scores a \<noteq> Some JNull" "ml_scores b \<noteq> Some JNull"
  shows "a = b"
proof -
  have "body_json a = body_json b"
    using assms(3,4) to_vec_inj [OF assms(1,2)] by (auto simp: signing_bytes_def)
  then have "body_fields a = body_fields b" unfolding body_json_def by (rule json.inject(5) [THEN iffD1])
  then have "Some a = Some b"
    by (rule subst [of _ _ "\<lambda>fs. Some a = de_body fs", THEN trans])
       (simp_all only: de_body_fields [OF assms(5)] de_body_fields [OF assms(6)])
  then show ?thesis by (rule option.inject [THEN iffD1])
qed

lemma link_digest_binds:
  assumes "body_reads_back c (body r)" "body_reads_back c (body r')" "hex_round_trip c"
    and "link_digest c r = Some d" "link_digest c r' = Some d"
  shows "body r = body r' \<or> collide c (body r) (body r')"
proof -
  from assms(4) obtain m where m: "signing_bytes c (body r) = Inr m" "hex_encode c (sha256 c m) = d"
    by (auto simp: link_digest_def body_hash_def split: sum.splits)
  from assms(5) obtain n where n: "signing_bytes c (body r') = Inr n" "hex_encode c (sha256 c n) = d"
    by (auto simp: link_digest_def body_hash_def split: sum.splits)
  from m(2) n(2) have "hex_encode c (sha256 c m) = hex_encode c (sha256 c n)" by (simp only:)
  then have same: "sha256 c m = sha256 c n" by (rule hex_encode_inj [OF assms(3)])
  show ?thesis
  proof (cases "m = n")
    case True
    with n(1) have "signing_bytes c (body r') = Inr m" by (simp only:)
    with m(1) assms(1,2) show ?thesis using signing_bytes_inj by (auto simp: body_reads_back_def)
  next
    case False
    with m(1) n(1) same have "collide c (body r) (body r')" unfolding collide_def by blast
    then show ?thesis ..
  qed
qed

lemma intact_link_digest:
  assumes "intact c vk rid rs" "k < length rs"
  shows "\<exists>d. link_digest c (rs ! k) = Some d"
  using intact_nth [OF assms] verify_receipt_hashes by (fastforce simp: receipt_ok_def link_digest_def)

end
