(* ===== verification/Receipt_Export.thy ===== *)
theory Receipt_Export
  imports Receipt_Chain
begin

text \<open>
  The exported chain and its offline verification (\<open>crates/iaga-sentinel-receipts/src/export.rs\<close>
  and \<open>crates/iaga-sentinel-verify/src/lib.rs\<close>).
\<close>

section \<open>Export and key parsing\<close>

record chain_export =
  ex_run_id :: string
  ex_signer_key_id :: string
  ex_signer_verifying_key :: string
  ex_receipts :: "receipt list"

datatype key_source = Pinned | Embedded

datatype bad_key = NotHex | WrongLength nat | NotAPoint

datatype verify_error = BadKey bad_key | Verify receipt_error

definition parse_key :: "crypto \<Rightarrow> string \<Rightarrow> verify_error + verifying_key" where
  "parse_key c hex_key =
     rbind (of_option (BadKey NotHex) (hex_decode c (str_trim hex_key))) (\<lambda>bs.
       if length bs \<noteq> 32 then Inl (BadKey (WrongLength (length bs)))
       else of_option (BadKey NotAPoint) (vk_from_bytes c bs))"

section \<open>Verification of an export\<close>

text \<open>The loop over the receipts that binds the signer label and the run id; \<open>None\<close> is its normal end.\<close>

fun export_labels :: "string \<Rightarrow> string \<Rightarrow> receipt list \<Rightarrow> chain_status option" where
  "export_labels kid rid [] = None"
| "export_labels kid rid (r # rs) =
     (if signer_key_id (body r) \<noteq> kid
        then Some (Broken (seq (body r)) (ReceiptSignerMismatch (seq (body r)) (signer_key_id (body r)) kid))
      else if run_id (body r) \<noteq> rid
        then Some (Broken (seq (body r)) (RunIdMismatch rid (run_id (body r))))
      else export_labels kid rid rs)"

definition verify_export ::
  "crypto \<Rightarrow> chain_export \<Rightarrow> string option \<Rightarrow> verify_error + (chain_status \<times> key_source)" where
  "verify_export c ex pinned =
     (let (key_hex, source) =
        (case pinned of Some k \<Rightarrow> (k, Pinned) | None \<Rightarrow> (ex_signer_verifying_key ex, Embedded))
      in rbind (parse_key c key_hex) (\<lambda>vk.
        let kid = key_id_for_verifying_key c vk in
        if ex_signer_key_id ex \<noteq> kid
          then Inr (Broken 0 (SignerKeyIdMismatch (ex_signer_key_id ex) kid), source)
        else case export_labels kid (ex_run_id ex) (ex_receipts ex) of
            Some st \<Rightarrow> Inr (st, source)
          | None \<Rightarrow> (case verify_chain c (ex_receipts ex) vk of
                Inl e \<Rightarrow> Inl (Verify e)
              | Inr st \<Rightarrow> Inr (st, source))))"

lemma export_labels_None:
  "export_labels kid rid rs = None \<longleftrightarrow>
     (\<forall>r \<in> set rs. signer_key_id (body r) = kid \<and> run_id (body r) = rid)"
  by (induction rs) auto

lemma export_labels_not_Valid: "export_labels kid rid rs \<noteq> Some (Valid n)"
  by (induction rs) auto

lemma intact_run_id: "intact c vk rid rs \<Longrightarrow> r \<in> set rs \<Longrightarrow> run_id (body r) = rid"
  by (metis in_set_conv_nth intact_nth receipt_ok_def)

end
