(* ===== verification/Receipt_Spec.thy ===== *)
theory Receipt_Spec
  imports Receipt_Chain
begin

text \<open>
  The contract of the \<open>ReceiptStore\<close> trait (\<open>crates/iaga-sentinel-receipts/src/store.rs\<close>) as a
  locale over its operations, with the facts every client of a store uses, and the replay
  engine of \<open>replay.rs\<close>, which runs over any store.
\<close>

section \<open>Storable receipts\<close>

text \<open>
  A receipt is storable when its sequence number fits the signed 64-bit column and its body reads
  back from its printed form. By \<open>plain_body_stable\<close> every body does whose scores and captured request
  hold no floating point number.
\<close>

definition storable :: "crypto \<Rightarrow> receipt \<Rightarrow> bool" where
  "storable c r \<longleftrightarrow> unat (seq (body r)) < 2 ^ 63 \<and> body_reads_back c (body r)"

text \<open>The links of a run without its signatures.\<close>

definition links_ok :: "crypto \<Rightarrow> string \<Rightarrow> receipt list \<Rightarrow> bool" where
  "links_ok c rid rs \<longleftrightarrow> (\<forall>k < length rs. run_id (body (rs ! k)) = rid \<and> seq (body (rs ! k)) = of_nat k \<and>
     parent_hash (body (rs ! k)) = (if k = 0 then None else link_digest c (rs ! (k - 1))))"

lemma links_ok_intact:
  "links_ok c rid rs \<Longrightarrow> (\<And>r. r \<in> set rs \<Longrightarrow> verify_receipt c r vk = Inr ()) \<Longrightarrow> intact c vk rid rs"
  by (rule intactI) (simp add: links_ok_def receipt_ok_def)

lemma links_ok_next_seq:
  assumes "links_ok c rid rs"
  shows "next_seq (last_receipt rs) = of_nat (length rs)"
proof (cases rs rule: rev_cases)
  case Nil
  then show ?thesis by (simp add: next_seq_def last_receipt_def)
next
  case (snoc ys y)
  with assms have "seq (body y) = of_nat (length ys)" by (auto simp: links_ok_def)
  with snoc show ?thesis by (simp add: next_seq_def last_receipt_def)
qed

section \<open>The contract of a store\<close>

locale receipt_store =
  fixes c :: crypto
    and head :: "'s \<Rightarrow> string \<Rightarrow> receipt_error + receipt option"
    and get_run :: "'s \<Rightarrow> string \<Rightarrow> receipt_error + receipt list"
    and append :: "'s \<Rightarrow> receipt \<Rightarrow> receipt_error + 's"
    and inv :: "'s \<Rightarrow> bool"
  assumes get_run_links: "inv s \<Longrightarrow> \<exists>rs. get_run s rid = Inr rs \<and> links_ok c rid rs"
    and head_last: "inv s \<Longrightarrow> get_run s rid = Inr rs \<Longrightarrow> head s rid = Inr (last_receipt rs)"
    and append_inv: "inv s \<Longrightarrow> storable c r \<Longrightarrow> append s r = Inr s' \<Longrightarrow> inv s'"
    and append_extends: "inv s \<Longrightarrow> storable c r \<Longrightarrow> append s r = Inr s' \<Longrightarrow>
          get_run s (run_id (body r)) = Inr rs \<Longrightarrow> get_run s' (run_id (body r)) = Inr (rs @ [r])"
    and append_frame: "inv s \<Longrightarrow> storable c r \<Longrightarrow> append s r = Inr s' \<Longrightarrow> rid \<noteq> run_id (body r) \<Longrightarrow>
          get_run s' rid = get_run s rid"
    and append_accepts: "inv s \<Longrightarrow> storable c r \<Longrightarrow> head s (run_id (body r)) = Inr h \<Longrightarrow>
          check_append_link c h r = Inr () \<Longrightarrow> signing_bytes c (body r) = Inr m \<Longrightarrow>
          \<exists>s'. append s r = Inr s'"
    and head_links: "inv s \<Longrightarrow> head s rid = Inr h \<Longrightarrow> \<exists>l. chain_link c h = Inr l"
    and append_race: "inv s \<Longrightarrow> signing_bytes c (body r) = Inr m \<Longrightarrow> append s r = Inl e \<Longrightarrow>
          (\<exists>q. e = DuplicateSeq q) \<or> (\<exists>q v. e = ChainViolation q v)"
begin

text \<open>Appending a well-signed receipt keeps the verified part of the run verified.\<close>

lemma append_intact:
  assumes "inv s" "storable c r" "append s r = Inr s'" "verify_receipt c r vk = Inr ()"
    and "get_run s (run_id (body r)) = Inr rs" "intact c vk (run_id (body r)) rs"
  shows "\<exists>rs'. get_run s' (run_id (body r)) = Inr rs' \<and> intact c vk (run_id (body r)) rs'"
proof -
  have run: "get_run s' (run_id (body r)) = Inr (rs @ [r])" using append_extends assms(1-3,5) by blast
  moreover have "inv s'" using append_inv assms(1-3) by blast
  ultimately have links: "links_ok c (run_id (body r)) (rs @ [r])"
    using get_run_links [of s' "run_id (body r)"] by auto
  have "verify_receipt c x vk = Inr ()" if "x \<in> set (rs @ [r])" for x
  proof (cases "x = r")
    case False
    with that obtain k where "k < length rs" "x = rs ! k" by (auto simp: in_set_conv_nth)
    with intact_nth [OF assms(6)] show ?thesis by (simp add: receipt_ok_def)
  qed (simp add: assms(4))
  with links have "intact c vk (run_id (body r)) (rs @ [r])" by (intro links_ok_intact)
  with run show ?thesis by blast
qed

text \<open>The link computed from the head of a run is the one the store accepts.\<close>

lemma own_link_accepted:
  assumes "inv s" "storable c r" "head s (run_id (body r)) = Inr h"
    and "chain_link c h = Inr (parent_hash (body r), seq (body r))"
    and "signing_bytes c (body r) = Inr m"
  shows "\<exists>s'. append s r = Inr s'"
  using assms append_accepts check_append_link_own by blast

end

section \<open>Replay\<close>

record drift_record =
  dr_seq :: u64
  dr_stored_verdict :: verdict
  dr_current_verdict :: verdict
  dr_stored_reasons :: "string list"
  dr_current_reasons :: "string list"
  dr_divergent :: bool

record replay_report =
  rp_run_id :: string
  rp_chain_status :: chain_status
  rp_drift :: "drift_record list"
  rp_total_divergences :: u64

record current_outcome =
  co_verdict :: verdict
  co_reasons :: "string list"

text \<open>The evaluator is an \<open>FnMut\<close>: it threads a state of its own from receipt to receipt.\<close>

fun replay_loop ::
  "('e \<Rightarrow> receipt \<Rightarrow> current_outcome \<times> 'e) \<Rightarrow> 'e \<Rightarrow> u64 \<Rightarrow> receipt list \<Rightarrow> drift_record list \<times> u64" where
  "replay_loop ev st n [] = ([], n)"
| "replay_loop ev st n (r # rs) =
     (let (cur, st') = ev st r;
          divergent = (co_verdict cur \<noteq> verdict (body r) \<or> co_reasons cur \<noteq> reasons (body r));
          n' = (if divergent then n + 1 else n);
          d = \<lparr>dr_seq = seq (body r), dr_stored_verdict = verdict (body r),
               dr_current_verdict = co_verdict cur, dr_stored_reasons = reasons (body r),
               dr_current_reasons = co_reasons cur, dr_divergent = divergent\<rparr>;
          (ds, m) = replay_loop ev st' n' rs
      in (d # ds, m))"

definition replay ::
  "('s \<Rightarrow> string \<Rightarrow> receipt_error + chain_status) \<Rightarrow> ('s \<Rightarrow> string \<Rightarrow> receipt_error + receipt list) \<Rightarrow>
   's \<Rightarrow> string \<Rightarrow> ('e \<Rightarrow> receipt \<Rightarrow> current_outcome \<times> 'e) \<Rightarrow> 'e \<Rightarrow> receipt_error + replay_report" where
  "replay vchain get_run s rid ev st =
     rbind (vchain s rid) (\<lambda>status.
     rbind (get_run s rid) (\<lambda>rs.
       if rs = [] then Inl (UnknownRun rid)
       else (let (ds, n) = replay_loop ev st 0 rs in
         Inr \<lparr>rp_run_id = rid, rp_chain_status = status, rp_drift = ds, rp_total_divergences = n\<rparr>)))"

text \<open>
  What a replay owes: the outcomes of the evaluator, threaded through the receipts in order, and for
  each receipt the record that compares its stored verdict and reasons with the outcome for it.
\<close>

fun evaluations :: "('e \<Rightarrow> receipt \<Rightarrow> current_outcome \<times> 'e) \<Rightarrow> 'e \<Rightarrow> receipt list \<Rightarrow> current_outcome list" where
  "evaluations ev st [] = []"
| "evaluations ev st (r # rs) = fst (ev st r) # evaluations ev (snd (ev st r)) rs"

definition drifts :: "receipt \<Rightarrow> current_outcome \<Rightarrow> bool" where
  "drifts r cur \<longleftrightarrow> co_verdict cur \<noteq> verdict (body r) \<or> co_reasons cur \<noteq> reasons (body r)"

definition drift_of :: "receipt \<Rightarrow> current_outcome \<Rightarrow> drift_record" where
  "drift_of r cur =
     \<lparr>dr_seq = seq (body r), dr_stored_verdict = verdict (body r), dr_current_verdict = co_verdict cur,
      dr_stored_reasons = reasons (body r), dr_current_reasons = co_reasons cur, dr_divergent = drifts r cur\<rparr>"

lemma length_evaluations [simp]: "length (evaluations ev st rs) = length rs"
  by (induction rs arbitrary: st) simp_all

lemma replay_loop_exact:
  "replay_loop ev st n rs =
     (map2 drift_of rs (evaluations ev st rs),
      n + of_nat (length (filter (\<lambda>(r, cur). drifts r cur) (zip rs (evaluations ev st rs)))))"
  by (induction rs arbitrary: st n) (simp_all add: Let_def case_prod_beta drift_of_def drifts_def)

end
