(* ===== verification/Receipt_Store.thy ===== *)
theory Receipt_Store
  imports Receipt_Spec "HOL-Library.Multiset" "HOL-Library.List_Lexorder" "HOL-Library.Char_ord"
begin

text \<open>
  The SQLite receipt store (\<open>crates/iaga-sentinel-receipts/src/sqlite.rs\<close>) over its table
  \<open>receipts\<close>, whose primary key is \<open>(run_id, seq)\<close>. Each statement of the source is one
  definition on the list of rows. \<open>append\<close> runs without a transaction, so its read and its
  insert are also steps of a relation in which several writers interleave.
\<close>

section \<open>The table\<close>

record row =
  row_run_id :: string
  row_seq :: int
  row_parent_hash :: "string option"
  row_input_hash :: string
  row_policy_hash :: string
  row_verdict :: string
  row_risk_score :: int
  row_timestamp :: string
  row_signer_key_id :: string
  row_signature :: string
  row_body_json :: bytes

type_synonym table = "row list"

fun verdict_str :: "verdict \<Rightarrow> string" where
  "verdict_str Allow = ''allow''"
| "verdict_str Review = ''review''"
| "verdict_str Block = ''block''"

definition row_of_receipt :: "crypto \<Rightarrow> receipt \<Rightarrow> receipt_error + row" where
  "row_of_receipt c r =
     rbind (signing_bytes c (body r)) (\<lambda>bs.
       Inr \<lparr>row_run_id = run_id (body r), row_seq = sint (seq (body r)),
         row_parent_hash = parent_hash (body r), row_input_hash = input_hash (body r),
         row_policy_hash = policy_hash (body r), row_verdict = verdict_str (verdict (body r)),
         row_risk_score = uint (risk_score (body r)), row_timestamp = timestamp (body r),
         row_signer_key_id = signer_key_id (body r), row_signature = signature r,
         row_body_json = bs\<rparr>)"

definition row_to_receipt :: "crypto \<Rightarrow> row \<Rightarrow> receipt_error + receipt" where
  "row_to_receipt c w =
     rbind (of_option Canonical (Option.bind (from_slice c (row_body_json w)) body_of_json)) (\<lambda>b.
       Inr \<lparr>body = b, signature = row_signature w\<rparr>)"

text \<open>\<open>SELECT ... WHERE run_id = ? ORDER BY seq\<close>, ascending, and its last row.\<close>

definition select_run :: "table \<Rightarrow> string \<Rightarrow> row list" where
  "select_run tbl rid = sort_key row_seq (filter (\<lambda>w. row_run_id w = rid) tbl)"

definition select_head :: "table \<Rightarrow> string \<Rightarrow> row option" where
  "select_head tbl rid = (case rev (select_run tbl rid) of [] \<Rightarrow> None | w # _ \<Rightarrow> Some w)"

definition insert_row :: "table \<Rightarrow> row \<Rightarrow> receipt_error + table" where
  "insert_row tbl w =
     (if \<exists>v \<in> set tbl. row_run_id v = row_run_id w \<and> row_seq v = row_seq w
      then Inl (DuplicateSeq (of_int (row_seq w))) else Inr (tbl @ [w]))"

section \<open>Operations of the store\<close>

definition store_head :: "crypto \<Rightarrow> table \<Rightarrow> string \<Rightarrow> receipt_error + receipt option" where
  "store_head c tbl rid =
     (case select_head tbl rid of
        None \<Rightarrow> Inr None
      | Some w \<Rightarrow> rbind (row_to_receipt c w) (\<lambda>r. Inr (Some r)))"

definition read_row :: "crypto \<Rightarrow> row \<Rightarrow> receipt_error + receipt" where
  "read_row c w =
     rbind (row_to_receipt c w) (\<lambda>r.
       if of_int (row_seq w) \<noteq> seq (body r)
       then Inl (ChainViolation (seq (body r)) (ColumnSeqMismatch (row_seq w) (seq (body r))))
       else Inr r)"

definition store_get_run :: "crypto \<Rightarrow> table \<Rightarrow> string \<Rightarrow> receipt_error + receipt list" where
  "store_get_run c tbl rid = collect_results (read_row c) (select_run tbl rid)"

definition store_verify_chain ::
  "crypto \<Rightarrow> verifying_key \<Rightarrow> table \<Rightarrow> string \<Rightarrow> receipt_error + chain_status" where
  "store_verify_chain c vk tbl rid =
     rbind (store_get_run c tbl rid) (\<lambda>rs.
       if rs = [] then Inl (UnknownRun rid) else verify_chain c rs vk)"

text \<open>The part of \<open>append\<close> before the insert: serialize, read the head, check the link.\<close>

definition append_check :: "crypto \<Rightarrow> table \<Rightarrow> receipt \<Rightarrow> receipt_error + row" where
  "append_check c tbl r =
     rbind (row_of_receipt c r) (\<lambda>w.
     rbind (store_head c tbl (run_id (body r))) (\<lambda>h.
     rbind (check_append_link c h r) (\<lambda>_. Inr w)))"

definition store_append :: "crypto \<Rightarrow> table \<Rightarrow> receipt \<Rightarrow> receipt_error + table" where
  "store_append c tbl r = rbind (append_check c tbl r) (insert_row tbl)"

record run_summary =
  rs_run_id :: string
  rs_receipt_count :: u64
  rs_first_timestamp :: string
  rs_last_timestamp :: string
  rs_terminal_verdict :: verdict

text \<open>One group of \<open>list_runs\<close>; the verdict is read out of the signed body of the last row.\<close>

definition summarize_run :: "crypto \<Rightarrow> table \<Rightarrow> string \<Rightarrow> receipt_error + run_summary" where
  "summarize_run c tbl rid =
     (let ws = select_run tbl rid; ts = map row_timestamp ws in
      case select_head tbl rid of
        None \<Rightarrow> Inl (Storage ''no row'')
      | Some w \<Rightarrow>
          rbind (of_option (Storage ''invalid receipt body'')
                  (Option.bind (from_slice c (row_body_json w)) body_of_json)) (\<lambda>b.
            Inr \<lparr>rs_run_id = rid, rs_receipt_count = of_nat (length ws),
              rs_first_timestamp = Min (set ts), rs_last_timestamp = Max (set ts),
              rs_terminal_verdict = verdict b\<rparr>))"

definition last_ts :: "table \<Rightarrow> string \<Rightarrow> string" where
  "last_ts tbl rid = Max (set (map row_timestamp (select_run tbl rid)))"

definition list_runs :: "crypto \<Rightarrow> table \<Rightarrow> nat \<Rightarrow> receipt_error + run_summary list" where
  "list_runs c tbl limit =
     (let ids = sort (remdups (map row_run_id tbl));
          ordered = rev (sort_key (last_ts tbl) (rev ids))
      in collect_results (summarize_run c tbl) (take limit ordered))"

section \<open>Well-formed tables\<close>

text \<open>A row is linked into a table when it decodes and binds the row before it, which is there.\<close>

definition row_linked :: "crypto \<Rightarrow> table \<Rightarrow> row \<Rightarrow> bool" where
  "row_linked c tbl w \<longleftrightarrow> 0 \<le> row_seq w \<and> row_seq w < 2 ^ 63 \<and>
     (\<exists>r. row_to_receipt c w = Inr r \<and> run_id (body r) = row_run_id w \<and>
          seq (body r) = of_int (row_seq w) \<and> is_ok (signing_bytes c (body r)) \<and>
          (row_seq w = 0 \<longrightarrow> parent_hash (body r) = None) \<and>
          (row_seq w \<noteq> 0 \<longrightarrow>
             (\<exists>v \<in> set tbl. row_run_id v = row_run_id w \<and> row_seq v = row_seq w - 1 \<and>
               (\<exists>p. row_to_receipt c v = Inr p \<and> parent_hash (body r) = link_digest c p))))"

definition keys_unique :: "table \<Rightarrow> bool" where
  "keys_unique tbl \<longleftrightarrow> distinct (map (\<lambda>w. (row_run_id w, row_seq w)) tbl)"

definition table_inv :: "crypto \<Rightarrow> table \<Rightarrow> bool" where
  "table_inv c tbl \<longleftrightarrow> keys_unique tbl \<and> (\<forall>w \<in> set tbl. row_linked c tbl w)"

lemma row_linkedI:
  assumes "row_to_receipt c w = Inr r" "run_id (body r) = row_run_id w"
    and "seq (body r) = of_int (row_seq w)" "0 \<le> row_seq w" "row_seq w < 2 ^ 63"
    and "is_ok (signing_bytes c (body r))" "row_seq w = 0 \<Longrightarrow> parent_hash (body r) = None"
    and "row_seq w \<noteq> 0 \<Longrightarrow> \<exists>v \<in> set tbl. row_run_id v = row_run_id w \<and> row_seq v = row_seq w - 1 \<and>
             (\<exists>p. row_to_receipt c v = Inr p \<and> parent_hash (body r) = link_digest c p)"
  shows "row_linked c tbl w"
  unfolding row_linked_def
  by (intro conjI exI [of _ r] impI assms)

lemma row_linked_mono: "row_linked c tbl w \<Longrightarrow> set tbl \<subseteq> set tbl' \<Longrightarrow> row_linked c tbl' w"
  unfolding row_linked_def by fastforce

lemma table_inv_empty: "table_inv c []"
  by (simp add: table_inv_def keys_unique_def)

lemma insert_row_Inr:
  "insert_row tbl w = Inr tbl' \<longleftrightarrow>
     tbl' = tbl @ [w] \<and> (\<forall>v \<in> set tbl. (row_run_id v, row_seq v) \<noteq> (row_run_id w, row_seq w))"
  by (auto simp: insert_row_def split: if_splits)

lemma insert_row_inv:
  assumes "table_inv c tbl" "row_linked c tbl w" "insert_row tbl w = Inr tbl'"
  shows "table_inv c tbl'"
proof -
  from assms(3) have tbl': "tbl' = tbl @ [w]" and new: "\<forall>v \<in> set tbl. (row_run_id v, row_seq v) \<noteq> (row_run_id w, row_seq w)"
    by (auto simp: insert_row_Inr)
  have "row_linked c tbl' v" if "v \<in> set tbl'" for v
    using that assms(1,2) tbl' row_linked_mono [of c tbl v tbl'] by (auto simp: table_inv_def)
  moreover have "keys_unique tbl'"
    using assms(1) new tbl' by (force simp: table_inv_def keys_unique_def)
  ultimately show ?thesis by (simp add: table_inv_def)
qed

subsection \<open>Reading back a stored receipt\<close>

lemma row_of_receipt_fields:
  "row_of_receipt c r = Inr w \<Longrightarrow>
   row_run_id w = run_id (body r) \<and> row_seq w = sint (seq (body r)) \<and> row_signature w = signature r"
  by (auto simp: row_of_receipt_def)

lemma row_round_trip:
  assumes "body_reads_back c (body r)" "row_of_receipt c r = Inr w"
  shows "row_to_receipt c w = Inr r"
proof -
  from assms(2) obtain bs where bs: "to_vec c (body_json (body r)) = Some bs"
    and w: "row_body_json w = bs" "row_signature w = signature r"
    by (auto simp: row_of_receipt_def signing_bytes_def)
  have "Option.bind (from_slice c (row_body_json w)) body_of_json = Some (body r)"
    using json_stableD [OF _ bs] w(1) de_body_fields assms(1)
    by (simp add: body_of_json_def body_json_def body_reads_back_def)
  then show ?thesis using w(2) by (simp add: row_to_receipt_def)
qed

lemma row_to_receipt_body:
  "row_to_receipt c w = Inr r \<Longrightarrow> Option.bind (from_slice c (row_body_json w)) body_of_json = Some (body r)"
  by (cases r) (auto simp: row_to_receipt_def)

lemma sint_small_u64:
  assumes "unat (w :: u64) < 2 ^ 63"
  shows "sint w = int (unat w)" and "sint w < 2 ^ 63"
proof -
  have "int (unat w) < int (2 ^ 63)" using assms by (rule of_nat_less_iff [THEN iffD2])
  then have bound: "uint w < 2 ^ 63" by (simp only: uint_nat of_nat_power of_nat_numeral)
  then have "signed_take_bit 63 (uint w) = uint w"
    by (intro signed_take_bit_int_eq_self order_trans [OF _ unsigned_greater_eq]) simp_all
  then show "sint w = int (unat w)" by (simp only: sint_uint uint_nat) simp
  then show "sint w < 2 ^ 63" using bound by (simp only: uint_nat)
qed

lemma u64_succ:
  assumes "0 \<le> k" "k < 2 ^ 63" "(of_int k + 1 :: u64) = w" "unat w < 2 ^ 63"
  shows "sint w = k + 1"
proof -
  have "w = of_int (k + 1)" using assms(3) by simp
  then have "uint w = (k + 1) mod 2 ^ 64" by (simp only: uint_word_of_int) (simp add: take_bit_eq_mod)
  also have "\<dots> = k + 1" using assms(1,2) by (intro mod_pos_pos_trivial) auto
  finally show ?thesis using sint_small_u64(1) [OF assms(4)] by (simp only: uint_nat)
qed

subsection \<open>The head is the last row of its run\<close>

lemma select_run_set: "set (select_run tbl rid) = {w \<in> set tbl. row_run_id w = rid}"
  by (simp add: select_run_def)

lemma select_head_Some:
  "select_head tbl rid = Some w \<Longrightarrow> select_run tbl rid \<noteq> [] \<and> w = last (select_run tbl rid)"
  by (auto simp: select_head_def split: list.splits simp flip: hd_rev)

lemma select_head_last: "select_head tbl rid = last_receipt (select_run tbl rid)"
  by (auto simp: select_head_def last_receipt_def rev_is_Nil_conv simp flip: hd_rev split: list.splits)

lemma select_head_None: "select_head tbl rid = None \<longleftrightarrow> select_run tbl rid = []"
  by (simp add: select_head_last last_receipt_def)

lemma append_check_linked:
  assumes "table_inv c tbl" "storable c r" "append_check c tbl r = Inr w"
  shows "row_linked c tbl w"
proof -
  from assms(3) obtain h where w: "row_of_receipt c r = Inr w"
    and h: "store_head c tbl (run_id (body r)) = Inr h"
    and link: "check_append_link c h r = Inr ()"
    by (auto simp: append_check_def)
  from link obtain p where p: "next_parent_hash c h = Inr p" "seq (body r) = next_seq h"
    "parent_hash (body r) = p" by (auto simp: check_append_link_iff)
  note fields = row_of_receipt_fields [OF w]
  have stored: "row_to_receipt c w = Inr r"
    using row_round_trip [OF _ w] assms(2) by (simp add: storable_def)
  have seq: "row_seq w = int (unat (seq (body r)))" "row_seq w < 2 ^ 63"
    using assms(2) fields sint_small_u64 [of "seq (body r)"] by (simp_all add: storable_def)
  have seq_word: "seq (body r) = of_int (row_seq w)" using seq(1) by simp
  have nonneg: "0 \<le> row_seq w" using seq(1) by simp
  have signable: "is_ok (signing_bytes c (body r))" using w by (auto simp: row_of_receipt_def)
  show ?thesis
  proof (cases "select_head tbl (run_id (body r))")
    case None
    then have "h = None" using h by (simp add: store_head_def)
    then have "row_seq w = 0" "parent_hash (body r) = None"
      using p seq(1) by (simp_all add: next_seq_def next_parent_hash_def)
    then show ?thesis
      by (intro row_linkedI [OF stored _ seq_word nonneg seq(2) signable]) (simp_all add: fields)
  next
    case (Some v)
    then have v: "v \<in> set tbl" "row_run_id v = run_id (body r)"
      using select_head_Some [of tbl "run_id (body r)" v] select_run_set [of tbl "run_id (body r)"]
        last_in_set [of "select_run tbl (run_id (body r))"] by auto
    then have "row_linked c tbl v" using assms(1) by (simp add: table_inv_def)
    then obtain q where q: "row_to_receipt c v = Inr q" "seq (body q) = of_int (row_seq v)"
      "0 \<le> row_seq v" "row_seq v < 2 ^ 63" by (auto simp: row_linked_def)
    have hq: "h = Some q" using h Some q(1) by (simp add: store_head_def)
    have succ: "row_seq w = row_seq v + 1"
      using u64_succ [OF q(3,4), of "seq (body r)"] p(2) q(2) hq assms(2) fields
      by (simp add: next_seq_def storable_def)
    moreover have "parent_hash (body r) = link_digest c q"
      using next_parent_hash_link [OF p(1)] p(3) hq by simp
    ultimately have "\<exists>v \<in> set tbl. row_run_id v = row_run_id w \<and> row_seq v = row_seq w - 1 \<and>
        (\<exists>p. row_to_receipt c v = Inr p \<and> parent_hash (body r) = link_digest c p)" "row_seq w \<noteq> 0"
      using v q(1,3) fields by (force, linarith)
    then show ?thesis
      by (intro row_linkedI [OF stored _ seq_word nonneg seq(2) signable]) (simp_all add: fields)
  qed
qed

lemma store_append_inv:
  assumes "table_inv c tbl" "storable c r" "store_append c tbl r = Inr tbl'"
  shows "table_inv c tbl'"
  using assms append_check_linked insert_row_inv by (fastforce simp: store_append_def)

subsection \<open>Rows of a run are numbered without gaps\<close>

lemma downward_closed_upto:
  fixes xs :: "int list"
  assumes "sorted xs" "distinct xs" "\<forall>x \<in> set xs. 0 \<le> x \<and> (x = 0 \<or> x - 1 \<in> set xs)"
  shows "\<exists>n. xs = map int [0..<n]"
  using assms
proof (induction xs rule: rev_induct)
  case Nil
  have "[] = map int [0..<0]" by simp
  then show ?case by blast
next
  case (snoc x xs)
  have less: "y < x" if "y \<in> set xs" for y
    using snoc.prems(1,2) that
    by (metis append_is_Nil_conv distinct_append less_le list.set_intros(1) disjoint_iff sorted_append)
  have closed: "\<forall>y \<in> set xs. 0 \<le> y \<and> (y = 0 \<or> y - 1 \<in> set xs)"
    using snoc.prems(3) less by force
  then obtain n where xs: "xs = map int [0..<n]"
    using snoc.IH snoc.prems(1,2) by (auto simp: sorted_append)
  then have members: "set xs = {0..<int n}" by (simp add: image_int_atLeastLessThan)
  have "x = int n"
  proof (cases "x = 0")
    case True
    then have "\<forall>y \<in> set xs. False" using less closed by (meson not_le)
    then have "set xs = {}" by auto
    then show ?thesis using True members by simp
  next
    case False
    then have "x - 1 \<in> {0..<int n}" using snoc.prems(3) members by auto
    moreover have "x \<notin> {0..<int n}" using less members by blast
    ultimately show ?thesis by auto
  qed
  then have "xs @ [x] = map int [0..<Suc n]" using xs by simp
  then show ?case by blast
qed

lemma select_run_seqs:
  assumes "table_inv c tbl"
  shows "map row_seq (select_run tbl rid) = map int [0..<length (select_run tbl rid)]"
proof -
  let ?ws = "select_run tbl rid"
  have "distinct (map row_seq (filter (\<lambda>w. row_run_id w = rid) tbl))"
    using assms by (auto simp: table_inv_def keys_unique_def distinct_map inj_on_def)
  then have "distinct (map row_seq ?ws)"
    by (simp add: select_run_def distinct_map)
  moreover have "sorted (map row_seq ?ws)" by (simp add: select_run_def)
  moreover have "\<forall>x \<in> set (map row_seq ?ws). 0 \<le> x \<and> (x = 0 \<or> x - 1 \<in> set (map row_seq ?ws))"
  proof
    fix x
    assume "x \<in> set (map row_seq ?ws)"
    then obtain w where w: "w \<in> set tbl" "row_run_id w = rid" "x = row_seq w"
      by (auto simp: select_run_set)
    then have "row_linked c tbl w" using assms by (simp add: table_inv_def)
    then show "0 \<le> x \<and> (x = 0 \<or> x - 1 \<in> set (map row_seq ?ws))"
      using w(2,3) by (force simp: row_linked_def select_run_set image_iff)
  qed
  ultimately obtain n where n: "map row_seq ?ws = map int [0..<n]"
    using downward_closed_upto [of "map row_seq ?ws"] by blast
  then have "length ?ws = n" by (metis length_map length_upt minus_nat.diff_0)
  with n show ?thesis by simp
qed

lemma select_run_nth_seq:
  "table_inv c tbl \<Longrightarrow> i < length (select_run tbl rid) \<Longrightarrow> row_seq (select_run tbl rid ! i) = int i"
  using arg_cong [OF select_run_seqs, of c tbl "\<lambda>xs. xs ! i" rid] by simp

lemma select_run_length:
  assumes "table_inv c tbl"
  shows "length (select_run tbl rid) \<le> 2 ^ 63"
proof (cases "length (select_run tbl rid)")
  case (Suc n)
  then have n: "n < length (select_run tbl rid)" by simp
  then have "select_run tbl rid ! n \<in> set tbl" using nth_mem select_run_set by blast
  then have "row_seq (select_run tbl rid ! n) < 2 ^ 63" using assms by (simp add: table_inv_def row_linked_def)
  then show ?thesis using select_run_nth_seq [OF assms n] Suc by simp
qed simp

lemma keys_unique_eq:
  "keys_unique tbl \<Longrightarrow> v \<in> set tbl \<Longrightarrow> w \<in> set tbl \<Longrightarrow> row_run_id v = row_run_id w \<Longrightarrow>
   row_seq v = row_seq w \<Longrightarrow> v = w"
  by (auto simp: keys_unique_def distinct_map inj_on_def)

subsection \<open>A well-formed table reads back as linked runs\<close>

lemma linked_read:
  assumes "table_inv c tbl" "i < length (select_run tbl rid)"
  shows "\<exists>r. row_to_receipt c (select_run tbl rid ! i) = Inr r \<and> read_row c (select_run tbl rid ! i) = Inr r \<and>
    run_id (body r) = rid \<and> seq (body r) = of_nat i \<and> (i = 0 \<longrightarrow> parent_hash (body r) = None) \<and>
    (i \<noteq> 0 \<longrightarrow> (\<exists>p. row_to_receipt c (select_run tbl rid ! (i - 1)) = Inr p \<and> parent_hash (body r) = link_digest c p))"
proof -
  let ?w = "select_run tbl rid ! i" and ?u = "select_run tbl rid ! (i - 1)"
  have w: "?w \<in> set tbl" "row_run_id ?w = rid"
    using nth_mem [OF assms(2)] by (auto simp: select_run_set)
  have sw: "row_seq ?w = int i" using assms by (rule select_run_nth_seq)
  from w assms(1) have "row_linked c tbl ?w" by (simp add: table_inv_def)
  then obtain r where r: "row_to_receipt c ?w = Inr r" "run_id (body r) = rid"
      "seq (body r) = of_int (int i)" "int i = 0 \<longrightarrow> parent_hash (body r) = None"
    and link: "int i \<noteq> 0 \<longrightarrow> (\<exists>v \<in> set tbl. row_run_id v = rid \<and> row_seq v = int i - 1 \<and>
             (\<exists>p. row_to_receipt c v = Inr p \<and> parent_hash (body r) = link_digest c p))"
    unfolding row_linked_def w(2) sw by blast
  have "\<exists>p. row_to_receipt c ?u = Inr p \<and> parent_hash (body r) = link_digest c p" if "i \<noteq> 0"
  proof -
    from link that obtain v p where v: "v \<in> set tbl" "row_run_id v = rid" "row_seq v = int i - 1"
      "row_to_receipt c v = Inr p" "parent_hash (body r) = link_digest c p" by auto
    have lt: "i - 1 < length (select_run tbl rid)" using assms(2) by simp
    have "?u \<in> set tbl" "row_run_id ?u = rid" using nth_mem [OF lt] by (auto simp: select_run_set)
    moreover have "row_seq ?u = int i - 1" using select_run_nth_seq [OF assms(1) lt] that by simp
    ultimately have "?u = v"
      using keys_unique_eq [of tbl ?u v] assms(1) v(1-3) by (simp add: table_inv_def)
    with v(4,5) show ?thesis by blast
  qed
  moreover have "read_row c ?w = Inr r" using r(1,3) sw by (simp add: read_row_def)
  ultimately show ?thesis using r by (intro exI [of _ r] conjI) simp_all
qed

lemma get_run_rows:
  assumes "table_inv c tbl"
  shows "\<exists>rs. store_get_run c tbl rid = Inr rs \<and> links_ok c rid rs \<and>
     length rs = length (select_run tbl rid) \<and>
     (\<forall>i < length rs. row_to_receipt c (select_run tbl rid ! i) = Inr (rs ! i))"
proof -
  let ?ws = "select_run tbl rid"
  let ?rs = "map (\<lambda>w. projr (row_to_receipt c w)) ?ws"
  have rd: "read_row c (?ws ! i) = Inr (?rs ! i) \<and> row_to_receipt c (?ws ! i) = Inr (?rs ! i)"
    if "i < length ?ws" for i
    using linked_read [OF assms that] that by auto
  then have "store_get_run c tbl rid = Inr ?rs"
    by (simp add: store_get_run_def collect_results_Inr)
  moreover have "links_ok c rid ?rs"
    unfolding links_ok_def
  proof (intro allI impI)
    fix k
    assume "k < length ?rs"
    then have k: "k < length ?ws" by simp
    show "run_id (body (?rs ! k)) = rid \<and> seq (body (?rs ! k)) = of_nat k \<and>
       parent_hash (body (?rs ! k)) = (if k = 0 then None else link_digest c (?rs ! (k - 1)))"
      using linked_read [OF assms k] k by (cases k) auto
  qed
  ultimately show ?thesis using rd by (intro exI [of _ ?rs]) simp
qed

subsection \<open>What an insert does to the runs\<close>

lemma select_run_insert_other:
  "row_run_id w \<noteq> rid \<Longrightarrow> select_run (tbl @ [w]) rid = select_run tbl rid"
  by (simp add: select_run_def)

lemma sort_key_snoc:
  assumes "\<forall>x \<in> set xs. f x < f w"
  shows "sort_key f (xs @ [w]) = sort_key f xs @ [w]"
proof (rule properties_for_sort_key)
  show "mset (sort_key f xs @ [w]) = mset (xs @ [w])" by simp
  show "sorted (map f (sort_key f xs @ [w]))"
    using assms by (auto simp: sorted_append less_imp_le)
  show "filter (\<lambda>x. f k = f x) (sort_key f xs @ [w]) = filter (\<lambda>x. f k = f x) (xs @ [w])" for k
    using sort_key_stable [of f "f k" xs] by (simp add: eq_commute)
qed

text \<open>A linked row that the primary key accepts is the next one of its run.\<close>

lemma linked_insert_seq:
  assumes "table_inv c tbl" "row_linked c tbl w" "insert_row tbl w = Inr tbl'"
  shows "row_seq w = int (length (select_run tbl (row_run_id w)))"
proof -
  let ?ws = "select_run tbl (row_run_id w)"
  have seqs: "row_seq ` set ?ws = {0..<int (length ?ws)}"
    using arg_cong [OF select_run_seqs [OF assms(1)], of set "row_run_id w"]
    by (simp add: image_int_atLeastLessThan)
  have "row_seq w \<notin> row_seq ` set ?ws"
    using assms(3) by (auto simp: insert_row_Inr select_run_set)
  moreover have "row_seq w = 0 \<or> row_seq w - 1 \<in> row_seq ` set ?ws"
    using assms(2) by (force simp: row_linked_def select_run_set image_iff)
  moreover have "0 \<le> row_seq w" using assms(2) by (simp add: row_linked_def)
  ultimately show ?thesis using seqs by auto
qed

lemma select_run_insert_own:
  assumes "table_inv c tbl" "row_linked c tbl w" "insert_row tbl w = Inr tbl'"
  shows "select_run tbl' (row_run_id w) = select_run tbl (row_run_id w) @ [w]"
proof -
  let ?ws = "select_run tbl (row_run_id w)"
  have "row_seq ` set ?ws = {0..<int (length ?ws)}"
    using arg_cong [OF select_run_seqs [OF assms(1)], of set "row_run_id w"]
    by (simp add: image_int_atLeastLessThan)
  then have "\<forall>x \<in> set (filter (\<lambda>v. row_run_id v = row_run_id w) tbl). row_seq x < row_seq w"
    using linked_insert_seq [OF assms] by (auto simp: select_run_set)
  then show ?thesis
    using assms(3) sort_key_snoc [of "filter (\<lambda>v. row_run_id v = row_run_id w) tbl" row_seq w]
    by (simp add: insert_row_Inr select_run_def)
qed

lemma get_run_snoc:
  "select_run tbl' rid = select_run tbl rid @ [w] \<Longrightarrow> store_get_run c tbl rid = Inr rs \<Longrightarrow>
   read_row c w = Inr r \<Longrightarrow> store_get_run c tbl' rid = Inr (rs @ [r])"
  by (auto simp: store_get_run_def collect_results_Inr nth_append less_Suc_eq)

section \<open>The SQLite store keeps the contract\<close>

lemma store_head_last:
  assumes "table_inv c tbl" "store_get_run c tbl rid = Inr rs"
  shows "store_head c tbl rid = Inr (last_receipt rs)"
proof -
  from get_run_rows [OF assms(1), of rid] assms(2)
  have rows: "length rs = length (select_run tbl rid)"
    "\<forall>i < length rs. row_to_receipt c (select_run tbl rid ! i) = Inr (rs ! i)" by auto
  show ?thesis
  proof (cases "select_run tbl rid = []")
    case True
    then show ?thesis using rows(1) by (simp add: store_head_def select_head_last last_receipt_def)
  next
    case False
    then have ne: "rs \<noteq> []" using rows(1) by auto
    then have "row_to_receipt c (last (select_run tbl rid)) = Inr (last rs)"
      using False rows by (simp add: last_conv_nth)
    with False ne show ?thesis by (simp add: store_head_def select_head_last last_receipt_def)
  qed
qed

lemma storable_read_row:
  assumes "storable c r" "row_of_receipt c r = Inr w"
  shows "read_row c w = Inr r"
  using row_round_trip [OF _ assms(2)] row_of_receipt_fields [OF assms(2)] assms(1)
  by (simp add: read_row_def storable_def)

lemma store_append_cases:
  assumes "table_inv c tbl" "storable c r" "store_append c tbl r = Inr tbl'"
  obtains w where "row_linked c tbl w" "insert_row tbl w = Inr tbl'" "row_run_id w = run_id (body r)"
    "read_row c w = Inr r"
proof -
  from assms(3) obtain w where w: "append_check c tbl r = Inr w" "insert_row tbl w = Inr tbl'"
    by (auto simp: store_append_def)
  from w(1) have row: "row_of_receipt c r = Inr w" by (auto simp: append_check_def)
  show thesis
    using that [of w] append_check_linked [OF assms(1-2) w(1)] w(2) row_of_receipt_fields [OF row]
      storable_read_row [OF assms(2) row] by blast
qed

lemma store_append_extends:
  assumes "table_inv c tbl" "storable c r" "store_append c tbl r = Inr tbl'"
    and "store_get_run c tbl (run_id (body r)) = Inr rs"
  shows "store_get_run c tbl' (run_id (body r)) = Inr (rs @ [r])"
  using store_append_cases [OF assms(1-3)] select_run_insert_own [OF assms(1)] get_run_snoc assms(4)
  by (smt (verit))

lemma store_append_frame:
  assumes "table_inv c tbl" "storable c r" "store_append c tbl r = Inr tbl'"
    and "rid \<noteq> run_id (body r)"
  shows "store_get_run c tbl' rid = store_get_run c tbl rid"
proof -
  obtain w where "insert_row tbl w = Inr tbl'" "row_run_id w = run_id (body r)"
    by (rule store_append_cases [OF assms(1-3)])
  then show ?thesis
    using assms(4) select_run_insert_other [of w rid tbl] by (simp add: insert_row_Inr store_get_run_def)
qed

text \<open>A receipt that links the head is never rejected by the primary key.\<close>

lemma store_append_accepts:
  assumes "table_inv c tbl" "storable c r" "store_head c tbl (run_id (body r)) = Inr h"
    and "check_append_link c h r = Inr ()" "signing_bytes c (body r) = Inr m"
  shows "\<exists>tbl'. store_append c tbl r = Inr tbl'"
proof -
  let ?rid = "run_id (body r)"
  from get_run_rows [OF assms(1), of ?rid] obtain rs where rs: "store_get_run c tbl ?rid = Inr rs"
    "links_ok c ?rid rs" "length rs = length (select_run tbl ?rid)" by blast
  from store_head_last [OF assms(1) rs(1)] assms(3) have h: "h = last_receipt rs" by simp
  obtain w where w: "row_of_receipt c r = Inr w" using assms(5) by (auto simp: row_of_receipt_def)
  note fields = row_of_receipt_fields [OF w]
  have small: "row_seq v < int (length rs)" if "v \<in> set tbl" "row_run_id v = ?rid" for v
  proof -
    from that have "v \<in> set (select_run tbl ?rid)" by (simp add: select_run_set)
    then have "row_seq v \<in> set (map row_seq (select_run tbl ?rid))" by simp
    then show ?thesis unfolding select_run_seqs [OF assms(1)] by (auto simp: rs(3))
  qed
  have "length rs \<le> 2 ^ 63" unfolding rs(3) by (rule select_run_length [OF assms(1)])
  moreover have "seq (body r) = of_nat (length rs)"
    using assms(4) links_ok_next_seq [OF rs(2)] h by (auto simp: check_append_link_iff)
  ultimately have len: "unat (seq (body r)) = length rs"
    by (simp add: unat_of_nat take_bit_eq_mod)
  have "row_seq w = int (unat (seq (body r)))"
    using fields assms(2) sint_small_u64(1) [of "seq (body r)"] unfolding storable_def by metis
  then have "row_seq w = int (length rs)" by (simp only: len)
  then have "\<forall>v \<in> set tbl. (row_run_id v, row_seq v) \<noteq> (row_run_id w, row_seq w)"
    using small fields by fastforce
  then have "insert_row tbl w = Inr (tbl @ [w])" by (simp add: insert_row_Inr)
  then show ?thesis using w assms(3,4) by (auto simp: store_append_def append_check_def)
qed

text \<open>A receipt that does not link the head is refused as a lost race, with no other error.\<close>

lemma store_head_signable:
  assumes "table_inv c tbl" "store_head c tbl rid = Inr h"
  shows "\<exists>l. chain_link c h = Inr l"
proof (cases "select_head tbl rid")
  case None
  then show ?thesis using assms(2) by (auto simp: store_head_def chain_link_def next_parent_hash_def)
next
  case (Some v)
  then have "v \<in> set tbl"
    using select_head_Some [of tbl rid v] select_run_set [of tbl rid] last_in_set [of "select_run tbl rid"] by auto
  then obtain q where q: "row_to_receipt c v = Inr q" "is_ok (signing_bytes c (body q))"
    using assms(1) unfolding table_inv_def row_linked_def by blast
  then show ?thesis using assms(2) Some
    by (cases "signing_bytes c (body q)")
       (auto simp: store_head_def chain_link_def next_parent_hash_def body_hash_def)
qed

lemma store_append_race:
  assumes "table_inv c tbl" "signing_bytes c (body r) = Inr m" "store_append c tbl r = Inl e"
  shows "(\<exists>q. e = DuplicateSeq q) \<or> (\<exists>q v. e = ChainViolation q v)"
proof -
  let ?rid = "run_id (body r)"
  obtain w where w: "row_of_receipt c r = Inr w" using assms(2) by (auto simp: row_of_receipt_def)
  obtain rs where "store_get_run c tbl ?rid = Inr rs" using get_run_rows [OF assms(1)] by blast
  then have h: "store_head c tbl ?rid = Inr (last_receipt rs)" by (rule store_head_last [OF assms(1)])
  from store_head_signable [OF assms(1) h] obtain p where p: "next_parent_hash c (last_receipt rs) = Inr p"
    by (auto simp: chain_link_def)
  show ?thesis
    using assms(3) w h p
    by (auto simp: store_append_def append_check_def check_append_link_def insert_row_def split: if_splits)
qed

text \<open>On well-formed tables the SQLite operations keep the contract of \<open>ReceiptStore\<close>.\<close>

interpretation sqlite: receipt_store c "store_head c" "store_get_run c" "store_append c" "table_inv c" for c
proof (unfold_locales, goal_cases)
  case (1 s rid)
  then show ?case using get_run_rows by blast
next
  case (2 s rid rs)
  then show ?case using store_head_last by blast
next
  case (3 s r s')
  then show ?case using store_append_inv by blast
next
  case (4 s r s' rs)
  then show ?case using store_append_extends by blast
next
  case (5 s r s' rid)
  then show ?case using store_append_frame by blast
next
  case (6 s r h m)
  then show ?case using store_append_accepts by blast
next
  case (7 s rid h)
  then show ?case using store_head_signable by blast
next
  case (8 s r m e)
  then show ?case using store_append_race by blast
qed

section \<open>Interleaved writers\<close>

text \<open>
  The state while several writers append: the table and the rows that have passed the link
  check and wait for their insert. Writers offer receipts satisfying \<open>offered\<close>.
\<close>

record store_state =
  st_table :: table
  st_pending :: "row list"

inductive store_step :: "crypto \<Rightarrow> (receipt \<Rightarrow> bool) \<Rightarrow> store_state \<Rightarrow> store_state \<Rightarrow> bool"
  for c :: crypto and offered :: "receipt \<Rightarrow> bool" where
  check: "offered r \<Longrightarrow> append_check c (st_table s) r = Inr w \<Longrightarrow>
    store_step c offered s (s\<lparr>st_pending := w # st_pending s\<rparr>)"
| reject: "offered r \<Longrightarrow> append_check c (st_table s) r = Inl e \<Longrightarrow> store_step c offered s s"
| commit: "w \<in> set (st_pending s) \<Longrightarrow> insert_row (st_table s) w = Inr t \<Longrightarrow>
    store_step c offered s (s\<lparr>st_table := t, st_pending := remove1 w (st_pending s)\<rparr>)"
| lose: "w \<in> set (st_pending s) \<Longrightarrow> insert_row (st_table s) w = Inl e \<Longrightarrow>
    store_step c offered s (s\<lparr>st_pending := remove1 w (st_pending s)\<rparr>)"

inductive store_reachable :: "crypto \<Rightarrow> (receipt \<Rightarrow> bool) \<Rightarrow> store_state \<Rightarrow> bool"
  for c :: crypto and offered :: "receipt \<Rightarrow> bool" where
  init: "store_reachable c offered \<lparr>st_table = [], st_pending = []\<rparr>"
| step: "store_reachable c offered s \<Longrightarrow> store_step c offered s t \<Longrightarrow> store_reachable c offered t"

text \<open>
  The invariant: the table is well formed, every pending row is linked into it, and every row
  decodes to a receipt that a writer offered.
\<close>

definition offered_row :: "crypto \<Rightarrow> (receipt \<Rightarrow> bool) \<Rightarrow> row \<Rightarrow> bool" where
  "offered_row c offered w \<longleftrightarrow> (\<exists>r. row_to_receipt c w = Inr r \<and> offered r)"

definition store_state_inv :: "crypto \<Rightarrow> (receipt \<Rightarrow> bool) \<Rightarrow> store_state \<Rightarrow> bool" where
  "store_state_inv c offered s \<longleftrightarrow> table_inv c (st_table s) \<and>
     (\<forall>w \<in> set (st_pending s). row_linked c (st_table s) w) \<and>
     (\<forall>w \<in> set (st_table s) \<union> set (st_pending s). offered_row c offered w)"

lemma store_step_inv:
  assumes "\<And>r. offered r \<Longrightarrow> storable c r"
    and "store_step c offered s t" "store_state_inv c offered s"
  shows "store_state_inv c offered t"
  using assms(2)
proof (cases rule: store_step.cases)
  case (check r w)
  from check have row: "row_of_receipt c r = Inr w" by (auto simp: append_check_def)
  have "row_to_receipt c w = Inr r"
    using row_round_trip [OF _ row] assms(1) [OF check(2)] by (simp add: storable_def)
  moreover have "row_linked c (st_table s) w"
    using append_check_linked [OF _ _ check(3)] assms(1) [OF check(2)] assms(3)
    by (simp add: store_state_inv_def)
  ultimately show ?thesis using check assms(3) by (auto simp: store_state_inv_def offered_row_def)
next
  case (commit w tb)
  from commit(3) have tb: "tb = st_table s @ [w]" by (simp add: insert_row_Inr)
  have "table_inv c tb" using insert_row_inv commit assms(3) by (auto simp: store_state_inv_def)
  moreover have "row_linked c tb v" if "v \<in> set (st_pending s)" for v
    using that assms(3) row_linked_mono [of c "st_table s" v tb] tb by (auto simp: store_state_inv_def)
  ultimately show ?thesis
    using commit tb assms(3) set_remove1_subset [of w "st_pending s"]
    by (auto simp: store_state_inv_def dest: notin_set_remove1 [THEN contrapos_nn] subsetD)
next
  case (lose w e)
  then show ?thesis
    using assms(3) set_remove1_subset [of w "st_pending s"] by (auto simp: store_state_inv_def)
qed (use assms(3) in simp)

lemma store_reachable_inv:
  assumes "\<And>r. offered r \<Longrightarrow> storable c r" "store_reachable c offered s"
  shows "store_state_inv c offered s"
  using assms(2)
proof (induction rule: store_reachable.induct)
  case init
  then show ?case by (simp add: store_state_inv_def table_inv_empty)
next
  case (step s t)
  then show ?case using store_step_inv [OF assms(1)] by blast
qed

lemma table_rows_verify:
  assumes "table_inv c tbl" "\<And>w. w \<in> set tbl \<Longrightarrow> offered_row c offered w"
    and "\<And>r. offered r \<Longrightarrow> verify_receipt c r vk = Inr ()" "select_run tbl rid \<noteq> []"
  shows "store_verify_chain c vk tbl rid = Inr (Valid (of_nat (length (select_run tbl rid))))"
proof -
  from get_run_rows [OF assms(1), of rid] obtain rs where rs: "store_get_run c tbl rid = Inr rs"
    "links_ok c rid rs" "length rs = length (select_run tbl rid)"
    "\<forall>i < length rs. row_to_receipt c (select_run tbl rid ! i) = Inr (rs ! i)" by blast
  have "verify_receipt c r vk = Inr ()" if r: "r \<in> set rs" for r
  proof -
    from r obtain i where i: "i < length rs" "r = rs ! i" by (auto simp: in_set_conv_nth)
    with rs(3) have "select_run tbl rid ! i \<in> set tbl" using nth_mem select_run_set by (metis (mono_tags, lifting) mem_Collect_eq)
    from assms(2) [OF this] have "offered r" using rs(4) i by (auto simp: offered_row_def)
    then show ?thesis by (rule assms(3))
  qed
  then have "intact c vk rid rs" using links_ok_intact [OF rs(2)] by blast
  moreover have ne: "rs \<noteq> []" using rs(3) assms(4) by auto
  moreover have "run_id (body (hd rs)) = rid" using rs(2) ne by (simp add: links_ok_def hd_conv_nth)
  ultimately have "verify_chain c rs vk = Inr (Valid (of_nat (length rs)))" by (simp add: verify_chain_cases)
  with ne rs(1,3) show ?thesis by (simp add: store_verify_chain_def)
qed

end
