(* ===== verification/Receipt_Properties.thy ===== *)
theory Receipt_Properties
  imports Receipt_Export Receipt_Store "HOL-Library.Countable"
begin

text \<open>
  The properties of the receipt log: what chain verification decides, that tampering is
  evident, that signing and appending extend a verified chain, that a stored body reads back,
  that interleaved writers never break a chain, what an offline verification of an export
  binds, and what replay counts.
\<close>

section \<open>A concrete instance of the libraries\<close>

text \<open>
  The witnesses below need libraries that satisfy the named hypotheses. JSON values are
  countable, so a value can be printed as a text of that length.
\<close>

instance f64 :: countable
  by countable_datatype

instance jnum :: countable
  by countable_datatype

instance json :: countable
  by countable_datatype

definition demo_crypto :: crypto where
  "demo_crypto =
     \<lparr>to_vec = (\<lambda>j. Some (replicate (to_nat j) 0)), from_slice = (\<lambda>bs. Some (from_nat (length bs))),
      sha256 = (\<lambda>bs. bs), hex_encode = map (\<lambda>b. char_of (unat b)), hex_decode = (\<lambda>s. Some (map (\<lambda>ch. of_nat (of_char ch)) s)),
      vk_from_bytes = Some, ed_verifying_key = (\<lambda>sk. sk),
      ed_sign = (\<lambda>sk m. replicate 64 (of_nat (length m))),
      ed_verify = (\<lambda>vk m s. s = replicate 64 (of_nat (length m)))\<rparr>"

lemma demo_json_round_trip: "json_round_trip demo_crypto"
  by (auto simp: json_round_trip_def json_stable_def demo_crypto_def)

lemma demo_hex_round_trip: "hex_round_trip demo_crypto"
proof -
  have "word_of_nat (of_char (char_of (unat b))) = b" for b :: byte
  proof -
    have "unat b < 2 ^ LENGTH(8)" by (rule unsigned_less)
    then show ?thesis by simp
  qed
  then show ?thesis by (simp add: hex_round_trip_def demo_crypto_def o_def)
qed

lemma demo_ed25519: "ed25519_correct demo_crypto"
  by (simp add: ed25519_correct_def demo_crypto_def)

definition demo_key :: bytes where
  "demo_key = [65, 65, 65, 65, 65, 65, 65, 65, 65, 65, 65, 65, 65, 65, 65, 65,
               65, 65, 65, 65, 65, 65, 65, 65, 65, 65, 65, 65, 65, 65, 65, 65]"

definition demo_body :: receipt_body where
  "demo_body =
     \<lparr>run_id = ''agent-1:session-1'', seq = 0, parent_hash = None, input_hash = ''00'', policy_hash = ''11'',
      threat_feed_hash = None, plugin_digests = [], model_digests = [], ml_scores = None, verdict = Block,
      reasons = [''blocked''], risk_score = 81, timestamp = ''2026-01-01T00:00:00Z'',
      signer_key_id = ''ed25519-AAAAAAAAAAAAAAAA'', pipeline_inputs_capture = None, apl_eval_trace = None,
      ml_inference_inputs = None, is_authoritative = Some False, usage = None\<rparr>"

definition demo_signer :: local_disk_signer where
  "demo_signer = \<lparr>signing_key = demo_key, key_id = ''ed25519-AAAAAAAAAAAAAAAA''\<rparr>"

definition demo_receipt :: receipt where
  "demo_receipt = projr (sign demo_crypto demo_signer demo_body)"

lemma demo_sign: "sign demo_crypto demo_signer demo_body = Inr demo_receipt"
  by (simp add: demo_receipt_def sign_def signing_bytes_def demo_crypto_def demo_body_def demo_signer_def)

lemma demo_receipt_body: "body demo_receipt = demo_body"
  using sign_verifies [OF demo_hex_round_trip demo_ed25519 demo_sign] by simp

lemma demo_receipt_verifies: "verify_receipt demo_crypto demo_receipt demo_key = Inr ()"
  using sign_verifies [OF demo_hex_round_trip demo_ed25519 demo_sign]
  by (simp add: verifying_key_of_def demo_signer_def demo_crypto_def)

lemma demo_reads_back: "ml_scores b = None \<Longrightarrow> pipeline_inputs_capture b = None \<Longrightarrow> body_reads_back demo_crypto b"
  using plain_body_stable [OF demo_json_round_trip, of b] by (simp add: body_reads_back_def)

lemma demo_storable: "storable demo_crypto demo_receipt"
  using demo_reads_back [of demo_body] by (simp add: storable_def demo_receipt_body demo_body_def)

lemma demo_chain: "verify_chain demo_crypto [demo_receipt] demo_key = Inr (Valid 1)"
  by (simp add: verify_chain_cases intact_def receipt_ok_def demo_receipt_verifies demo_receipt_body demo_body_def)

section \<open>Chain verification\<close>

text \<open>
  C1. \<open>verify_chain\<close> answers \<open>Valid\<close> exactly for a non-empty chain in which every receipt carries
  the run id of the first, its own position as sequence number, the digest of the receipt
  before it (none for the first) and a signature that verifies; the count is the length.
\<close>

theorem verify_chain_valid_iff:
  "verify_chain c rs vk = Inr (Valid n) \<longleftrightarrow>
     rs \<noteq> [] \<and> n = of_nat (length rs) \<and>
     (\<forall>k < length rs. run_id (body (rs ! k)) = run_id (body (hd rs)) \<and> seq (body (rs ! k)) = of_nat k \<and>
        parent_hash (body (rs ! k)) = (if k = 0 then None else link_digest c (rs ! (k - 1))) \<and>
        verify_receipt c (rs ! k) vk = Inr ())"
  (is "?V \<longleftrightarrow> ?R")
proof
  assume ?V
  then show ?R using intact_nth by (fastforce simp: verify_chain_cases receipt_ok_def)
next
  assume ?R
  then show ?V by (auto simp: verify_chain_cases receipt_ok_def intro!: intactI)
qed

theorem verify_chain_valid_iff_witness:
  "seq (body ([demo_receipt] ! 0)) = 0 \<and> verify_receipt demo_crypto ([demo_receipt] ! 0) demo_key = Inr ()"
  using verify_chain_valid_iff [of demo_crypto "[demo_receipt]" demo_key 1] demo_chain by simp

text \<open>
  \<open>verify_chain\<close> never returns an error, and it never answers \<open>Empty\<close> for a non-empty chain:
  the \<open>?\<close> on \<open>body_hash\<close> only runs on a body whose bytes were just verified.
\<close>

theorem verify_chain_total:
  "\<exists>st. verify_chain c rs vk = Inr st \<and> (st = Empty \<longleftrightarrow> rs = [])"
proof (cases rs)
  case Nil
  then show ?thesis by (simp add: verify_chain_def)
next
  case (Cons r rs')
  obtain out where out: "verify_loop c vk (run_id (body r)) 0 None rs = Inr out"
    using verify_loop_total by blast
  then show ?thesis
    using Cons verify_loop_Broken [of c vk "run_id (body r)" 0 None rs]
    by (cases out) (auto simp: verify_chain_def)
qed

text \<open>
  C3. A broken chain is reported at its first bad receipt: everything before it is a valid
  chain of its own, and with it the chain is not valid.
\<close>

theorem verify_chain_first_break:
  assumes "verify_chain c rs vk = Inr (Broken s why)"
  shows "\<exists>pre r post. rs = pre @ r # post \<and> s = seq (body r) \<and>
    (pre = [] \<or> verify_chain c pre vk = Inr (Valid (of_nat (length pre)))) \<and>
    (\<forall>n. verify_chain c (pre @ [r]) vk \<noteq> Inr (Valid n))"
proof -
  obtain r0 rs' where rs: "rs = r0 # rs'" using assms by (cases rs) (auto simp: verify_chain_def)
  let ?rid = "run_id (body r0)"
  from assms rs have "verify_loop c vk ?rid 0 None rs = Inr (Some (Broken s why))"
    by (auto simp: verify_chain_def split: option.splits)
  from verify_loop_Broken [OF this] obtain pre r post where parts: "rs = pre @ r # post" "s = seq (body r)"
    "intact c vk ?rid pre" "\<not> intact c vk ?rid (pre @ [r])" by (auto simp: intact_def)
  have "run_id (body (hd (pre @ [r]))) = ?rid" using parts(1) rs by (cases pre) auto
  with parts have "\<forall>n. verify_chain c (pre @ [r]) vk \<noteq> Inr (Valid n)" by (simp add: verify_chain_cases)
  moreover have "pre = [] \<or> verify_chain c pre vk = Inr (Valid (of_nat (length pre)))"
    using parts(1,3) rs by (cases pre) (auto simp: verify_chain_cases)
  ultimately show ?thesis using parts(1,2) by blast
qed

theorem verify_chain_first_break_witness:
  "\<exists>pre r post. [demo_receipt, demo_receipt] = pre @ r # post \<and> 0 = seq (body r) \<and>
    (pre = [] \<or> verify_chain demo_crypto pre demo_key = Inr (Valid (of_nat (length pre)))) \<and>
    (\<forall>n. verify_chain demo_crypto (pre @ [r]) demo_key \<noteq> Inr (Valid n))"
proof -
  obtain h where h: "body_hash demo_crypto demo_body = Inr h"
    using verify_receipt_hashes [OF demo_receipt_verifies] by (auto simp: demo_receipt_body)
  have "seq demo_body = 0" "parent_hash demo_body = None" by (simp_all add: demo_body_def)
  then have "verify_chain demo_crypto [demo_receipt, demo_receipt] demo_key = Inr (Broken 0 (NonMonotonicSeq 1 0))"
    using h by (simp add: verify_chain_def demo_receipt_verifies demo_receipt_body)
  then show ?thesis by (rule verify_chain_first_break)
qed

section \<open>Tamper evidence\<close>

lemma same_digest_same_body:
  assumes "hex_round_trip c" "intact c vk rid rs" "length rs = length rs'" "k < length rs"
    and "\<forall>r \<in> set rs \<union> set rs'. body_reads_back c (body r)"
    and "\<not> collide c (body (rs ! k)) (body (rs' ! k))"
    and "link_digest c (rs ! k) = link_digest c (rs' ! k)"
  shows "body (rs ! k) = body (rs' ! k)"
proof -
  obtain d where d: "link_digest c (rs ! k) = Some d" using intact_link_digest assms(2,4) by blast
  have "body_reads_back c (body (rs ! k))" "body_reads_back c (body (rs' ! k))" using assms(3-5) by simp_all
  with link_digest_binds [OF _ _ assms(1) d] d assms(6,7) show ?thesis by auto
qed

lemma last_digests_bind:
  assumes "hex_round_trip c" "intact c vk rid rs" "intact c vk' rid' rs'" "length rs = length rs'" "k < length rs"
    and "link_digest c (rs ! (length rs - 1)) = link_digest c (rs' ! (length rs - 1))"
    and "\<forall>r \<in> set rs \<union> set rs'. body_reads_back c (body r)"
    and "\<forall>i < length rs. \<not> collide c (body (rs ! i)) (body (rs' ! i))"
  shows "body (rs ! k) = body (rs' ! k)"
proof -
  have "k \<le> length rs - 1" using assms(5) by simp
  then have "link_digest c (rs ! k) = link_digest c (rs' ! k)"
  proof (induction rule: inc_induct)
    case base
    then show ?case by (rule assms(6))
  next
    case (step n)
    then have lt: "Suc n < length rs" by simp
    then have "body (rs ! Suc n) = body (rs' ! Suc n)"
      using same_digest_same_body [OF assms(1,2,4) lt assms(7)] assms(8) step.IH by blast
    moreover have "parent_hash (body (rs ! Suc n)) = link_digest c (rs ! n)"
      using intact_nth [OF assms(2) lt] by (simp add: receipt_ok_def)
    moreover have "parent_hash (body (rs' ! Suc n)) = link_digest c (rs' ! n)"
      using intact_nth [OF assms(3), of "Suc n"] lt assms(4) by (simp add: receipt_ok_def)
    ultimately show ?case by (simp only:)
  qed
  with same_digest_same_body [OF assms(1,2,4,5,7)] assms(5,8) show ?thesis by blast
qed

text \<open>
  C4. A valid chain is bound by the digest of its last body: two valid chains of equal length
  whose last bodies have the same digest record the same bodies throughout, unless some
  position exhibits a concrete SHA-256 collision between the two bodies recorded there. This
  holds whatever keys the two chains verify under, for bodies that read back from their printed
  form (by \<open>plain_body_stable\<close>, all whose scores and captured request hold no floating point number).
\<close>

theorem chain_tamper_evident:
  assumes "hex_round_trip c"
    and "verify_chain c rs vk = Inr (Valid n)" "verify_chain c rs' vk' = Inr (Valid n')"
    and "length rs = length rs'" "link_digest c (last rs) = link_digest c (last rs')"
    and "\<forall>r \<in> set rs \<union> set rs'. body_reads_back c (body r)"
  shows "map body rs = map body rs' \<or> (\<exists>i < length rs. collide c (body (rs ! i)) (body (rs' ! i)))"
proof (cases "\<exists>i < length rs. collide c (body (rs ! i)) (body (rs' ! i))")
  case False
  have ne: "rs \<noteq> []" "rs' \<noteq> []" using assms(2,3) by (auto simp: verify_chain_cases)
  then have last: "link_digest c (rs ! (length rs - 1)) = link_digest c (rs' ! (length rs - 1))"
    using assms(4,5) by (simp add: last_conv_nth)
  have "body (rs ! k) = body (rs' ! k)" if "k < length rs" for k
    using last_digests_bind [OF assms(1) _ _ assms(4) that last assms(6)] assms(2,3) False
    by (auto simp: verify_chain_cases)
  then show ?thesis using assms(4) by (simp add: list_eq_iff_nth_eq)
qed simp

text \<open>
  A concrete use: a forger who holds the key signs the body again with the verdict \<open>Allow\<close>. Both
  chains verify, and the digest of the last body gives the forgery away.
\<close>

definition demo_forged :: receipt where
  "demo_forged = projr (sign demo_crypto demo_signer (demo_body\<lparr>verdict := Allow\<rparr>))"

lemma demo_forged_sign: "sign demo_crypto demo_signer (demo_body\<lparr>verdict := Allow\<rparr>) = Inr demo_forged"
  by (simp add: demo_forged_def sign_def signing_bytes_def demo_crypto_def demo_body_def demo_signer_def)

lemma demo_forged_body: "body demo_forged = demo_body\<lparr>verdict := Allow\<rparr>"
  "verify_receipt demo_crypto demo_forged demo_key = Inr ()"
  using sign_verifies [OF demo_hex_round_trip demo_ed25519 demo_forged_sign]
  by (simp_all add: verifying_key_of_def demo_signer_def demo_crypto_def)

lemma demo_forged_chain: "verify_chain demo_crypto [demo_forged] demo_key = Inr (Valid 1)"
  by (simp add: verify_chain_cases intact_def receipt_ok_def demo_forged_body demo_body_def)

theorem chain_tamper_evident_witness:
  "verify_chain demo_crypto [demo_receipt] demo_key = Inr (Valid 1) \<and> verify_chain demo_crypto [demo_forged] demo_key = Inr (Valid 1)
   \<and> link_digest demo_crypto (last [demo_receipt]) \<noteq> link_digest demo_crypto (last [demo_forged])"
proof (intro conjI demo_chain demo_forged_chain notI)
  assume same: "link_digest demo_crypto (last [demo_receipt]) = link_digest demo_crypto (last [demo_forged])"
  have "body_reads_back demo_crypto (body demo_receipt)" "body_reads_back demo_crypto (body demo_forged)"
    by (rule demo_reads_back; simp add: demo_receipt_body demo_forged_body demo_body_def)+
  then have "map body [demo_receipt] = map body [demo_forged] \<or>
      (\<exists>i < length [demo_receipt]. collide demo_crypto (body ([demo_receipt] ! i)) (body ([demo_forged] ! i)))"
    by (intro chain_tamper_evident [OF demo_hex_round_trip demo_chain demo_forged_chain _ same]) simp_all
  then show False
    by (auto simp: demo_receipt_body demo_forged_body collide_def demo_crypto_def demo_body_def)
qed

text \<open>
  C5. Signing a body whose link comes from \<open>chain_link\<close> of the last receipt extends a valid chain
  by one: the extended chain verifies under the signer's own key, and the store's link check
  accepts the new receipt.
\<close>

theorem signed_link_extends_chain:
  assumes "hex_round_trip c" "ed25519_correct c"
    and "rs = [] \<or> verify_chain c rs (verifying_key_of c s) = Inr (Valid (of_nat (length rs)))"
    and "chain_link c (last_receipt rs) = Inr (parent_hash b, seq b)"
    and "rs \<noteq> [] \<longrightarrow> run_id b = run_id (body (hd rs))" "sign c s b = Inr r"
  shows "verify_chain c (rs @ [r]) (verifying_key_of c s) = Inr (Valid (of_nat (Suc (length rs)))) \<and>
    check_append_link c (last_receipt rs) r = Inr ()"
proof -
  have r: "body r = b" "verify_receipt c r (verifying_key_of c s) = Inr ()"
    using sign_verifies [OF assms(1,2,6)] by simp_all
  then have link: "check_append_link c (last_receipt rs) r = Inr ()"
    using check_append_link_own [OF assms(4)] by simp
  have "intact c (verifying_key_of c s) (run_id b) rs"
    using assms(3,5) by (cases "rs = []") (auto simp: verify_chain_cases intact_def)
  then have "intact c (verifying_key_of c s) (run_id b) (rs @ [r])"
    using intact_extend link r by blast
  moreover have "run_id (body (hd (rs @ [r]))) = run_id b" using assms(5) r(1) by (cases rs) auto
  ultimately show ?thesis using link by (simp add: verify_chain_cases)
qed

theorem signed_link_extends_chain_witness:
  "verify_chain demo_crypto ([] @ [demo_receipt]) (verifying_key_of demo_crypto demo_signer) =
     Inr (Valid (of_nat (Suc (length ([] :: receipt list))))) \<and>
   check_append_link demo_crypto (last_receipt []) demo_receipt = Inr ()"
  by (rule signed_link_extends_chain [OF demo_hex_round_trip demo_ed25519 _ _ _ demo_sign])
     (simp_all add: chain_link_def next_parent_hash_def next_seq_def last_receipt_def demo_body_def)

section \<open>Stored bodies\<close>

text \<open>
  C6. The derived serialization of a receipt body is read back by the derived deserialization,
  for every body whose \<open>ml_scores\<close> is not a \<open>null\<close> value; and for such a body the field is lost:
  it is written as \<open>null\<close> and read back as absent, so the stored receipt no longer has the
  body that was signed.
\<close>

theorem body_json_round_trip:
  "body_of_json (body_json b) =
     Some (if ml_scores b = Some JNull then b\<lparr>ml_scores := None\<rparr> else b)"
proof (cases "ml_scores b = Some JNull")
  case False
  then show ?thesis using de_body_fields [of b] by (simp add: body_of_json_def body_json_def)
next
  case True
  have "de_default ''ml_scores'' None (de_option Some) (body_fields b) = Some None"
    using True by (simp add: de_default_def read_field_def body_fields_def de_option_def)
  moreover have "de_default ''parent_hash'' None (de_option de_string) (body_fields b) = Some (parent_hash b)"
    by (intro occurrences_parent_hash) (simp add: body_fields_def)
  ultimately have "de_body (body_fields b) = Some (b\<lparr>ml_scores := None\<rparr>)"
    by (simp add: de_body_def) (simp add: body_fields_def field_reads)
  with True show ?thesis by (simp add: body_of_json_def body_json_def)
qed

section \<open>The store\<close>

text \<open>
  C7. Appending without a transaction is safe: whatever the interleaving of the writers' head
  reads, link checks and inserts, if every offered receipt is storable (its body reads back from its
  printed form) and carries a good signature, then every run present in the table verifies as a valid chain of all its rows.
\<close>

theorem interleaved_appends_verify:
  assumes "\<And>r. offered r \<Longrightarrow> storable c r"
    and "\<And>r. offered r \<Longrightarrow> verify_receipt c r vk = Inr ()"
    and "store_reachable c offered s" "w \<in> set (st_table s)"
  shows "store_verify_chain c vk (st_table s) (row_run_id w) =
    Inr (Valid (of_nat (length (select_run (st_table s) (row_run_id w)))))"
proof -
  from store_reachable_inv [OF assms(1,3)] have inv: "store_state_inv c offered s" .
  have "w \<in> set (select_run (st_table s) (row_run_id w))" using assms(4) by (simp add: select_run_set)
  then have "select_run (st_table s) (row_run_id w) \<noteq> []" by auto
  with inv show ?thesis
    by (intro table_rows_verify [of c _ offered]) (auto simp: store_state_inv_def assms(2))
qed

text \<open>Two writers check the same head before either inserts; the second insert loses.\<close>

definition demo_offered :: "receipt \<Rightarrow> bool" where
  "demo_offered r \<longleftrightarrow> r = demo_receipt"

definition demo_row :: row where
  "demo_row = projr (row_of_receipt demo_crypto demo_receipt)"

lemma demo_row: "row_of_receipt demo_crypto demo_receipt = Inr demo_row"
  by (simp add: demo_row_def row_of_receipt_def signing_bytes_def demo_crypto_def)

lemma demo_append_check: "append_check demo_crypto [] demo_receipt = Inr demo_row"
  by (simp add: append_check_def demo_row store_head_def select_head_last select_run_def
      last_receipt_def check_append_link_def next_parent_hash_def next_seq_def
      demo_receipt_body demo_body_def)

lemma demo_race_reachable:
  "store_reachable demo_crypto demo_offered \<lparr>st_table = [demo_row], st_pending = []\<rparr>"
proof -
  let ?s0 = "\<lparr>st_table = [], st_pending = []\<rparr>"
  let ?s1 = "\<lparr>st_table = [], st_pending = [demo_row]\<rparr>"
  let ?s2 = "\<lparr>st_table = [], st_pending = [demo_row, demo_row]\<rparr>"
  let ?s3 = "\<lparr>st_table = [demo_row], st_pending = [demo_row]\<rparr>"
  have "store_step demo_crypto demo_offered ?s0 ?s1"
    using store_step.check [of demo_offered demo_receipt demo_crypto ?s0 demo_row] demo_append_check
    by (simp add: demo_offered_def)
  moreover have "store_step demo_crypto demo_offered ?s1 ?s2"
    using store_step.check [of demo_offered demo_receipt demo_crypto ?s1 demo_row] demo_append_check
    by (simp add: demo_offered_def)
  moreover have "store_step demo_crypto demo_offered ?s2 ?s3"
    using store_step.commit [of demo_row ?s2 "[demo_row]" demo_crypto demo_offered] by (simp add: insert_row_Inr)
  moreover have "store_step demo_crypto demo_offered ?s3 \<lparr>st_table = [demo_row], st_pending = []\<rparr>"
    using store_step.lose [of demo_row ?s3 _ demo_crypto demo_offered] by (simp add: insert_row_def)
  ultimately show ?thesis using store_reachable.init store_reachable.step by blast
qed

theorem interleaved_appends_verify_witness:
  "store_verify_chain demo_crypto demo_key [demo_row] (row_run_id demo_row) =
     Inr (Valid (of_nat (length (select_run [demo_row] (row_run_id demo_row)))))"
proof -
  have "store_verify_chain demo_crypto demo_key (st_table \<lparr>st_table = [demo_row], st_pending = []\<rparr>) (row_run_id demo_row) =
    Inr (Valid (of_nat (length (select_run (st_table \<lparr>st_table = [demo_row], st_pending = []\<rparr>) (row_run_id demo_row)))))"
    by (rule interleaved_appends_verify [OF _ _ demo_race_reachable])
       (simp_all add: demo_offered_def demo_storable demo_receipt_verifies)
  then show ?thesis by simp
qed

text \<open>
  C8. An append of a storable receipt that the SQLite store accepts adds exactly the receipt at the end of its run,
  becomes the head of that run, leaves every other run as it was and keeps the table well
  formed.
\<close>

theorem append_then_read:
  assumes "table_inv c tbl" "storable c r" "store_append c tbl r = Inr tbl'"
  shows "table_inv c tbl' \<and> store_head c tbl' (run_id (body r)) = Inr (Some r) \<and>
    (\<exists>rs. store_get_run c tbl (run_id (body r)) = Inr rs \<and> store_get_run c tbl' (run_id (body r)) = Inr (rs @ [r])) \<and>
    (\<forall>rid. rid \<noteq> run_id (body r) \<longrightarrow> store_get_run c tbl' rid = store_get_run c tbl rid)"
proof -
  have inv: "table_inv c tbl'" using sqlite.append_inv assms by blast
  obtain rs where rs: "store_get_run c tbl (run_id (body r)) = Inr rs"
    using sqlite.get_run_links [OF assms(1)] by blast
  with assms have run: "store_get_run c tbl' (run_id (body r)) = Inr (rs @ [r])"
    using sqlite.append_extends by blast
  then have "store_head c tbl' (run_id (body r)) = Inr (Some r)"
    using sqlite.head_last [OF inv run] by (simp add: last_receipt_def)
  moreover have "store_get_run c tbl' rid = store_get_run c tbl rid" if "rid \<noteq> run_id (body r)" for rid
    using sqlite.append_frame [OF assms that] .
  ultimately show ?thesis using inv rs run by blast
qed

theorem append_then_read_witness:
  "store_head demo_crypto [demo_row] (run_id (body demo_receipt)) = Inr (Some demo_receipt)"
proof -
  have "store_append demo_crypto [] demo_receipt = Inr [demo_row]"
    by (simp add: store_append_def demo_append_check insert_row_Inr)
  moreover have "table_inv demo_crypto []" by (rule table_inv_empty)
  ultimately show ?thesis using append_then_read [OF _ demo_storable] by blast
qed

lemma summary_of_run:
  assumes "table_inv c tbl" "store_get_run c tbl rid = Inr rs" "summarize_run c tbl rid = Inr sm"
  shows "rs \<noteq> [] \<and> rs_run_id sm = rid \<and> rs_terminal_verdict sm = verdict (body (last rs)) \<and>
    rs_receipt_count sm = of_nat (length rs)"
proof -
  from get_run_rows [of c tbl rid] assms(1,2)
  have rows: "length rs = length (select_run tbl rid)"
    "\<forall>i < length rs. row_to_receipt c (select_run tbl rid ! i) = Inr (rs ! i)" by auto
  from assms(3) have ne: "select_run tbl rid \<noteq> []"
    by (auto simp: summarize_run_def select_head_last last_receipt_def Let_def split: if_splits)
  then have ne': "rs \<noteq> []" using rows(1) by auto
  with ne have "row_to_receipt c (last (select_run tbl rid)) = Inr (last rs)"
    using rows by (simp add: last_conv_nth)
  note decoded = row_to_receipt_body [OF this]
  show ?thesis using decoded assms(3) ne rows(1) ne'
    by (auto simp: summarize_run_def select_head_last last_receipt_def Let_def)
qed

text \<open>
  C9. A listed run reports the verdict of the last signed body of that run and the number of its
  receipts, whatever the denormalized verdict column of its rows says.
\<close>

theorem listed_verdict_is_signed:
  assumes "table_inv c tbl" "list_runs c tbl limit = Inr sms" "sm \<in> set sms"
  shows "\<exists>rs. store_get_run c tbl (rs_run_id sm) = Inr rs \<and> rs \<noteq> [] \<and>
    rs_terminal_verdict sm = verdict (body (last rs)) \<and> rs_receipt_count sm = of_nat (length rs)"
proof -
  from assms(2,3) obtain rid where rid: "summarize_run c tbl rid = Inr sm"
    by (fastforce simp: list_runs_def Let_def collect_results_Inr in_set_conv_nth)
  obtain rs where "store_get_run c tbl rid = Inr rs" using sqlite.get_run_links [OF assms(1)] by blast
  with summary_of_run [OF assms(1) this rid] show ?thesis by blast
qed

theorem listed_verdict_is_signed_witness:
  "\<exists>rs. store_get_run demo_crypto [demo_row] ''agent-1:session-1'' = Inr rs \<and> Block = verdict (body (last rs))"
proof -
  have inv: "table_inv demo_crypto [demo_row]"
    using sqlite.append_inv [of demo_crypto "[]" demo_receipt "[demo_row]"] demo_storable
    by (simp add: table_inv_empty store_append_def demo_append_check insert_row_Inr)
  have rid: "row_run_id demo_row = ''agent-1:session-1''"
    using row_of_receipt_fields [OF demo_row] by (simp add: demo_receipt_body demo_body_def)
  have "row_to_receipt demo_crypto demo_row = Inr demo_receipt"
    using row_round_trip [OF _ demo_row] demo_storable by (simp add: storable_def)
  then have b: "Option.bind (from_slice demo_crypto (row_body_json demo_row)) body_of_json = Some demo_body"
    using row_to_receipt_body demo_receipt_body by metis
  let ?sm = "\<lparr>rs_run_id = ''agent-1:session-1'', rs_receipt_count = 1, rs_first_timestamp = row_timestamp demo_row,
    rs_last_timestamp = row_timestamp demo_row, rs_terminal_verdict = Block\<rparr>"
  have "list_runs demo_crypto [demo_row] 1 = Inr [?sm]"
    using b rid by (simp add: list_runs_def Let_def summarize_run_def select_head_last select_run_def
        last_receipt_def demo_body_def)
  from listed_verdict_is_signed [OF inv this, of ?sm] show ?thesis by auto
qed

section \<open>Offline verification\<close>

text \<open>
  C10. \<open>iaga-verify\<close> reports an export as valid exactly when the chosen key parses, the label of
  the export and of every receipt is the id of that key, every receipt carries the run id of
  the export, and the chain verifies under that key; the key is the pinned one when the
  caller pins one.
\<close>

theorem verify_export_valid_iff:
  "verify_export c ex pinned = Inr (Valid n, src) \<longleftrightarrow>
     (\<exists>vk. parse_key c (case pinned of Some k \<Rightarrow> k | None \<Rightarrow> ex_signer_verifying_key ex) = Inr vk \<and>
        src = (if pinned = None then Embedded else Pinned) \<and>
        ex_signer_key_id ex = key_id_for_verifying_key c vk \<and>
        (\<forall>r \<in> set (ex_receipts ex).
           signer_key_id (body r) = key_id_for_verifying_key c vk \<and> run_id (body r) = ex_run_id ex) \<and>
        verify_chain c (ex_receipts ex) vk = Inr (Valid n))"
  (is "_ = (\<exists>vk. parse_key c ?k = Inr vk \<and> ?src \<and> ?Q vk)")
proof -
  obtain src' where src': "(case pinned of Some k \<Rightarrow> (k, Pinned) | None \<Rightarrow> (ex_signer_verifying_key ex, Embedded)) = (?k, src')"
    "src' = (if pinned = None then Embedded else Pinned)" by (cases pinned) auto
  show ?thesis
  proof (cases "parse_key c ?k")
    case (Inl e)
    then show ?thesis unfolding verify_export_def src'(1) by simp
  next
    case (Inr vk)
    obtain st where st: "verify_chain c (ex_receipts ex) vk = Inr st" using verify_chain_never_fails by blast
    show ?thesis
    proof (cases "export_labels (key_id_for_verifying_key c vk) (ex_run_id ex) (ex_receipts ex)")
      case None
      note labels = export_labels_None [THEN iffD1, OF None]
      show ?thesis unfolding verify_export_def src'(1) Let_def
        using Inr st src'(2) labels by (auto simp: None)
    next
      case (Some out)
      then have "\<not> (\<forall>r \<in> set (ex_receipts ex).
          signer_key_id (body r) = key_id_for_verifying_key c vk \<and> run_id (body r) = ex_run_id ex)"
        using export_labels_None [of "key_id_for_verifying_key c vk" "ex_run_id ex" "ex_receipts ex"] by simp
      moreover have "out \<noteq> Valid n" using Some export_labels_not_Valid by blast
      ultimately show ?thesis unfolding verify_export_def src'(1) Let_def
        using Inr Some src'(2) by auto
    qed
  qed
qed

definition demo_export :: chain_export where
  "demo_export =
     \<lparr>ex_run_id = ''agent-1:session-1'', ex_signer_key_id = ''ed25519-AAAAAAAAAAAAAAAA'',
      ex_signer_verifying_key = ''AAAAAAAAAAAAAAAAAAAAAAAAAAAAAAAA'', ex_receipts = [demo_receipt]\<rparr>"

lemma demo_parse_key:
  "parse_key demo_crypto ''AAAAAAAAAAAAAAAAAAAAAAAAAAAAAAAA'' = Inr demo_key"
  by (simp add: parse_key_def str_trim_visible visible_def demo_crypto_def demo_key_def)

lemma demo_key_id: "key_id_for_verifying_key demo_crypto demo_key = ''ed25519-AAAAAAAAAAAAAAAA''"
  by (simp add: key_id_for_verifying_key_def demo_crypto_def demo_key_def char_of_def bit_0)

theorem verify_export_valid_iff_witness:
  "verify_export demo_crypto demo_export (Some ''AAAAAAAAAAAAAAAAAAAAAAAAAAAAAAAA'') = Inr (Valid 1, Pinned)"
  using verify_export_valid_iff [of demo_crypto demo_export "Some ''AAAAAAAAAAAAAAAAAAAAAAAAAAAAAAAA''" 1 Pinned]
  by (simp add: demo_parse_key demo_key_id demo_chain demo_export_def demo_receipt_body) (simp add: demo_body_def)

section \<open>Replay\<close>

text \<open>
  C11. A replay report is what the evaluator says now against what the chain says was decided. The
  evaluator runs once over the receipts of the run, in order, keeping its own state; the report has
  one drift record per receipt, with its stored verdict and reasons beside those the evaluator gave
  for it, divergent exactly when they differ, and the total counts the divergent ones. The chain
  status is that of the store.
\<close>

theorem replay_report_exact:
  assumes "replay vchain get_run s rid ev st = Inr rp"
  shows "\<exists>rs. get_run s rid = Inr rs \<and> rs \<noteq> [] \<and> rp_run_id rp = rid \<and> vchain s rid = Inr (rp_chain_status rp) \<and>
    rp_drift rp = map2 drift_of rs (evaluations ev st rs) \<and> length (rp_drift rp) = length rs \<and>
    rp_total_divergences rp = of_nat (length (filter (\<lambda>(r, cur). drifts r cur) (zip rs (evaluations ev st rs))))"
  using assms by (auto simp: replay_def replay_loop_exact split: if_splits)

text \<open>An evaluator that allows every second call: the blocked receipt is allowed the first time only.\<close>

definition demo_replay :: "receipt_error + replay_report" where
  "demo_replay = replay (\<lambda>_ _. Inr (Valid 1)) (\<lambda>_ _. Inr [demo_receipt]) () ''run''
     (\<lambda>st r. (\<lparr>co_verdict = (if st then Allow else Block), co_reasons = [''blocked'']\<rparr>, \<not> st)) True"

theorem replay_report_exact_witness:
  "\<exists>rp. demo_replay = Inr rp \<and> map dr_current_verdict (rp_drift rp) = [Allow] \<and> map dr_stored_verdict (rp_drift rp) = [Block]
     \<and> rp_total_divergences rp = 1"
proof -
  have "demo_replay = Inr (projr demo_replay)"
    by (simp add: demo_replay_def replay_def Let_def)
  from replay_report_exact [OF this [unfolded demo_replay_def]] this show ?thesis
    by (intro exI [of _ "projr demo_replay"])
       (auto simp: demo_replay_def drift_of_def drifts_def demo_receipt_body demo_body_def)
qed

end
