(* ===== verification/Core_Types.thy ===== *)
theory Core_Types
  imports Receipt_Model "HOL-Library.List_Lexorder" "HOL-Library.Char_ord"
begin

text \<open>
  The governance vocabulary of \<open>crates/iaga-sentinel-core/src/core/types.rs\<close> that several
  components share: action types, the three-valued decision with its order, review status,
  and the stored audit event with its serialization.
\<close>

section \<open>Enumerations\<close>

datatype action_type = Shell | FileRead | FileWrite | Http | DbQuery | Email | Custom

datatype governance_decision = GAllow | GReview | GBlock

datatype review_status = NotRequired | Pending | Approved | Rejected

text \<open>The derived \<open>Ord\<close> follows the order of the variants: a decision is larger when it is stricter.\<close>

fun decision_rank :: "governance_decision \<Rightarrow> nat" where
  "decision_rank GAllow = 0"
| "decision_rank GReview = 1"
| "decision_rank GBlock = 2"

lemma decision_rank_inj [simp]: "decision_rank a = decision_rank b \<longleftrightarrow> a = b"
  by (cases a; cases b) auto

lemma decision_rank_le [simp]: "decision_rank d \<le> 2"
  by (cases d) auto

instantiation governance_decision :: linorder
begin

definition less_eq_governance_decision :: "governance_decision \<Rightarrow> governance_decision \<Rightarrow> bool" where
  "less_eq_governance_decision a b \<longleftrightarrow> decision_rank a \<le> decision_rank b"

definition less_governance_decision :: "governance_decision \<Rightarrow> governance_decision \<Rightarrow> bool" where
  "less_governance_decision a b \<longleftrightarrow> decision_rank a < decision_rank b"

instance
  by standard (auto simp: less_eq_governance_decision_def less_governance_decision_def)

end

lemma decision_order [simp]:
  "GAllow \<le> d" "d \<le> GBlock" "GReview \<le> GAllow \<longleftrightarrow> False" "GBlock \<le> GAllow \<longleftrightarrow> False" "GBlock \<le> GReview \<longleftrightarrow> False"
  by (cases d; simp add: less_eq_governance_decision_def)+

fun ser_action_type :: "action_type \<Rightarrow> json" where
  "ser_action_type Shell = JString ''shell''"
| "ser_action_type FileRead = JString ''file_read''"
| "ser_action_type FileWrite = JString ''file_write''"
| "ser_action_type Http = JString ''http''"
| "ser_action_type DbQuery = JString ''db_query''"
| "ser_action_type Email = JString ''email''"
| "ser_action_type Custom = JString ''custom''"

fun ser_decision :: "governance_decision \<Rightarrow> json" where
  "ser_decision GAllow = JString ''allow''"
| "ser_decision GReview = JString ''review''"
| "ser_decision GBlock = JString ''block''"

fun ser_review_status :: "review_status \<Rightarrow> json" where
  "ser_review_status NotRequired = JString ''not_required''"
| "ser_review_status Pending = JString ''pending''"
| "ser_review_status Approved = JString ''approved''"
| "ser_review_status Rejected = JString ''rejected''"

section \<open>Stored audit events\<close>

record stored_audit_event =
  ae_event_id :: string
  ae_agent_id :: string
  ae_tenant_id :: "string option"
  ae_framework :: string
  ae_action_type :: action_type
  ae_tool_name :: string
  ae_input_sha256 :: string
  ae_decision :: governance_decision
  ae_timestamp :: string
  ae_reasons :: "string list"
  ae_review_status :: review_status
  ae_risk_score :: u32
  ae_usage :: "usage_data option"
  ae_session_id :: "string option"

text \<open>
  \<open>serde_json::to_value\<close> collects the fields of a struct into a map ordered by key. The nested
  ledger is a struct as well.
\<close>

definition to_value_object :: "fields \<Rightarrow> json" where
  "to_value_object fs = JObject (sort_key fst fs)"

definition event_fields :: "stored_audit_event \<Rightarrow> fields" where
  "event_fields e =
     ser_field ''eventId'' (JString (ae_event_id e)) @
     ser_field ''agentId'' (JString (ae_agent_id e)) @
     ser_field ''tenantId'' (ser_option JString (ae_tenant_id e)) @
     ser_field ''framework'' (JString (ae_framework e)) @
     ser_field ''actionType'' (ser_action_type (ae_action_type e)) @
     ser_field ''toolName'' (JString (ae_tool_name e)) @
     ser_field ''inputSha256'' (JString (ae_input_sha256 e)) @
     ser_field ''decision'' (ser_decision (ae_decision e)) @
     ser_field ''timestamp'' (JString (ae_timestamp e)) @
     ser_field ''reasons'' (JArray (map JString (ae_reasons e))) @
     ser_field ''reviewStatus'' (ser_review_status (ae_review_status e)) @
     ser_field ''riskScore'' (ser_u32 (ae_risk_score e)) @
     ser_skip_none ''usage'' (\<lambda>u. to_value_object (usage_fields u)) (ae_usage e) @
     ser_skip_none ''sessionId'' JString (ae_session_id e)"

definition event_to_value :: "stored_audit_event \<Rightarrow> json" where
  "event_to_value e = to_value_object (event_fields e)"

end
