(* ===== verification/Receipt_Logger.thy ===== *)
theory Receipt_Logger
  imports Core_Types Receipt_Store Receipt_Export
begin

text \<open>
  The signed receipt logger of \<open>crates/iaga-sentinel-core/src/pipeline/receipts.rs\<close>: how an
  audit event becomes a receipt, the five-attempt append loop against a store that other
  processes share, and the accounting of receipts that were lost. The loop runs over any
  store; other writers act through \<open>env\<close>, whose \<open>2 * a\<close>-th action falls before the head is
  read in attempt \<open>a\<close> and whose \<open>2 * a + 1\<close>-st falls between that read and the append.
\<close>

section \<open>Inputs\<close>

record reasoning_outcome =
  ro_scores :: json
  ro_model_digests :: "(string \<times> string) list"

record dictum_trace_data =
  dt_policies_evaluated :: u32
  dt_policies_fired :: "string list"
  dt_evidence_sha256 :: "string option"

record receipt_context =
  rc_policy_hash :: "string option"
  rc_threat_feed_hash :: "string option"
  rc_dictum_trace :: "dictum_trace_data option"

datatype sentinel_error =
    AgentNotFound string
  | WorkspaceNotFound string
  | PolicyViolation string
  | StorageError string
  | AuthRequired
  | InvalidApiKey
  | AdminScopeRequired
  | AgentKeyUnbound
  | AgentScopeMismatch string string
  | CapabilityRequired string
  | WorkspaceScopeMismatch string string string
  | InvalidRequest string
  | ReviewNotFound string
  | NotFoundError string
  | InternalError string
  | ConfigError string
  | IoError string
  | ProxyError string

text \<open>Environment switches; the argument is the value of the variable, if it is set.\<close>

definition fail_closed_enabled :: "string option \<Rightarrow> bool" where
  "fail_closed_enabled v =
     (case v of None \<Rightarrow> False
      | Some s \<Rightarrow> (let t = to_ascii_lowercase (str_trim s) in t = ''1'' \<or> t = ''true'' \<or> t = ''yes''))"

definition capture_enabled :: "string option \<Rightarrow> bool" where
  "capture_enabled v \<longleftrightarrow> v = Some ''1'' \<or> v = Some ''true'' \<or> v = Some ''yes''"

definition default_policy_hash :: "crypto \<Rightarrow> string" where
  "default_policy_hash c = hex_encode c (sha256 c (as_bytes ''iaga-sentinel-policy-v0''))"

section \<open>The logger\<close>

text \<open>The store is kept apart from the rest of the logger, since other writers change it too.\<close>

record signed_receipt_logger =
  lg_signer :: local_disk_signer
  lg_policy_hash :: string
  lg_dropped_runs :: "string \<rightharpoonup> u32"
  lg_fail_closed :: bool

definition new_logger :: "local_disk_signer \<Rightarrow> string \<Rightarrow> signed_receipt_logger" where
  "new_logger s ph = \<lparr>lg_signer = s, lg_policy_hash = ph, lg_dropped_runs = Map.empty, lg_fail_closed = False\<rparr>"

definition with_fail_closed :: "bool \<Rightarrow> signed_receipt_logger \<Rightarrow> signed_receipt_logger" where
  "with_fail_closed on lg = lg\<lparr>lg_fail_closed := on\<rparr>"

definition event_input_hash :: "crypto \<Rightarrow> stored_audit_event \<Rightarrow> string" where
  "event_input_hash c e =
     hex_encode c (sha256 c (as_bytes (ae_agent_id e) @ as_bytes (ae_tool_name e) @ as_bytes (ae_input_sha256 e)))"

fun map_verdict :: "governance_decision \<Rightarrow> verdict" where
  "map_verdict GAllow = Allow"
| "map_verdict GReview = Review"
| "map_verdict GBlock = Block"

definition event_run_id :: "stored_audit_event \<Rightarrow> string" where
  "event_run_id e =
     (case ae_session_id e of
        Some session \<Rightarrow> if session \<noteq> [] then ae_agent_id e @ '':'' @ session else ae_event_id e
      | None \<Rightarrow> ae_event_id e)"

text \<open>The ML evidence enters the body only when it holds digests or at least one score.\<close>

definition has_scores :: "json \<Rightarrow> bool" where
  "has_scores v = (case v of JObject fs \<Rightarrow> fs \<noteq> [] | _ \<Rightarrow> False)"

definition lift_evidence :: "reasoning_outcome option \<Rightarrow> model_digest list \<times> json option" where
  "lift_evidence evidence =
     (case evidence of
        Some ev \<Rightarrow>
          if ro_model_digests ev \<noteq> [] \<or> has_scores (ro_scores ev)
          then (map (\<lambda>(n, s). \<lparr>md_name = n, md_sha256 = s\<rparr>) (ro_model_digests ev), Some (ro_scores ev))
          else ([], None)
      | None \<Rightarrow> ([], None))"

definition drift_capture ::
  "crypto \<Rightarrow> bool \<Rightarrow> string \<Rightarrow> stored_audit_event \<Rightarrow> reasoning_outcome option \<Rightarrow> receipt_context \<Rightarrow>
   pipeline_inputs_capture_t option \<times> dictum_eval_trace option \<times> ml_inference_inputs_t option" where
  "drift_capture c capture ph e evidence ctx =
     (if capture then
        (Some \<lparr>pic_request_json = event_to_value e, pic_framework = ''iaga-sentinel-core'',
               pic_payload_sha256 = event_input_hash c e\<rparr>,
         Some (case rc_dictum_trace ctx of
             None \<Rightarrow> \<lparr>det_policy_hash = ph, det_policies_evaluated = 0, det_policies_fired = [],
                      det_evidence_sha256 = None\<rparr>
           | Some d \<Rightarrow> \<lparr>det_policy_hash = ph, det_policies_evaluated = dt_policies_evaluated d,
                        det_policies_fired = dt_policies_fired d, det_evidence_sha256 = dt_evidence_sha256 d\<rparr>),
         map_option (\<lambda>ev. \<lparr>mii_tokenized_digests =
             map (\<lambda>(n, s). \<lparr>mtd_model_name = n, mtd_tokenized_sha256 = s\<rparr>) (ro_model_digests ev)\<rparr>) evidence)
      else (None, None, None))"

definition receipt_body_for ::
  "crypto \<Rightarrow> bool \<Rightarrow> signed_receipt_logger \<Rightarrow> stored_audit_event \<Rightarrow> reasoning_outcome option \<Rightarrow>
   usage_data option \<Rightarrow> receipt_context \<Rightarrow> string option \<Rightarrow> u64 \<Rightarrow> receipt_body" where
  "receipt_body_for c capture lg e evidence use ctx parent sq =
     (let ph = (case rc_policy_hash ctx of None \<Rightarrow> lg_policy_hash lg | Some h \<Rightarrow> h);
          (digests, scores) = lift_evidence evidence;
          (pic, trace, mii) = drift_capture c capture ph e evidence ctx
      in \<lparr>run_id = event_run_id e, seq = sq, parent_hash = parent, input_hash = event_input_hash c e,
          policy_hash = ph, threat_feed_hash = rc_threat_feed_hash ctx, plugin_digests = [],
          model_digests = digests, ml_scores = scores, verdict = map_verdict (ae_decision e),
          reasons = ae_reasons e, risk_score = ae_risk_score e, timestamp = ae_timestamp e,
          signer_key_id = key_id (lg_signer lg), pipeline_inputs_capture = pic, apl_eval_trace = trace,
          ml_inference_inputs = mii, is_authoritative = Some False, usage = use\<rparr>)"

section \<open>Recording with retries\<close>

definition max_attempts :: nat where
  "max_attempts = 5"

fun retryable :: "receipt_error \<Rightarrow> bool" where
  "retryable (DuplicateSeq _) = True"
| "retryable (ChainViolation _ _) = True"
| "retryable _ = False"

text \<open>The \<open>for\<close> loop: whether the receipt was appended, and the store it leaves.\<close>

fun record_attempts ::
  "crypto \<Rightarrow> ('s \<Rightarrow> string \<Rightarrow> receipt_error + receipt option) \<Rightarrow> ('s \<Rightarrow> receipt \<Rightarrow> receipt_error + 's) \<Rightarrow>
   (nat \<Rightarrow> 's \<Rightarrow> 's) \<Rightarrow> local_disk_signer \<Rightarrow> (string option \<Rightarrow> u64 \<Rightarrow> receipt_body) \<Rightarrow> string \<Rightarrow>
   nat \<Rightarrow> nat \<Rightarrow> 's \<Rightarrow> bool \<times> 's" where
  "record_attempts c head put env sg mk rid 0 attempt s = (False, s)"
| "record_attempts c head put env sg mk rid (Suc n) attempt s =
     (let s0 = env (2 * attempt) s in
      case head s0 rid of
        Inl _ \<Rightarrow> (False, s0)
      | Inr h \<Rightarrow>
        (case chain_link c h of
          Inl _ \<Rightarrow> (False, s0)
        | Inr (parent, sq) \<Rightarrow>
          (case sign c sg (mk parent sq) of
            Inl _ \<Rightarrow> (False, s0)
          | Inr r \<Rightarrow>
            (let s1 = env (2 * attempt + 1) s0 in
             case put s1 r of
               Inr s2 \<Rightarrow> (True, s2)
             | Inl err \<Rightarrow>
                 if retryable err then record_attempts c head put env sg mk rid n (Suc attempt) s1
                 else (False, s1)))))"

definition note_drop :: "string \<Rightarrow> (string \<rightharpoonup> u32) \<Rightarrow> (string \<rightharpoonup> u32)" where
  "note_drop rid m = m(rid \<mapsto> (case m rid of None \<Rightarrow> 0 | Some n \<Rightarrow> n) + 1)"

definition record_event ::
  "crypto \<Rightarrow> ('s \<Rightarrow> string \<Rightarrow> receipt_error + receipt option) \<Rightarrow> ('s \<Rightarrow> receipt \<Rightarrow> receipt_error + 's) \<Rightarrow>
   (nat \<Rightarrow> 's \<Rightarrow> 's) \<Rightarrow> bool \<Rightarrow> signed_receipt_logger \<Rightarrow> stored_audit_event \<Rightarrow> reasoning_outcome option \<Rightarrow>
   usage_data option \<Rightarrow> receipt_context \<Rightarrow> 's \<Rightarrow> (sentinel_error + unit) \<times> signed_receipt_logger \<times> 's" where
  "record_event c head put env capture lg e evidence use ctx s =
     (let rid = event_run_id e;
          (recorded, s') = record_attempts c head put env (lg_signer lg)
                         (receipt_body_for c capture lg e evidence use ctx) rid max_attempts 0 s
      in if recorded then (Inr (), lg, s')
         else (let lg' = lg\<lparr>lg_dropped_runs := note_drop rid (lg_dropped_runs lg)\<rparr>
               in (if lg_fail_closed lg then Inl (StorageError rid) else Inr (), lg', s')))"

text \<open>The read surface: \<open>get_run_json\<close> before it is rendered.\<close>

record run_view =
  rv_receipts :: "receipt list"
  rv_verify :: "receipt_error + chain_status"
  rv_receipt_dropped :: bool
  rv_dropped_receipts :: u32
  rv_signer_key_id :: string
  rv_policy_hash :: string

definition get_run_view ::
  "('s \<Rightarrow> string \<Rightarrow> receipt_error + receipt list) \<Rightarrow> ('s \<Rightarrow> string \<Rightarrow> receipt_error + chain_status) \<Rightarrow>
   signed_receipt_logger \<Rightarrow> 's \<Rightarrow> string \<Rightarrow> receipt_error + run_view" where
  "get_run_view get_run vchain lg s rid =
     rbind (get_run s rid) (\<lambda>rs.
       (let n = (case lg_dropped_runs lg rid of None \<Rightarrow> 0 | Some n \<Rightarrow> n) in
        Inr \<lparr>rv_receipts = rs, rv_verify = vchain s rid, rv_receipt_dropped = (n > 0),
             rv_dropped_receipts = n, rv_signer_key_id = key_id (lg_signer lg),
             rv_policy_hash = lg_policy_hash lg\<rparr>))"

lemma receipt_body_for_simps [simp]:
  "run_id (receipt_body_for c cap lg e ev us ctx p q) = event_run_id e"
  "seq (receipt_body_for c cap lg e ev us ctx p q) = q"
  "parent_hash (receipt_body_for c cap lg e ev us ctx p q) = p"
  "verdict (receipt_body_for c cap lg e ev us ctx p q) = map_verdict (ae_decision e)"
  "reasons (receipt_body_for c cap lg e ev us ctx p q) = ae_reasons e"
  "ml_scores (receipt_body_for c cap lg e ev us ctx p q) = snd (lift_evidence ev)"
  "signer_key_id (receipt_body_for c cap lg e ev us ctx p q) = key_id (lg_signer lg)"
  by (simp_all add: receipt_body_for_def Let_def split: prod.splits)

section \<open>The loop against a shared store\<close>

text \<open>The states of the store the loop sees while none of its own appends succeeds.\<close>

fun env_states :: "(nat \<Rightarrow> 's \<Rightarrow> 's) \<Rightarrow> 's \<Rightarrow> nat \<Rightarrow> 's" where
  "env_states env s 0 = env 0 s"
| "env_states env s (Suc k) = env (Suc k) (env_states env s k)"

text \<open>What every attempt can rely on: the store is in order and the body can be signed there.\<close>

definition attempt_ready ::
  "crypto \<Rightarrow> ('s \<Rightarrow> bool) \<Rightarrow> ('s \<Rightarrow> string \<Rightarrow> receipt_error + receipt list) \<Rightarrow> local_disk_signer \<Rightarrow>
   (string option \<Rightarrow> u64 \<Rightarrow> receipt_body) \<Rightarrow> string \<Rightarrow> 's \<Rightarrow> bool" where
  "attempt_ready c good get_run sg mk rid s \<longleftrightarrow> good s \<and> (\<forall>rs. get_run s rid = Inr rs \<longrightarrow> length rs < 2 ^ 63) \<and>
     (\<forall>p q. run_id (mk p q) = rid \<and> seq (mk p q) = q \<and> parent_hash (mk p q) = p \<and>
        body_reads_back c (mk p q) \<and> signer_key_id (mk p q) = key_id sg \<and>
        is_ok (signing_bytes c (mk p q)))"

lemma sign_ok:
  assumes "signer_key_id b = key_id sg" "is_ok (signing_bytes c b)"
  shows "\<exists>r m. sign c sg b = Inr r \<and> body r = b \<and> signing_bytes c b = Inr m"
  using assms by (cases "signing_bytes c b") (auto simp: sign_def)

context receipt_store
begin

lemma attempt_body:
  assumes "attempt_ready c inv get_run sg mk rid s"
  obtains h p q r m rs where "get_run s rid = Inr rs" "head s rid = Inr h" "chain_link c h = Inr (p, q)"
    "sign c sg (mk p q) = Inr r" "body r = mk p q" "signing_bytes c (mk p q) = Inr m" "storable c r"
proof -
  from assms have inv: "inv s" by (simp add: attempt_ready_def)
  obtain rs where rs: "get_run s rid = Inr rs" "links_ok c rid rs" using get_run_links [OF inv] by blast
  with assms have len: "length rs < 2 ^ 63" by (simp add: attempt_ready_def)
  have h: "head s rid = Inr (last_receipt rs)" using head_last [OF inv rs(1)] .
  from head_links [OF inv h] obtain p q where pq: "chain_link c (last_receipt rs) = Inr (p, q)" by auto
  then have "q = of_nat (length rs)" using links_ok_next_seq [OF rs(2)] by (auto simp: chain_link_def)
  then have "unat q < 2 ^ 63" using len by (simp add: unat_of_nat take_bit_eq_mod)
  moreover obtain r m where r: "sign c sg (mk p q) = Inr r" "body r = mk p q" "signing_bytes c (mk p q) = Inr m"
    using assms sign_ok by (metis attempt_ready_def)
  ultimately have "storable c r" using assms by (simp add: storable_def attempt_ready_def)
  with rs(1) h pq r that show thesis by blast
qed

text \<open>If the head did not move between the read and the append, the append succeeds.\<close>

lemma quiet_append:
  assumes "inv s1" "storable c r" "head s0 rid = Inr h" "head s1 rid = head s0 rid" "run_id (body r) = rid"
    and "chain_link c h = Inr (parent_hash (body r), seq (body r))" "signing_bytes c (body r) = Inr m"
  shows "\<exists>s2. append s1 r = Inr s2"
  using own_link_accepted [of s1 r h m] assms by simp

text \<open>One quiet attempt among those left is enough for the loop to succeed.\<close>

lemma record_attempts_succeeds:
  assumes "\<And>k. k < 2 * n \<Longrightarrow> attempt_ready c inv get_run sg mk rid (\<sigma> k)"
    and "\<And>k. k < 2 * n \<Longrightarrow> \<sigma> k = env (2 * a + k) (if k = 0 then s else \<sigma> (k - 1))"
    and "j < n" "head (\<sigma> (2 * j + 1)) rid = head (\<sigma> (2 * j)) rid"
  shows "\<exists>s2 k p q r rs. record_attempts c head append env sg mk rid n a s = (True, s2) \<and> k \<le> j \<and>
     sign c sg (mk p q) = Inr r \<and> body r = mk p q \<and> inv s2 \<and> get_run (\<sigma> (2 * k + 1)) rid = Inr rs \<and>
     get_run s2 rid = Inr (rs @ [r]) \<and> (\<forall>rid'. rid' \<noteq> rid \<longrightarrow> get_run s2 rid' = get_run (\<sigma> (2 * k + 1)) rid')"
  using assms
proof (induction n arbitrary: a s \<sigma> j)
  case (Suc n)
  have s0: "\<sigma> 0 = env (2 * a) s" and s1: "\<sigma> 1 = env (2 * a + 1) (\<sigma> 0)"
    using Suc.prems(2) [of 0] Suc.prems(2) [of 1] by simp_all
  have ready: "attempt_ready c inv get_run sg mk rid (\<sigma> 0)" "attempt_ready c inv get_run sg mk rid (\<sigma> 1)"
    using Suc.prems(1) by simp_all
  obtain h p q r m where at: "head (\<sigma> 0) rid = Inr h" "chain_link c h = Inr (p, q)"
    "sign c sg (mk p q) = Inr r" "body r = mk p q" "signing_bytes c (mk p q) = Inr m" "storable c r"
    using attempt_body [OF ready(1)] by metis
  have mk: "run_id (body r) = rid" "seq (body r) = q" "parent_hash (body r) = p"
    using ready(1) at(4) by (simp_all add: attempt_ready_def)
  have inv1: "inv (\<sigma> 1)" using ready(2) by (simp add: attempt_ready_def)
  obtain rs where rs: "get_run (\<sigma> 1) rid = Inr rs" using get_run_links [OF inv1] by blast
  show ?case
  proof (cases "append (\<sigma> 1) r")
    case (Inr s2)
    then have "get_run s2 rid = Inr (rs @ [r])" "inv s2"
      using append_extends [OF inv1 at(6) Inr] append_inv [OF inv1 at(6) Inr] mk(1) rs by simp_all
    moreover have "record_attempts c head append env sg mk rid (Suc n) a s = (True, s2)"
      using s0 s1 at Inr by simp
    ultimately show ?thesis using at rs append_frame [OF inv1 at(6) Inr] mk(1)
      by (intro exI [of _ s2] exI [of _ "0::nat"] exI [of _ p] exI [of _ q] exI [of _ r] exI [of _ rs]) simp
  next
    case (Inl err)
    then have "retryable err" using append_race [OF inv1 _ Inl] at(4,5) by auto
    then have loop: "record_attempts c head append env sg mk rid (Suc n) a s =
        record_attempts c head append env sg mk rid n (Suc a) (\<sigma> 1)"
      using s0 s1 at Inl by simp
    have "j \<noteq> 0"
    proof
      assume "j = 0"
      then have "head (\<sigma> 1) rid = head (\<sigma> 0) rid" using Suc.prems(4) by simp
      from quiet_append [OF inv1 at(6) at(1) this mk(1)] at mk Inl show False by auto
    qed
    then obtain i where j: "j = Suc i" using not0_implies_Suc by blast
    have "\<exists>s2 k p q r rs. record_attempts c head append env sg mk rid n (Suc a) (\<sigma> 1) = (True, s2) \<and> k \<le> i \<and>
       sign c sg (mk p q) = Inr r \<and> body r = mk p q \<and> inv s2 \<and> get_run (\<sigma> (2 * k + 1 + 2)) rid = Inr rs \<and>
       get_run s2 rid = Inr (rs @ [r]) \<and> (\<forall>rid'. rid' \<noteq> rid \<longrightarrow> get_run s2 rid' = get_run (\<sigma> (2 * k + 1 + 2)) rid')"
    proof (rule Suc.IH [of "\<lambda>k. \<sigma> (k + 2)"])
      fix k
      assume "k < 2 * n"
      then show "attempt_ready c inv get_run sg mk rid (\<sigma> (k + 2))" using Suc.prems(1) by simp
      show "\<sigma> (k + 2) = env (2 * Suc a + k) (if k = 0 then \<sigma> 1 else \<sigma> (k - 1 + 2))"
        using Suc.prems(2) [of "k + 2"] \<open>k < 2 * n\<close> by (cases k) (simp_all add: algebra_simps)
    next
      show "i < n" using Suc.prems(3) j by simp
      show "head (\<sigma> (2 * i + 1 + 2)) rid = head (\<sigma> (2 * i + 2)) rid" using Suc.prems(4) j by simp
    qed
    then obtain s2 k p q r rs where "record_attempts c head append env sg mk rid n (Suc a) (\<sigma> 1) = (True, s2)"
      "k \<le> i" "sign c sg (mk p q) = Inr r" "body r = mk p q" "inv s2" "get_run (\<sigma> (2 * Suc k + 1)) rid = Inr rs"
      "get_run s2 rid = Inr (rs @ [r])" "\<forall>rid'. rid' \<noteq> rid \<longrightarrow> get_run s2 rid' = get_run (\<sigma> (2 * Suc k + 1)) rid'"
      by auto
    with loop j show ?thesis
      by (intro exI [of _ s2] exI [of _ "Suc k"] exI [of _ p] exI [of _ q] exI [of _ r] exI [of _ rs]) simp
  qed
qed simp

end

section \<open>What a call leaves behind\<close>

text \<open>A loop that gives up has changed nothing: the store is one the other writers produced.\<close>

lemma record_attempts_outcome:
  assumes "record_attempts c head put env sg mk rid n a s = (done1, s')"
    and "\<And>k. \<sigma> k = env (2 * a + k) (if k = 0 then s else \<sigma> (k - 1))"
  shows "if done1 then \<exists>k p q r. put (\<sigma> k) r = Inr s' \<and> sign c sg (mk p q) = Inr r
         else s' = s \<or> (\<exists>k. s' = \<sigma> k)"
  using assms
proof (induction n arbitrary: a s \<sigma>)
  case 0
  then show ?case by auto
next
  case (Suc n)
  have s0: "env (2 * a) s = \<sigma> 0" and s1: "env (Suc (2 * a)) (\<sigma> 0) = \<sigma> 1"
    using Suc.prems(2) [of 0] Suc.prems(2) [of 1] by simp_all
  have IH: "if done1 then \<exists>k p q r. put (\<sigma> (k + 2)) r = Inr s' \<and> sign c sg (mk p q) = Inr r
        else s' = \<sigma> 1 \<or> (\<exists>k. s' = \<sigma> (k + 2))"
    if "record_attempts c head put env sg mk rid n (Suc a) (\<sigma> 1) = (done1, s')"
  proof (rule Suc.IH [of _ _ "\<lambda>k. \<sigma> (k + 2)", OF that])
    show "\<sigma> (k + 2) = env (2 * Suc a + k) (if k = 0 then \<sigma> 1 else \<sigma> (k - 1 + 2))" for k
      using Suc.prems(2) [of "k + 2"] by (cases k) (simp_all add: algebra_simps)
  qed
  show ?case
    using Suc.prems(1) IH s0 s1
    by (simp add: Let_def split: sum.splits prod.splits if_splits) (metis One_nat_def)+
qed

end
