(* ===== verification/Logger_Properties.thy ===== *)
theory Logger_Properties
  imports Receipt_Properties Receipt_Logger
begin

text \<open>
  Properties of the receipt logger on the SQLite store, each with a run at a concrete input:
  what survives lost races, what a lost receipt leaves behind, and which runs events share.
\<close>

lemma env_states_chain: "env_states env s k = env (2 * 0 + k) (if k = 0 then s else env_states env s (k - 1))"
  by (cases k) simp_all

text \<open>
  C12. Recording survives lost races. Other writers may change the table before and during
  every attempt, as long as it stays well formed and the body for the event can be signed and reads
  back from its printed form (\<open>attempt_ready\<close>); if in one of the five attempts the head of this run did not move between
  the read and the append, \<open>record\<close> returns \<open>Ok\<close>, counts no drop, and extends the run (as it
  was when the append ran) by exactly one receipt, which carries the event's verdict and
  reasons and verifies under the logger's key, while no other run changes.
\<close>

theorem record_survives_races:
  assumes "hex_round_trip c" "ed25519_correct c" "j < max_attempts"
    and ready: "\<And>k. k < 2 * max_attempts \<Longrightarrow> attempt_ready c (table_inv c) (store_get_run c) (lg_signer lg)
          (receipt_body_for c capture lg e evidence use ctx) (event_run_id e) (env_states env tbl k)"
    and quiet: "store_head c (env_states env tbl (2 * j + 1)) (event_run_id e) =
          store_head c (env_states env tbl (2 * j)) (event_run_id e)"
  shows "\<exists>tbl' k r rs. record_event c (store_head c) (store_append c) env capture lg e evidence use ctx tbl =
       (Inr (), lg, tbl') \<and> k \<le> j \<and> store_get_run c (env_states env tbl (2 * k + 1)) (event_run_id e) = Inr rs \<and>
     store_get_run c tbl' (event_run_id e) = Inr (rs @ [r]) \<and>
     verdict (body r) = map_verdict (ae_decision e) \<and> reasons (body r) = ae_reasons e \<and>
     verify_receipt c r (verifying_key_of c (lg_signer lg)) = Inr () \<and>
     (\<forall>rid. rid \<noteq> event_run_id e \<longrightarrow> store_get_run c tbl' rid = store_get_run c (env_states env tbl (2 * k + 1)) rid)"
proof -
  let ?mk = "receipt_body_for c capture lg e evidence use ctx" and ?rid = "event_run_id e"
  obtain tbl' k p q r rs where
    loop: "record_attempts c (store_head c) (store_append c) env (lg_signer lg) ?mk ?rid max_attempts 0 tbl = (True, tbl')"
      "k \<le> j" "sign c (lg_signer lg) (?mk p q) = Inr r" "body r = ?mk p q"
      "store_get_run c (env_states env tbl (2 * k + 1)) ?rid = Inr rs" "store_get_run c tbl' ?rid = Inr (rs @ [r])"
      "\<forall>rid. rid \<noteq> ?rid \<longrightarrow> store_get_run c tbl' rid = store_get_run c (env_states env tbl (2 * k + 1)) rid"
    using sqlite.record_attempts_succeeds [OF ready env_states_chain assms(3) quiet] by blast
  then have "record_event c (store_head c) (store_append c) env capture lg e evidence use ctx tbl = (Inr (), lg, tbl')"
    by (simp add: record_event_def)
  moreover have "verify_receipt c r (verifying_key_of c (lg_signer lg)) = Inr ()"
    using sign_verifies [OF assms(1,2) loop(3)] by simp
  ultimately show ?thesis using loop by (intro exI [of _ tbl'] exI [of _ k] exI [of _ r] exI [of _ rs]) simp
qed

definition demo_event :: stored_audit_event where
  "demo_event =
     \<lparr>ae_event_id = ''e1'', ae_agent_id = ''a'', ae_tenant_id = None, ae_framework = ''f'', ae_action_type = Shell,
      ae_tool_name = ''sh'', ae_input_sha256 = ''00'', ae_decision = GBlock, ae_timestamp = ''t'',
      ae_reasons = [''no''], ae_review_status = NotRequired, ae_risk_score = 90, ae_usage = None,
      ae_session_id = Some ''s''\<rparr>"

definition demo_ctx :: receipt_context where
  "demo_ctx = \<lparr>rc_policy_hash = None, rc_threat_feed_hash = None, rc_dictum_trace = None\<rparr>"

definition demo_logger :: signed_receipt_logger where
  "demo_logger = new_logger demo_signer ''ph''"

lemma demo_signable: "is_ok (signing_bytes demo_crypto b)"
  by (simp add: signing_bytes_def demo_crypto_def)

lemma demo_env_states: "env_states (\<lambda>_ s. s) s k = s"
  by (induction k) simp_all

lemma demo_event_reads_back:
  "body_reads_back demo_crypto (receipt_body_for demo_crypto False demo_logger demo_event None None demo_ctx p q)"
  by (rule demo_reads_back) (simp_all add: receipt_body_for_def drift_capture_def lift_evidence_def)

lemma demo_ready:
  "attempt_ready demo_crypto (table_inv demo_crypto) (store_get_run demo_crypto) (lg_signer demo_logger)
     (receipt_body_for demo_crypto False demo_logger demo_event None None demo_ctx) (event_run_id demo_event)
     (env_states (\<lambda>_ s. s) [] k)"
  by (auto simp: attempt_ready_def demo_env_states table_inv_empty demo_event_reads_back demo_signable
      lift_evidence_def store_get_run_def select_run_def)

theorem record_survives_races_witness:
  "\<exists>tbl' k r rs. record_event demo_crypto (store_head demo_crypto) (store_append demo_crypto) (\<lambda>_ s. s) False
       demo_logger demo_event None None demo_ctx [] = (Inr (), demo_logger, tbl') \<and> k \<le> 0 \<and>
     store_get_run demo_crypto (env_states (\<lambda>_ s. s) [] (2 * k + 1)) (event_run_id demo_event) = Inr rs \<and>
     store_get_run demo_crypto tbl' (event_run_id demo_event) = Inr (rs @ [r]) \<and>
     verdict (body r) = map_verdict (ae_decision demo_event) \<and> reasons (body r) = ae_reasons demo_event \<and>
     verify_receipt demo_crypto r (verifying_key_of demo_crypto (lg_signer demo_logger)) = Inr () \<and>
     (\<forall>rid. rid \<noteq> event_run_id demo_event \<longrightarrow>
        store_get_run demo_crypto tbl' rid = store_get_run demo_crypto (env_states (\<lambda>_ s. s) [] (2 * k + 1)) rid)"
  by (rule record_survives_races [OF demo_hex_round_trip demo_ed25519, of 0])
     (use demo_ready in \<open>simp_all add: demo_env_states max_attempts_def\<close>)

text \<open>
  C13. No receipt is lost without a trace, whatever the store does. Either the call returns
  \<open>Ok\<close>, leaves the drop registry alone and the store is the result of appending a receipt
  this logger signed for the event; or nothing of its own was stored, the drop counter of
  the run is one higher than before and that of no other run has changed, the call fails exactly in
  fail-closed mode, and the read surface shows the new count (and the gap, short of a counter wrap).
\<close>

definition drops_of :: "signed_receipt_logger \<Rightarrow> string \<Rightarrow> u32" where
  "drops_of lg rid = (case lg_dropped_runs lg rid of None \<Rightarrow> 0 | Some n \<Rightarrow> n)"

theorem record_outcome:
  assumes "record_event c head put env capture lg e evidence use ctx s = (res, lg', s')"
  shows "(res = Inr () \<and> lg' = lg \<and>
      (\<exists>k p q r. put (env_states env s k) r = Inr s' \<and>
         sign c (lg_signer lg) (receipt_body_for c capture lg e evidence use ctx p q) = Inr r)) \<or>
    ((s' = s \<or> (\<exists>k. s' = env_states env s k)) \<and> (res = Inr () \<longleftrightarrow> \<not> lg_fail_closed lg) \<and>
      lg' = lg\<lparr>lg_dropped_runs := (lg_dropped_runs lg)(event_run_id e \<mapsto> drops_of lg (event_run_id e) + 1)\<rparr> \<and>
      (\<forall>get_run vchain v. get_run_view get_run vchain lg' s' (event_run_id e) = Inr v \<longrightarrow>
         rv_dropped_receipts v = drops_of lg (event_run_id e) + 1 \<and>
         (drops_of lg (event_run_id e) \<noteq> - 1 \<longrightarrow> rv_receipt_dropped v)))"
proof -
  obtain ok where loop: "record_attempts c head put env (lg_signer lg) (receipt_body_for c capture lg e evidence use ctx)
      (event_run_id e) max_attempts 0 s = (ok, s')"
    and res: "res = (if ok \<or> \<not> lg_fail_closed lg then Inr () else Inl (StorageError (event_run_id e)))"
      "lg' = (if ok then lg else lg\<lparr>lg_dropped_runs := note_drop (event_run_id e) (lg_dropped_runs lg)\<rparr>)"
    using assms by (auto simp: record_event_def Let_def split: prod.splits if_splits)
  have counted: "0 < n + 1 \<longleftrightarrow> n \<noteq> - 1" for n :: u32
    by (simp add: word_neq_0_conv [symmetric] add_eq_0_iff2)
  note out = record_attempts_outcome [where \<sigma> = "env_states env s", OF loop env_states_chain]
  show ?thesis
  proof (cases ok)
    case True
    then show ?thesis using out res by auto
  next
    case False
    then have lg': "lg' = lg\<lparr>lg_dropped_runs := (lg_dropped_runs lg)(event_run_id e \<mapsto> drops_of lg (event_run_id e) + 1)\<rparr>"
      using res(2) by (simp add: note_drop_def drops_of_def)
    moreover have "rv_dropped_receipts v = drops_of lg (event_run_id e) + 1 \<and> (drops_of lg (event_run_id e) \<noteq> - 1 \<longrightarrow> rv_receipt_dropped v)"
      if "get_run_view get_run vchain lg' s' (event_run_id e) = Inr v" for get_run vchain v
      using that by (auto simp: lg' get_run_view_def Let_def counted)
    ultimately show ?thesis using False out res(1) by auto
  qed
qed

theorem record_outcome_witness:
  "fst (record_event demo_crypto (\<lambda>_ _. Inl Hex) (\<lambda>s _. Inr s) (\<lambda>_ s. s) False
      ((with_fail_closed True demo_logger)\<lparr>lg_dropped_runs := [''a:s'' \<mapsto> 4]\<rparr>) demo_event None None demo_ctx (0::nat)) \<noteq> Inr ()
   \<and> lg_dropped_runs (fst (snd (record_event demo_crypto (\<lambda>_ _. Inl Hex) (\<lambda>s _. Inr s) (\<lambda>_ s. s) False
      ((with_fail_closed True demo_logger)\<lparr>lg_dropped_runs := [''a:s'' \<mapsto> 4]\<rparr>) demo_event None None demo_ctx (0::nat)))) ''a:s'' = Some 5"
proof -
  let ?lg = "(with_fail_closed True demo_logger)\<lparr>lg_dropped_runs := [''a:s'' \<mapsto> 4]\<rparr>"
  obtain res lg' s' where r: "record_event demo_crypto (\<lambda>_ _. Inl Hex) (\<lambda>s _. Inr s) (\<lambda>_ s. s) False ?lg demo_event None None demo_ctx (0::nat) = (res, lg', s')"
    by (metis prod_cases3)
  have rid: "event_run_id demo_event = ''a:s''" by (simp add: event_run_id_def demo_event_def)
  have "res \<noteq> Inr ()"
    using r by (auto simp: record_event_def max_attempts_def eval_nat_numeral demo_logger_def new_logger_def with_fail_closed_def Let_def)
  with record_outcome [OF r] show ?thesis
    by (auto simp: r rid drops_of_def)
qed

text \<open>
  Sessions of different agents are recorded in different runs, provided no agent id
  contains a colon: the run id then determines the agent and the session.
\<close>

theorem run_id_separates_sessions:
  assumes "ae_session_id e = Some s" "s \<noteq> []" "ae_session_id e' = Some s'" "s' \<noteq> []"
    and "CHR '':'' \<notin> set (ae_agent_id e)" "CHR '':'' \<notin> set (ae_agent_id e')"
    and "event_run_id e = event_run_id e'"
  shows "ae_agent_id e = ae_agent_id e' \<and> s = s'"
proof -
  have "ae_agent_id e @ CHR '':'' # s = ae_agent_id e' @ CHR '':'' # s'"
    using assms by (simp add: event_run_id_def)
  with assms(5,6) show ?thesis by (simp add: split_at_separator)
qed

theorem run_id_separates_sessions_witness:
  "ae_agent_id demo_event = ae_agent_id (demo_event\<lparr>ae_event_id := ''e2''\<rparr>) \<and> ''s'' = ''s''"
  by (rule run_id_separates_sessions [of demo_event _ "demo_event\<lparr>ae_event_id := ''e2''\<rparr>"])
     (simp_all add: demo_event_def event_run_id_def)

text \<open>Without the proviso two agents share a run: the separator is not escaped.\<close>

lemma run_id_collides:
  "\<exists>e e'. ae_agent_id e \<noteq> ae_agent_id e' \<and> event_run_id e = event_run_id e'"
  by (rule exI [of _ "demo_event\<lparr>ae_agent_id := ''a:b'', ae_session_id := Some ''c''\<rparr>"],
      rule exI [of _ "demo_event\<lparr>ae_agent_id := ''a'', ae_session_id := Some ''b:c''\<rparr>"])
     (simp add: event_run_id_def)

text \<open>The digest of an event does not see the border between the agent id and the tool name.\<close>

lemma input_hash_collides:
  "event_input_hash c (demo_event\<lparr>ae_agent_id := ''ab'', ae_tool_name := ''c''\<rparr>) =
   event_input_hash c (demo_event\<lparr>ae_agent_id := ''a'', ae_tool_name := ''bc''\<rparr>)"
  by (simp add: event_input_hash_def as_bytes_def)

end
