(* ===== verification/Dictum_Syntax.thy ===== *)
theory Dictum_Syntax
  imports Json_Model
begin

text \<open>
  The abstract syntax of Dictum policies (\<open>crates/iaga-sentinel-dictum/src/ast.rs\<close>), its errors
  (\<open>errors.rs\<close>), its tokens (\<open>lexer.rs\<close>) and its structural validator with the path collector
  (\<open>validator.rs\<close>).
\<close>

section \<open>Abstract syntax\<close>

datatype dverdict = DAllow | DReview | DBlock

datatype lit = LStr string | LInt i64 | LBool bool

datatype binop = BEq | BNeq | BLt | BGt | BLe | BGe | BAnd | BOr

datatype unop = UNot

datatype expr =
    Lit lit
  | Path "string list"
  | Call string "expr list"
  | Binary binop expr expr
  | Unary unop expr
  | Membership bool expr expr

record dictum_action =
  act_verdict :: dverdict
  act_reason :: "string option"
  act_evidence :: "expr option"

record dictum_policy =
  pol_name :: string
  pol_when :: expr
  pol_action :: dictum_action

record dictum_program =
  policies :: "dictum_policy list"

text \<open>The number of nodes of an expression: what a complete evaluation visits.\<close>

fun nodes :: "expr \<Rightarrow> nat" where
  "nodes (Lit _) = 1"
| "nodes (Path _) = 1"
| "nodes (Call _ args) = 1 + sum_list (map nodes args)"
| "nodes (Binary _ l r) = 1 + nodes l + nodes r"
| "nodes (Unary _ e) = 1 + nodes e"
| "nodes (Membership _ n h) = 1 + nodes n + nodes h"

section \<open>Tokens and syntax errors\<close>

datatype token =
    TkPolicy | TkWhen | TkThen | TkAllow | TkReview | TkBlock | TkReason | TkEvidence
  | TkAnd | TkOr | TkNot | TkIn | TkTrue | TkFalse
  | TkLBrace | TkRBrace | TkLParen | TkRParen | TkComma | TkDot
  | TkEq | TkEqEq | TkNotEq | TkLtEq | TkGtEq | TkLt | TkGt
  | TkStr string | TkInt i64 | TkIdent string

text \<open>The data of the parser's messages, which are built with \<open>format!\<close>.\<close>

datatype parse_fault =
    UnexpectedCharacter string
  | Expected token "token option"
  | ExpectedPolicyName
  | ExpectedVerdict "token option"
  | ReasonExpectsString
  | UnknownAttr "token option"
  | ExpectedIdentAfterDot
  | UnexpectedToken "token option"

section \<open>The validator\<close>

definition builtin_arities :: "(string \<times> nat) list" where
  "builtin_arities =
     [(''contains'', 2), (''starts_with'', 2), (''ends_with'', 2), (''len'', 1), (''lower'', 1), (''upper'', 1),
      (''secret_ref'', 1), (''url_host'', 1), (''timestamp'', 1), (''sha256'', 1)]"

datatype type_fault =
    EmptyPolicyName
  | DuplicatePolicyName string
  | EmptyPath
  | BuiltinTakes string nat nat

fun validate_expr :: "expr \<Rightarrow> type_fault + unit" where
  "validate_expr (Lit _) = Inr ()"
| "validate_expr (Path segs) = (if segs = [] then Inl EmptyPath else Inr ())"
| "validate_expr (Call name args) =
     (case map_of builtin_arities name of
        Some n \<Rightarrow> if length args \<noteq> n then Inl (BuiltinTakes name n (length args))
                  else rbind (collect_results validate_expr args) (\<lambda>_. Inr ())
      | None \<Rightarrow> rbind (collect_results validate_expr args) (\<lambda>_. Inr ()))"
| "validate_expr (Binary _ l r) = rbind (validate_expr l) (\<lambda>_. validate_expr r)"
| "validate_expr (Unary _ inner) = validate_expr inner"
| "validate_expr (Membership _ n h) = rbind (validate_expr n) (\<lambda>_. validate_expr h)"

text \<open>The policy loop; \<open>seen\<close> is the set of names met so far.\<close>

fun validate_policies :: "string list \<Rightarrow> dictum_policy list \<Rightarrow> type_fault + unit" where
  "validate_policies seen [] = Inr ()"
| "validate_policies seen (p # ps) =
     (if str_trim (pol_name p) = [] then Inl EmptyPolicyName
      else if pol_name p \<in> set seen then Inl (DuplicatePolicyName (pol_name p))
      else rbind (validate_expr (pol_when p)) (\<lambda>_.
           rbind (case act_evidence (pol_action p) of None \<Rightarrow> Inr () | Some ev \<Rightarrow> validate_expr ev) (\<lambda>_.
             validate_policies (pol_name p # seen) ps)))"

definition validate :: "dictum_program \<Rightarrow> type_fault + unit" where
  "validate prog = validate_policies [] (policies prog)"

fun collect_expr_paths :: "expr \<Rightarrow> string list list" where
  "collect_expr_paths (Lit _) = []"
| "collect_expr_paths (Path segs) = [segs]"
| "collect_expr_paths (Call _ args) = concat (map collect_expr_paths args)"
| "collect_expr_paths (Binary _ l r) = collect_expr_paths l @ collect_expr_paths r"
| "collect_expr_paths (Unary _ inner) = collect_expr_paths inner"
| "collect_expr_paths (Membership _ n h) = collect_expr_paths n @ collect_expr_paths h"

definition collect_policy_paths :: "dictum_policy \<Rightarrow> string list list" where
  "collect_policy_paths p = collect_expr_paths (pol_when p) @
     (case act_evidence (pol_action p) of None \<Rightarrow> [] | Some ev \<Rightarrow> collect_expr_paths ev)"

definition collect_paths :: "dictum_program \<Rightarrow> string list list" where
  "collect_paths prog = concat (map collect_policy_paths (policies prog))"

subsection \<open>What a validated program looks like\<close>

text \<open>All calls inside an expression, with their argument counts.\<close>

fun calls :: "expr \<Rightarrow> (string \<times> nat) list" where
  "calls (Lit _) = []"
| "calls (Path _) = []"
| "calls (Call f args) = (f, length args) # concat (map calls args)"
| "calls (Binary _ l r) = calls l @ calls r"
| "calls (Unary _ e) = calls e"
| "calls (Membership _ n h) = calls n @ calls h"

definition arity_ok :: "string \<times> nat \<Rightarrow> bool" where
  "arity_ok fk = (case map_of builtin_arities (fst fk) of None \<Rightarrow> True | Some n \<Rightarrow> snd fk = n)"

definition policy_calls :: "dictum_policy \<Rightarrow> (string \<times> nat) list" where
  "policy_calls p = calls (pol_when p) @ (case act_evidence (pol_action p) of None \<Rightarrow> [] | Some ev \<Rightarrow> calls ev)"

lemma is_ok_unit: "is_ok r \<longleftrightarrow> r = Inr ()"
  by (cases r) auto

lemma validate_expr_iff:
  "validate_expr e = Inr () \<longleftrightarrow>
     [] \<notin> set (collect_expr_paths e) \<and> (\<forall>c \<in> set (calls e). arity_ok c)"
proof (induction e)
  case (Call f args)
  have "(\<exists>ys. collect_results validate_expr args = Inr ys) \<longleftrightarrow> (\<forall>a \<in> set args. validate_expr a = Inr ())"
    by (simp add: collect_results_ok is_ok_unit)
  moreover have "arity_ok (f, length args) \<longleftrightarrow>
      map_of builtin_arities f = None \<or> map_of builtin_arities f = Some (length args)"
    by (auto simp: arity_ok_def split: option.splits)
  ultimately show ?case using Call.IH by (cases "map_of builtin_arities f") auto
qed auto

lemma validate_policies_iff:
  "validate_policies seen ps = Inr () \<longleftrightarrow>
     distinct (map pol_name ps) \<and> set (map pol_name ps) \<inter> set seen = {} \<and>
     (\<forall>p \<in> set ps. str_trim (pol_name p) \<noteq> [] \<and> validate_expr (pol_when p) = Inr () \<and>
        (\<forall>ev. act_evidence (pol_action p) = Some ev \<longrightarrow> validate_expr ev = Inr ()))"
  by (induction ps arbitrary: seen) (auto split: option.splits)

end
