(* ===== verification/Rust_Strings.thy ===== *)
theory Rust_Strings
  imports Sentinel_Prelude
begin

text \<open>
  The string operations of Rust's standard library that the components use: splitting at a
  character, at \<open>://\<close> and at white space, and comparison up to ASCII case. A string is its
  UTF-8 bytes; a match of an ASCII character or of a whole UTF-8 encoding can only begin at a
  character boundary.
\<close>

section \<open>Splitting\<close>

text \<open>\<open>split_once\<close> and \<open>rsplit_once\<close> on one character, and \<open>split_once\<close> on \<open>://\<close>.\<close>

definition split_once :: "char \<Rightarrow> string \<Rightarrow> (string \<times> string) option" where
  "split_once ch s = (if ch \<in> set s then Some (takeWhile (\<lambda>x. x \<noteq> ch) s, tl (dropWhile (\<lambda>x. x \<noteq> ch) s)) else None)"

definition rsplit_once :: "char \<Rightarrow> string \<Rightarrow> (string \<times> string) option" where
  "rsplit_once ch s = map_option (\<lambda>(a, b). (rev b, rev a)) (split_once ch (rev s))"

fun split_scheme :: "string \<Rightarrow> string option" where
  "split_scheme [] = None"
| "split_scheme (x # xs) = (if prefix ''://'' (x # xs) then Some (drop 3 (x # xs)) else split_scheme xs)"

text \<open>\<open>str::find\<close> of a pattern: the offset of its first occurrence.\<close>

fun str_find :: "string \<Rightarrow> string \<Rightarrow> nat option" where
  "str_find pat [] = (if pat = [] then Some 0 else None)"
| "str_find pat (x # xs) = (if prefix pat (x # xs) then Some 0 else map_option Suc (str_find pat xs))"

section \<open>White space\<close>

definition white_space_at :: "string \<Rightarrow> string option" where
  "white_space_at s = find (\<lambda>w. prefix w s) white_spaces"

text \<open>\<open>split_whitespace\<close>: the words between white space; \<open>cur\<close> is the word being read.\<close>

function split_words :: "string \<Rightarrow> string \<Rightarrow> string list" where
  "split_words cur [] = (if cur = [] then [] else [cur])"
| "split_words cur (x # xs) =
     (case white_space_at (x # xs) of
        Some w \<Rightarrow> (if cur = [] then [] else [cur]) @ split_words [] (drop (length w - 1) xs)
      | None \<Rightarrow> split_words (cur @ [x]) xs)"
  by pat_completeness auto
termination by (relation "measure (\<lambda>(cur, s). length s)") auto

definition split_whitespace :: "string \<Rightarrow> string list" where
  "split_whitespace s = split_words [] s"

definition first_word :: "string \<Rightarrow> string" where
  "first_word s = (case split_whitespace s of w # _ \<Rightarrow> w | [] \<Rightarrow> [])"

section \<open>ASCII case\<close>

definition eq_ignore_ascii_case :: "string \<Rightarrow> string \<Rightarrow> bool" where
  "eq_ignore_ascii_case a b \<longleftrightarrow> to_ascii_lowercase a = to_ascii_lowercase b"

definition is_ascii_alphanumeric :: "char \<Rightarrow> bool" where
  "is_ascii_alphanumeric ch =
     (let n = (of_char ch :: nat) in (48 \<le> n \<and> n \<le> 57) \<or> (65 \<le> n \<and> n \<le> 90) \<or> (97 \<le> n \<and> n \<le> 122))"

definition is_ascii :: "string \<Rightarrow> bool" where
  "is_ascii s \<longleftrightarrow> (\<forall>ch \<in> set s. (of_char ch :: nat) < 128)"

text \<open>\<open>str::to_lowercase\<close>: ASCII letters, and a table for the rest of Unicode.\<close>

definition lowercase :: "(string \<Rightarrow> string) \<Rightarrow> string \<Rightarrow> string" where
  "lowercase tbl s = (if is_ascii s then to_ascii_lowercase s else tbl s)"

lemma ascii_lower_char_idem [simp]: "ascii_lower_char (ascii_lower_char ch) = ascii_lower_char ch"
proof (cases "65 \<le> (of_char ch :: nat) \<and> (of_char ch :: nat) \<le> 90")
  case True
  then have "(of_char (char_of ((of_char ch :: nat) + 32) :: char) :: nat) = of_char ch + 32" by simp
  with True show ?thesis by (simp add: ascii_lower_char_def)
qed (auto simp: ascii_lower_char_def)

lemma to_ascii_lowercase_idem [simp]: "to_ascii_lowercase (to_ascii_lowercase s) = to_ascii_lowercase s"
  by (simp add: to_ascii_lowercase_def)

lemma to_ascii_lowercase_Nil [simp]: "to_ascii_lowercase s = [] \<longleftrightarrow> s = []"
  by (simp add: to_ascii_lowercase_def)

lemma eq_ignore_ascii_case_refl [simp]: "eq_ignore_ascii_case a a"
  by (simp add: eq_ignore_ascii_case_def)

section \<open>Printing\<close>

function show_nat :: "nat \<Rightarrow> string" where
  "show_nat n = (if n < 10 then [char_of (48 + n)] else show_nat (n div 10) @ [char_of (48 + n mod 10)])"
  by pat_completeness auto
termination by (relation "measure id") auto

declare show_nat.simps [simp del]

fun join_with :: "string \<Rightarrow> string list \<Rightarrow> string" where
  "join_with sep [] = []"
| "join_with sep [s] = s"
| "join_with sep (s # t # ss) = s @ sep @ join_with sep (t # ss)"

text \<open>\<open>str::split\<close> on the characters that satisfy a predicate; \<open>cur\<close> is the piece being read.\<close>

fun split_on :: "(char \<Rightarrow> bool) \<Rightarrow> string \<Rightarrow> string \<Rightarrow> string list" where
  "split_on P cur [] = [cur]"
| "split_on P cur (x # xs) = (if P x then cur # split_on P [] xs else split_on P (cur @ [x]) xs)"

section \<open>Words without white space\<close>

lemma white_spaces_head: "w \<in> set white_spaces \<Longrightarrow> w \<noteq> [] \<and> \<not> visible (hd w)"
  using white_spaces_invisible by (auto simp: list_all_iff)

lemma white_space_at_visible: "visible x \<Longrightarrow> white_space_at (x # xs) = None"
proof -
  assume x: "visible x"
  have "\<not> prefix w (x # xs)" if "w \<in> set white_spaces" for w
    using white_spaces_head [OF that] x by (cases w) auto
  then show ?thesis by (simp add: white_space_at_def find_None_iff)
qed

lemma white_space_at_code [code]:
  "white_space_at s = (if s \<noteq> [] \<and> visible (hd s) then None else find (\<lambda>w. prefix w s) white_spaces)"
  by (cases s) (auto simp: white_space_at_visible, simp_all add: white_space_at_def)

lemma split_words_visible:
  "\<forall>ch \<in> set s. visible ch \<Longrightarrow> split_words cur s = (if cur @ s = [] then [] else [cur @ s])"
  by (induction s arbitrary: cur) (auto simp: white_space_at_visible)

lemma first_word_visible: "\<forall>ch \<in> set s. visible ch \<Longrightarrow> first_word s = s"
  by (simp add: first_word_def split_whitespace_def split_words_visible)

lemma str_find_scheme: "CHR '':'' \<notin> set s \<Longrightarrow> str_find ''://'' (s @ ''://'' @ r) = Some (length s)"
  by (induction s) auto

section \<open>Splitting at a given place\<close>

lemma split_scheme_at: "CHR '':'' \<notin> set s \<Longrightarrow> split_scheme (s @ ''://'' @ r) = Some r"
  by (induction s) auto

lemma takeWhile_upto: "(\<forall>x \<in> set xs. P x) \<Longrightarrow> \<not> P y \<Longrightarrow> takeWhile P (xs @ y # ys) = xs"
  by (induction xs) auto

lemma split_once_at: "ch \<notin> set xs \<Longrightarrow> split_once ch (xs @ ch # ys) = Some (xs, ys)"
proof -
  assume ch: "ch \<notin> set xs"
  have "takeWhile (\<lambda>x. x \<noteq> ch) (xs @ ch # ys) = xs" by (rule takeWhile_upto) (use ch in auto)
  moreover have "dropWhile (\<lambda>x. x \<noteq> ch) (xs @ ch # ys) = ch # ys" using ch by (subst dropWhile_append2) auto
  ultimately show ?thesis by (simp add: split_once_def)
qed

lemma rsplit_once_at: "ch \<notin> set ys \<Longrightarrow> rsplit_once ch (xs @ ch # ys) = Some (xs, ys)"
  using split_once_at [of ch "rev ys" "rev xs"] by (simp add: rsplit_once_def)

lemma split_once_none: "ch \<notin> set xs \<Longrightarrow> split_once ch xs = None"
  by (simp add: split_once_def)

lemma rsplit_once_none: "ch \<notin> set xs \<Longrightarrow> rsplit_once ch xs = None"
  by (simp add: rsplit_once_def split_once_none)

lemma takeWhile_stop:
  "(\<forall>x \<in> set xs. P x) \<Longrightarrow> ys = [] \<or> \<not> P (hd ys) \<Longrightarrow> takeWhile P (xs @ ys) = xs"
  by (cases ys) (auto simp: takeWhile_upto takeWhile_eq_all_conv)

end
