(* ===== verification/Dictum_Eval.thy ===== *)
theory Dictum_Eval
  imports Dictum_Syntax Rust_Strings "HOL-Library.List_Lexorder" "HOL-Library.Char_ord" "HOL-Library.Log_Nat"
begin

text \<open>
  The tree-walk evaluator of Dictum (\<open>crates/iaga-sentinel-dictum/src/eval.rs\<close>) and the credential
  detector behind \<open>secret_ref\<close> (\<open>secrets.rs\<close>). The evaluator threads an instruction budget;
  date parsing, hashing, JSON printing, regular expressions and the Unicode case tables are
  parameters.
\<close>

section \<open>Doubles\<close>

datatype ordering = Less | Equal | Greater

text \<open>\<open>as f64\<close> on an integer: round to 53 bits, ties to even.\<close>

definition int_to_f64 :: "int \<Rightarrow> f64" where
  "int_to_f64 n =
     (let a = \<bar>n\<bar>; k = nat (bitlen a - 53); q = a div 2 ^ k; r = a mod 2 ^ k;
          up = (k > 0 \<and> (2 * r > 2 ^ k \<or> (2 * r = 2 ^ k \<and> odd q)));
          m = (q + (if up then 1 else 0)) * 2 ^ k
      in Fin (of_int (sgn n * m)))"

fun f64_eq :: "f64 \<Rightarrow> f64 \<Rightarrow> bool" where
  "f64_eq NaN _ = False"
| "f64_eq _ NaN = False"
| "f64_eq PInf y = (y = PInf)"
| "f64_eq NInf y = (y = NInf)"
| "f64_eq (Fin x) y = (y = Fin x)"

fun f64_cmp :: "f64 \<Rightarrow> f64 \<Rightarrow> ordering option" where
  "f64_cmp NaN _ = None"
| "f64_cmp _ NaN = None"
| "f64_cmp PInf y = Some (if y = PInf then Equal else Greater)"
| "f64_cmp NInf y = Some (if y = NInf then Equal else Less)"
| "f64_cmp (Fin x) PInf = Some Less"
| "f64_cmp (Fin x) NInf = Some Greater"
| "f64_cmp (Fin x) (Fin y) = Some (if x < y then Less else if x = y then Equal else Greater)"

section \<open>Values\<close>

datatype dvalue = VNull | VBool bool | VInt i64 | VFloat f64 | VStr string | VList "dvalue list"

fun is_truthy :: "dvalue \<Rightarrow> bool" where
  "is_truthy (VBool b) = b"
| "is_truthy VNull = False"
| "is_truthy (VInt n) = (n \<noteq> 0)"
| "is_truthy (VFloat f) = (f \<noteq> NaN \<and> f \<noteq> Fin 0)"
| "is_truthy (VStr s) = (s \<noteq> [])"
| "is_truthy (VList xs) = (xs \<noteq> [])"

text \<open>The derived \<open>PartialEq\<close>, on which \<open>Vec::contains\<close> rests: no double equals a NaN.\<close>

fun value_eq :: "dvalue \<Rightarrow> dvalue \<Rightarrow> bool" where
  "value_eq VNull y = (y = VNull)"
| "value_eq (VBool a) y = (y = VBool a)"
| "value_eq (VInt a) y = (y = VInt a)"
| "value_eq (VFloat a) y = (case y of VFloat b \<Rightarrow> f64_eq a b | _ \<Rightarrow> False)"
| "value_eq (VStr a) y = (y = VStr a)"
| "value_eq (VList xs) y = (case y of VList ys \<Rightarrow> list_all2 value_eq xs ys | _ \<Rightarrow> False)"

definition values_eq :: "dvalue \<Rightarrow> dvalue \<Rightarrow> bool" where
  "values_eq a b =
     (case (a, b) of
        (VInt x, VInt y) \<Rightarrow> x = y
      | (VFloat x, VFloat y) \<Rightarrow> f64_eq x y
      | (VInt x, VFloat y) \<Rightarrow> f64_eq (int_to_f64 (sint x)) y
      | (VFloat x, VInt y) \<Rightarrow> f64_eq x (int_to_f64 (sint y))
      | _ \<Rightarrow> value_eq a b)"

section \<open>Errors and the budget\<close>

datatype eval_fault =
    InNeedle
  | InHaystack
  | CannotCompare dvalue dvalue
  | NanComparison
  | SecretRefArity nat
  | BadCall string nat
  | BadInstant string

datatype dictum_error =
    ParseError u32 u32 parse_fault
  | TypeFault type_fault
  | EvalError eval_fault
  | BudgetExhausted u64

record eval_budget =
  remaining :: u64
  total :: u64

definition new_budget :: "u64 \<Rightarrow> eval_budget" where
  "new_budget n = \<lparr>remaining = n, total = 0\<rparr>"

definition default_budget :: eval_budget where
  "default_budget = new_budget 10000"

text \<open>An evaluation step: it may fail, and it updates the budget in either case.\<close>

type_synonym 'a ev = "eval_budget \<Rightarrow> (dictum_error + 'a) \<times> eval_budget"

definition eret :: "'a \<Rightarrow> 'a ev" where
  "eret x = (\<lambda>b. (Inr x, b))"

definition elift :: "dictum_error + 'a \<Rightarrow> 'a ev" where
  "elift r = (\<lambda>b. (r, b))"

definition ebind :: "'a ev \<Rightarrow> ('a \<Rightarrow> 'b ev) \<Rightarrow> 'b ev" where
  "ebind m f = (\<lambda>b. case m b of (Inl e, b') \<Rightarrow> (Inl e, b') | (Inr x, b') \<Rightarrow> f x b')"

definition tick :: "unit ev" where
  "tick = (\<lambda>b. if remaining b = 0 then (Inl (BudgetExhausted (total b)), b)
               else (Inr (), b\<lparr>remaining := remaining b - 1, total := total b + 1\<rparr>))"

section \<open>Reading the context\<close>

definition num_as_i64 :: "jnum \<Rightarrow> i64 option" where
  "num_as_i64 n =
     (case n of
        PosInt w \<Rightarrow> if unat w < 2 ^ 63 then Some w else None
      | NegInt i \<Rightarrow> Some (of_int i)
      | Float _ \<Rightarrow> None)"

definition num_as_f64 :: "jnum \<Rightarrow> f64 option" where
  "num_as_f64 n =
     (case n of PosInt w \<Rightarrow> Some (int_to_f64 (uint w)) | NegInt i \<Rightarrow> Some (int_to_f64 i) | Float f \<Rightarrow> Some f)"

fun json_to_value :: "json \<Rightarrow> dvalue" where
  "json_to_value JNull = VNull"
| "json_to_value (JBool b) = VBool b"
| "json_to_value (JNumber n) =
     (case num_as_i64 n of
        Some i \<Rightarrow> VInt i
      | None \<Rightarrow> (case num_as_f64 n of Some f \<Rightarrow> VFloat f | None \<Rightarrow> VNull))"
| "json_to_value (JString s) = VStr s"
| "json_to_value (JArray xs) = VList (map json_to_value xs)"
| "json_to_value (JObject _) = VNull"

fun value_to_json :: "dvalue \<Rightarrow> json" where
  "value_to_json VNull = JNull"
| "value_to_json (VBool b) = JBool b"
| "value_to_json (VInt n) = JNumber (if sint n < 0 then NegInt (sint n) else PosInt n)"
| "value_to_json (VFloat f) = (case f of Fin _ \<Rightarrow> JNumber (Float f) | _ \<Rightarrow> JNull)"
| "value_to_json (VStr s) = JString s"
| "value_to_json (VList xs) = JArray (map value_to_json xs)"

fun walk_path_json :: "json \<Rightarrow> string list \<Rightarrow> json" where
  "walk_path_json cur [] = cur"
| "walk_path_json cur (s # segs) =
     (case cur of
        JObject m \<Rightarrow> (case map_of m s of Some nxt \<Rightarrow> walk_path_json nxt segs | None \<Rightarrow> JNull)
      | _ \<Rightarrow> JNull)"

fun walk_path :: "json \<Rightarrow> string list \<Rightarrow> dvalue" where
  "walk_path cur [] = json_to_value cur"
| "walk_path cur (s # segs) =
     (case cur of
        JObject m \<Rightarrow> (case map_of m s of Some nxt \<Rightarrow> walk_path nxt segs | None \<Rightarrow> VNull)
      | _ \<Rightarrow> VNull)"

lemma walk_path_walk_json: "walk_path ctx segs = json_to_value (walk_path_json ctx segs)"
  by (induction ctx segs rule: walk_path.induct) (auto split: json.splits option.splits)

section \<open>Library parameters\<close>

record dictum_lib =
  lib_to_string :: "json \<Rightarrow> string option"
  lib_rfc3339 :: "string \<Rightarrow> int option"
  lib_sha256 :: "bytes \<Rightarrow> bytes"
  lib_hex :: "bytes \<Rightarrow> string"
  lib_lower :: "string \<Rightarrow> string"
  lib_upper :: "string \<Rightarrow> string"
  lib_patterns :: "(string \<Rightarrow> bool) list"
  lib_cc_matches :: "string \<Rightarrow> string list"
  lib_ssn_match :: "string \<Rightarrow> bool"

definition ascii_upper_char :: "char \<Rightarrow> char" where
  "ascii_upper_char ch = (let n = (of_char ch :: nat) in if 97 \<le> n \<and> n \<le> 122 then char_of (n - 32) else ch)"

definition to_lowercase :: "dictum_lib \<Rightarrow> string \<Rightarrow> string" where
  "to_lowercase l s = (if is_ascii s then to_ascii_lowercase s else lib_lower l s)"

definition to_uppercase :: "dictum_lib \<Rightarrow> string \<Rightarrow> string" where
  "to_uppercase l s = (if is_ascii s then map ascii_upper_char s else lib_upper l s)"

text \<open>\<open>s.chars().count()\<close> on UTF-8: every byte but the continuation bytes starts a character.\<close>

definition char_count :: "string \<Rightarrow> nat" where
  "char_count s = length (filter (\<lambda>ch. \<not> (128 \<le> (of_char ch :: nat) \<and> (of_char ch :: nat) < 192)) s)"

section \<open>Secret detection\<close>

definition card_digits :: "string \<Rightarrow> nat list" where
  "card_digits s = map (\<lambda>ch. of_char ch - 48) (filter (\<lambda>ch. 48 \<le> (of_char ch :: nat) \<and> (of_char ch :: nat) \<le> 57) s)"

fun luhn_sum :: "bool \<Rightarrow> u32 \<Rightarrow> nat list \<Rightarrow> u32" where
  "luhn_sum dbl acc [] = acc"
| "luhn_sum dbl acc (d # ds) =
     (let v = (if dbl then (if 2 * d > 9 then 2 * d - 9 else 2 * d) else d)
      in luhn_sum (\<not> dbl) (acc + of_nat v) ds)"

definition luhn_valid :: "string \<Rightarrow> bool" where
  "luhn_valid candidate =
     (let digits = card_digits candidate in
      if \<not> (13 \<le> length digits \<and> length digits \<le> 19) then False
      else unat (luhn_sum False 0 (rev digits)) mod 10 = 0)"

definition contains_secret :: "dictum_lib \<Rightarrow> string \<Rightarrow> bool" where
  "contains_secret l haystack =
     (if \<exists>re \<in> set (lib_patterns l). re haystack then True
      else if \<exists>m \<in> set (lib_cc_matches l haystack). luhn_valid m then True
      else (let lower = to_ascii_lowercase haystack in
        (sublist ''ssn'' lower \<or> sublist ''social security'' lower) \<and> lib_ssn_match l haystack))"

section \<open>Hosts\<close>

definition extract_host :: "string \<Rightarrow> string" where
  "extract_host url =
     (let after_scheme = (case split_scheme url of Some r \<Rightarrow> r | None \<Rightarrow> url);
          authority = takeWhile (\<lambda>ch. ch \<notin> set ''/?#'') after_scheme;
          hostport = (case rsplit_once (CHR ''@'') authority of Some (_, h) \<Rightarrow> h | None \<Rightarrow> authority);
          host = (case hostport of
              ch # rest \<Rightarrow>
                if ch = CHR ''['' then
                  (case split_once (CHR '']'') rest of Some (h6, _) \<Rightarrow> ''['' @ h6 @ '']'' | None \<Rightarrow> hostport)
                else (case split_once (CHR '':'') hostport of Some (h, _) \<Rightarrow> h | None \<Rightarrow> hostport)
            | [] \<Rightarrow> hostport)
      in to_ascii_lowercase host)"

text \<open>
  The host of a URL with or without user information, port and path: whatever stands before the
  last \<open>@\<close> of the authority is not part of it.
\<close>

lemma extract_host_url:
  assumes scheme: "CHR '':'' \<notin> set scheme"
    and user: "userinfo = [] \<or> (\<exists>u. userinfo = u @ ''@'' \<and> set u \<inter> set ''/?#'' = {})"
    and host: "set host \<inter> set ''/?#@:'' = {}" "host \<noteq> []" "hd host \<noteq> CHR ''[''"
    and port: "port = [] \<or> (\<exists>p. port = CHR '':'' # p \<and> set p \<inter> set ''/?#@'' = {})"
    and rest: "rest = [] \<or> hd rest \<in> set ''/?#''"
  shows "extract_host (scheme @ ''://'' @ userinfo @ host @ port @ rest) = to_ascii_lowercase host"
proof -
  have tw: "takeWhile (\<lambda>ch. ch \<notin> set ''/?#'') ((userinfo @ host @ port) @ rest) = userinfo @ host @ port"
    by (rule takeWhile_stop) (use user host(1) port rest in auto)
  have hp: "CHR ''@'' \<notin> set (host @ port)" using host(1) port by auto
  have rs: "(case rsplit_once (CHR ''@'') (userinfo @ host @ port) of Some (_, h) \<Rightarrow> h | None \<Rightarrow> userinfo @ host @ port) = host @ port"
    using user rsplit_once_none [OF hp] rsplit_once_at [OF hp] by auto
  have nocolon: "CHR '':'' \<notin> set host" using host(1) by auto
  have so: "(case split_once (CHR '':'') (host @ port) of Some (h, _) \<Rightarrow> h | None \<Rightarrow> host @ port) = host"
    using port split_once_none [OF nocolon] split_once_at [OF nocolon] by auto
  obtain h hs where h: "host = h # hs" "h \<noteq> CHR ''[''" using host(2,3) by (cases host) auto
  have "extract_host (scheme @ ''://'' @ userinfo @ host @ port @ rest) =
      to_ascii_lowercase (case split_once (CHR '':'') (host @ port) of Some (h, _) \<Rightarrow> h | None \<Rightarrow> host @ port)"
    unfolding extract_host_def split_scheme_at [OF scheme] Let_def option.case tw [unfolded append_assoc] rs
    by (simp add: h)
  then show ?thesis by (simp only: so)
qed

section \<open>Expressions\<close>

fun op_holds :: "binop \<Rightarrow> ordering \<Rightarrow> bool" where
  "op_holds BLt ord = (ord = Less)"
| "op_holds BGt ord = (ord = Greater)"
| "op_holds BLe ord = (ord \<noteq> Greater)"
| "op_holds _ ord = (ord \<noteq> Less)"

definition cmp_values :: "binop \<Rightarrow> dvalue \<Rightarrow> dvalue \<Rightarrow> dictum_error + dvalue" where
  "cmp_values op a b =
     rbind (case (a, b) of
        (VInt x, VInt y) \<Rightarrow> Inr (Some (if sint x < sint y then Less else if x = y then Equal else Greater))
      | (VFloat x, VFloat y) \<Rightarrow> Inr (f64_cmp x y)
      | (VInt x, VFloat y) \<Rightarrow> Inr (f64_cmp (int_to_f64 (sint x)) y)
      | (VFloat x, VInt y) \<Rightarrow> Inr (f64_cmp x (int_to_f64 (sint y)))
      | (VStr x, VStr y) \<Rightarrow> Inr (Some (if x < y then Less else if x = y then Equal else Greater))
      | _ \<Rightarrow> Inl (EvalError (CannotCompare a b))) (\<lambda>ord.
     rbind (of_option (EvalError NanComparison) ord) (\<lambda>ord.
       Inr (VBool (op_holds op ord))))"

definition membership :: "bool \<Rightarrow> dvalue \<Rightarrow> dvalue \<Rightarrow> dictum_error + dvalue" where
  "membership neg n h =
     rbind (case h of
        VList xs \<Rightarrow> Inr (\<exists>x \<in> set xs. value_eq x n)
      | VStr s \<Rightarrow> (case n of VStr sub \<Rightarrow> Inr (sublist sub s) | _ \<Rightarrow> Inl (EvalError InNeedle))
      | _ \<Rightarrow> Inl (EvalError InHaystack)) (\<lambda>hit. Inr (VBool (if neg then \<not> hit else hit)))"

text \<open>The \<open>match\<close> of \<open>eval_builtin\<close> on the name and the evaluated arguments.\<close>

definition apply_builtin :: "dictum_lib \<Rightarrow> string \<Rightarrow> dvalue list \<Rightarrow> dictum_error + dvalue" where
  "apply_builtin l name args =
     (let bad = Inl (EvalError (BadCall name (length args))) in
      if name = ''contains'' then
        (case args of
           [VStr s, VStr sub] \<Rightarrow> Inr (VBool (sublist sub s))
         | [VList xs, v] \<Rightarrow> Inr (VBool (\<exists>x \<in> set xs. value_eq x v))
         | _ \<Rightarrow> bad)
      else if name = ''starts_with'' then (case args of [VStr s, VStr pre] \<Rightarrow> Inr (VBool (prefix pre s)) | _ \<Rightarrow> bad)
      else if name = ''ends_with'' then (case args of [VStr s, VStr suf] \<Rightarrow> Inr (VBool (suffix suf s)) | _ \<Rightarrow> bad)
      else if name = ''len'' then
        (case args of
           [VStr s] \<Rightarrow> Inr (VInt (of_nat (char_count s)))
         | [VList xs] \<Rightarrow> Inr (VInt (of_nat (length xs)))
         | _ \<Rightarrow> bad)
      else if name = ''lower'' then (case args of [VStr s] \<Rightarrow> Inr (VStr (to_lowercase l s)) | _ \<Rightarrow> bad)
      else if name = ''upper'' then (case args of [VStr s] \<Rightarrow> Inr (VStr (to_uppercase l s)) | _ \<Rightarrow> bad)
      else if name = ''url_host'' then (case args of [VStr s] \<Rightarrow> Inr (VStr (extract_host s)) | _ \<Rightarrow> bad)
      else if name = ''timestamp'' then
        (case args of
           [VStr s] \<Rightarrow> (case lib_rfc3339 l s of Some t \<Rightarrow> Inr (VInt (of_int t)) | None \<Rightarrow> Inl (EvalError (BadInstant s)))
         | _ \<Rightarrow> bad)
      else if name = ''sha256'' then
        (case args of [VStr s] \<Rightarrow> Inr (VStr (lib_hex l (lib_sha256 l (as_bytes s)))) | _ \<Rightarrow> bad)
      else bad)"

definition secret_haystack :: "dictum_lib \<Rightarrow> json \<Rightarrow> string" where
  "secret_haystack l raw =
     (case raw of
        JString s \<Rightarrow> s
      | JNull \<Rightarrow> []
      | other \<Rightarrow> (case lib_to_string l other of Some s \<Rightarrow> s | None \<Rightarrow> []))"

lemma ebind_cong [fundef_cong]:
  "m = m' \<Longrightarrow> (\<And>x. f x = g x) \<Longrightarrow> ebind m f = ebind m' g"
  by (simp add: ebind_def fun_eq_iff split: prod.splits sum.splits)

function (sequential) eval_expr :: "dictum_lib \<Rightarrow> json \<Rightarrow> expr \<Rightarrow> dvalue ev"
  and eval_binop :: "dictum_lib \<Rightarrow> json \<Rightarrow> binop \<Rightarrow> expr \<Rightarrow> expr \<Rightarrow> dvalue ev"
  and eval_args :: "dictum_lib \<Rightarrow> json \<Rightarrow> expr list \<Rightarrow> dvalue list ev"
  and eval_builtin :: "dictum_lib \<Rightarrow> json \<Rightarrow> string \<Rightarrow> expr list \<Rightarrow> dvalue ev"
  and resolve_json :: "dictum_lib \<Rightarrow> json \<Rightarrow> expr \<Rightarrow> json ev" where
  "eval_expr l ctx (Lit (LStr s)) = ebind tick (\<lambda>_. eret (VStr s))"
| "eval_expr l ctx (Lit (LInt n)) = ebind tick (\<lambda>_. eret (VInt n))"
| "eval_expr l ctx (Lit (LBool b)) = ebind tick (\<lambda>_. eret (VBool b))"
| "eval_expr l ctx (Path segs) = ebind tick (\<lambda>_. eret (walk_path ctx segs))"
| "eval_expr l ctx (Unary UNot inner) =
     ebind tick (\<lambda>_. ebind (eval_expr l ctx inner) (\<lambda>v. eret (VBool (\<not> is_truthy v))))"
| "eval_expr l ctx (Binary op x y) = ebind tick (\<lambda>_. eval_binop l ctx op x y)"
| "eval_expr l ctx (Membership neg needle haystack) =
     ebind tick (\<lambda>_. ebind (eval_expr l ctx needle) (\<lambda>n. ebind (eval_expr l ctx haystack) (\<lambda>h.
       elift (membership neg n h))))"
| "eval_expr l ctx (Call name args) = ebind tick (\<lambda>_. eval_builtin l ctx name args)"
| "eval_binop l ctx op x y =
     (if op = BAnd then
        ebind (eval_expr l ctx x) (\<lambda>lv.
          if \<not> is_truthy lv then eret (VBool False)
          else ebind (eval_expr l ctx y) (\<lambda>rv. eret (VBool (is_truthy rv))))
      else if op = BOr then
        ebind (eval_expr l ctx x) (\<lambda>lv.
          if is_truthy lv then eret (VBool True)
          else ebind (eval_expr l ctx y) (\<lambda>rv. eret (VBool (is_truthy rv))))
      else
        ebind (eval_expr l ctx x) (\<lambda>lv. ebind (eval_expr l ctx y) (\<lambda>rv.
          if op = BEq then eret (VBool (values_eq lv rv))
          else if op = BNeq then eret (VBool (\<not> values_eq lv rv))
          else elift (cmp_values op lv rv))))"
| "eval_args l ctx [] = eret []"
| "eval_args l ctx (a # as) =
     ebind (eval_expr l ctx a) (\<lambda>v. ebind (eval_args l ctx as) (\<lambda>vs. eret (v # vs)))"
| "eval_builtin l ctx name args =
     (if name = ''secret_ref'' then
        (case args of
           [a] \<Rightarrow> ebind (resolve_json l ctx a) (\<lambda>raw. eret (VBool (contains_secret l (secret_haystack l raw))))
         | _ \<Rightarrow> elift (Inl (EvalError (SecretRefArity (length args)))))
      else ebind (eval_args l ctx args) (\<lambda>vs. elift (apply_builtin l name vs)))"
| "resolve_json l ctx (Path segs) = ebind tick (\<lambda>_. eret (walk_path_json ctx segs))"
| "resolve_json l ctx other = ebind (eval_expr l ctx other) (\<lambda>v. eret (value_to_json v))"
  by pat_completeness auto
termination
proof (relation "measure (\<lambda>x. case x of
      Inl (Inl (l, ctx, e)) \<Rightarrow> 3 * size e
    | Inl (Inr (l, ctx, op, x, y)) \<Rightarrow> 3 * size x + 3 * size y + 1
    | Inr (Inl (l, ctx, as)) \<Rightarrow> 3 * size_list size as
    | Inr (Inr (Inl (l, ctx, name, args))) \<Rightarrow> 3 * size_list size args + 1
    | Inr (Inr (Inr (l, ctx, e))) \<Rightarrow> 3 * size e + 1)", goal_cases)
qed (auto simp: size_list_conv_sum_list)

section \<open>Programs\<close>

record policy_fired =
  pf_policy_name :: string
  pf_verdict :: dverdict
  pf_reason :: "string option"
  pf_evidence :: "dvalue option"

fun evaluate_policies :: "dictum_lib \<Rightarrow> json \<Rightarrow> dictum_policy list \<Rightarrow> policy_fired option ev" where
  "evaluate_policies l ctx [] = eret None"
| "evaluate_policies l ctx (p # ps) =
     ebind (eval_expr l ctx (pol_when p)) (\<lambda>fired.
       if is_truthy fired then
         ebind (case act_evidence (pol_action p) of
             Some e \<Rightarrow> ebind (eval_expr l ctx e) (\<lambda>v. eret (Some v))
           | None \<Rightarrow> eret None) (\<lambda>evidence.
         eret (Some \<lparr>pf_policy_name = pol_name p, pf_verdict = act_verdict (pol_action p),
                     pf_reason = act_reason (pol_action p), pf_evidence = evidence\<rparr>))
       else evaluate_policies l ctx ps)"

definition evaluate_program :: "dictum_lib \<Rightarrow> dictum_program \<Rightarrow> json \<Rightarrow> policy_fired option ev" where
  "evaluate_program l prog ctx = evaluate_policies l ctx (policies prog)"

record eval_trace =
  et_fired :: "policy_fired option"
  et_policies_evaluated :: u32
  et_policies_fired :: "string list"
  et_eval_errored :: bool

fun trace_policies :: "dictum_lib \<Rightarrow> json \<Rightarrow> u32 \<Rightarrow> bool \<Rightarrow> dictum_policy list \<Rightarrow> eval_trace" where
  "trace_policies l ctx n errored [] =
     \<lparr>et_fired = None, et_policies_evaluated = n, et_policies_fired = [], et_eval_errored = errored\<rparr>"
| "trace_policies l ctx n errored (p # ps) =
     (case fst (eval_expr l ctx (pol_when p) default_budget) of
        Inr v \<Rightarrow>
          if is_truthy v then
            \<lparr>et_fired = Some \<lparr>pf_policy_name = pol_name p, pf_verdict = act_verdict (pol_action p),
                pf_reason = act_reason (pol_action p),
                pf_evidence = (case act_evidence (pol_action p) of
                    Some e \<Rightarrow> (case fst (eval_expr l ctx e default_budget) of Inr w \<Rightarrow> Some w | Inl _ \<Rightarrow> None)
                  | None \<Rightarrow> None)\<rparr>,
             et_policies_evaluated = n + 1, et_policies_fired = [pol_name p], et_eval_errored = errored\<rparr>
          else trace_policies l ctx (n + 1) errored ps
      | Inl _ \<Rightarrow>
          if act_verdict (pol_action p) = DAllow then trace_policies l ctx (n + 1) True ps
          else
            \<lparr>et_fired = Some \<lparr>pf_policy_name = pol_name p, pf_verdict = act_verdict (pol_action p),
                pf_reason = Some ''dictum-eval-error'', pf_evidence = None\<rparr>,
             et_policies_evaluated = n + 1, et_policies_fired = [pol_name p], et_eval_errored = True\<rparr>)"

definition evaluate_program_traced :: "dictum_lib \<Rightarrow> dictum_program \<Rightarrow> json \<Rightarrow> eval_trace" where
  "evaluate_program_traced l prog ctx = trace_policies l ctx 0 False (policies prog)"

end
