(* ===== verification/Dictum_Cost.thy ===== *)
theory Dictum_Cost
  imports Dictum_Eval
begin

text \<open>
  A cost calculus for the evaluator: every evaluation has one result and one number of steps,
  both independent of the budget it is given, and the steps are bounded by the nodes of the
  expression. The rules are collected in \<open>budget_intros\<close>.
\<close>

section \<open>Costs\<close>

definition spend :: "nat \<Rightarrow> eval_budget \<Rightarrow> eval_budget" where
  "spend j b = b\<lparr>remaining := remaining b - of_nat j, total := total b + of_nat j\<rparr>"

definition exhausted :: "dictum_error + 'a \<Rightarrow> bool" where
  "exhausted r \<longleftrightarrow> (\<exists>s. r = Inl (BudgetExhausted s))"

text \<open>
  \<open>costs j r m\<close>: with at least \<open>j\<close> steps left \<open>m\<close> yields \<open>r\<close> and uses exactly \<open>j\<close> of them, with fewer
  it uses all that are left and reports their number.
\<close>

definition costs :: "nat \<Rightarrow> dictum_error + 'a \<Rightarrow> 'a ev \<Rightarrow> bool" where
  "costs j r m \<longleftrightarrow> \<not> exhausted r \<and>
     (\<forall>b. m b = (if j \<le> unat (remaining b) then (r, spend j b)
                 else (Inl (BudgetExhausted (total b + remaining b)), spend (unat (remaining b)) b)))"

definition bounded_cost :: "nat \<Rightarrow> 'a ev \<Rightarrow> bool" where
  "bounded_cost k m \<longleftrightarrow> (\<exists>j r. j \<le> k \<and> costs j r m)"

lemma spend_0 [simp]: "spend 0 b = b"
  by (simp add: spend_def)

lemma spend_spend [simp]: "spend k (spend j b) = spend (j + k) b"
  by (simp add: spend_def algebra_simps)

lemma remaining_spend: "j \<le> unat (remaining b) \<Longrightarrow> unat (remaining (spend j b)) = unat (remaining b) - j"
proof -
  assume j: "j \<le> unat (remaining b)"
  moreover have "unat (remaining b) < 2 ^ 64" using unsigned_less [of "remaining b"] by simp
  ultimately have "unat (of_nat j :: u64) = j" by (simp add: unat_of_nat take_bit_eq_mod)
  then show ?thesis using j by (simp add: spend_def unat_sub word_le_nat_alt)
qed

lemma total_spend: "remaining (spend j b) + total (spend j b) = remaining b + total b"
  by (simp add: spend_def)

lemma costs_eret: "costs 0 (Inr x) (eret x)"
  by (simp add: costs_def exhausted_def eret_def)

lemma costs_elift: "\<not> exhausted r \<Longrightarrow> costs 0 r (elift r)"
  by (simp add: costs_def elift_def)

lemma costs_tick: "costs 1 (Inr ()) tick"
  by (auto simp: costs_def exhausted_def tick_def spend_def unat_eq_zero le_Suc_eq not_le Suc_le_eq unat_gt_0)

lemma costs_bind:
  assumes "costs j (Inr x) m" "costs k r (f x)"
  shows "costs (j + k) r (ebind m f)"
  unfolding costs_def
proof (intro conjI allI)
  show "\<not> exhausted r" using assms(2) by (simp add: costs_def)
  fix b
  show "ebind m f b = (if j + k \<le> unat (remaining b) then (r, spend (j + k) b)
      else (Inl (BudgetExhausted (total b + remaining b)), spend (unat (remaining b)) b))"
  proof (cases "j \<le> unat (remaining b)")
    case True
    then have "ebind m f b = f x (spend j b)" using assms(1) by (simp add: costs_def ebind_def)
    also have "\<dots> = (if k \<le> unat (remaining (spend j b)) then (r, spend k (spend j b))
        else (Inl (BudgetExhausted (total (spend j b) + remaining (spend j b))),
              spend (unat (remaining (spend j b))) (spend j b)))"
      using assms(2) by (simp add: costs_def)
    finally show ?thesis using True by (simp add: remaining_spend total_spend le_diff_conv2 ac_simps)
  next
    case False
    then show ?thesis using assms(1) by (simp add: costs_def ebind_def)
  qed
qed

lemma costs_bind_error:
  assumes "costs j (Inl e) m"
  shows "costs j (Inl e) (ebind m f)"
  using assms by (auto simp: costs_def ebind_def exhausted_def)

lemma bounded_eret [budget_intros]: "bounded_cost 0 (eret x)"
  unfolding bounded_cost_def by (intro exI [of _ 0] exI [of _ "Inr x"]) (simp add: costs_eret)

lemma bounded_elift [budget_intros]: "\<not> exhausted r \<Longrightarrow> bounded_cost 0 (elift r)"
  using costs_elift by (auto simp: bounded_cost_def)

lemma bounded_tick [budget_intros]: "bounded_cost 1 tick"
  using costs_tick by (auto simp: bounded_cost_def)

lemma bounded_bind:
  assumes "bounded_cost j m" "\<And>x. bounded_cost k (f x)"
  shows "bounded_cost (j + k) (ebind m f)"
proof -
  from assms(1) obtain i r where i: "i \<le> j" "costs i r m" by (auto simp: bounded_cost_def)
  show ?thesis
  proof (cases r)
    case (Inl e)
    with i have "costs i (Inl e) (ebind m f)" by (auto intro: costs_bind_error)
    with i(1) show ?thesis unfolding bounded_cost_def by (meson trans_le_add1)
  next
    case (Inr x)
    from assms(2) [of x] obtain n r' where "n \<le> k" "costs n r' (f x)" by (auto simp: bounded_cost_def)
    with i Inr show ?thesis using costs_bind [of i x m n r' f] unfolding bounded_cost_def by (meson add_mono)
  qed
qed

lemma bounded_mono: "bounded_cost j m \<Longrightarrow> j \<le> k \<Longrightarrow> bounded_cost k m"
  by (auto simp: bounded_cost_def intro: le_trans)

lemma bounded_tick_bind [budget_intros]: "bounded_cost k m \<Longrightarrow> bounded_cost (Suc k) (ebind tick (\<lambda>_. m))"
  using bounded_bind [OF bounded_tick, of k "\<lambda>_. m"] by simp

lemma bounded_map [budget_intros]: "bounded_cost k m \<Longrightarrow> bounded_cost k (ebind m (\<lambda>x. eret (f x)))"
  using bounded_bind [of k m 0 "\<lambda>x. eret (f x)"] by (simp add: bounded_eret)

section \<open>No operation fabricates an exhausted budget\<close>

lemma membership_not_exhausted [simp]: "\<not> exhausted (membership neg n h)"
  by (auto simp: membership_def exhausted_def split: dvalue.splits)

lemma cmp_values_not_exhausted [simp]: "\<not> exhausted (cmp_values op a b)"
  by (auto simp: cmp_values_def exhausted_def rbind_eq_Inl of_option_def split: dvalue.splits option.splits)

lemma apply_builtin_not_exhausted [simp]: "\<not> exhausted (apply_builtin l name args)"
proof -
  have "r = Inl (EvalError (BadCall name (length args))) \<or> (\<exists>s. r = Inl (EvalError (BadInstant s))) \<or> (\<exists>v. r = Inr v)"
    if "r = apply_builtin l name args" for r
    unfolding that apply_builtin_def Let_def by (auto split: list.splits dvalue.splits option.splits)
  then show ?thesis by (fastforce simp: exhausted_def)
qed

section \<open>The cost of an expression\<close>

lemma bounded_if [budget_intros]:
  "(b \<Longrightarrow> bounded_cost k m) \<Longrightarrow> (\<not> b \<Longrightarrow> bounded_cost k m') \<Longrightarrow> bounded_cost k (if b then m else m')"
  by simp

lemma bounded_seq:
  "bounded_cost j m \<Longrightarrow> (\<And>x. bounded_cost i (f x)) \<Longrightarrow> j + i \<le> k \<Longrightarrow> bounded_cost k (ebind m f)"
  using bounded_bind bounded_mono by blast

lemma bounded_binop:
  assumes "bounded_cost i (eval_expr l ctx x)" "bounded_cost j (eval_expr l ctx y)"
  shows "bounded_cost (i + j) (eval_binop l ctx op x y)"
proof -
  have short: "bounded_cost (i + j) (ebind (eval_expr l ctx x) (\<lambda>lv.
      if P lv then eret (VBool c) else ebind (eval_expr l ctx y) (\<lambda>rv. eret (VBool (is_truthy rv)))))" for P c
    by (rule bounded_bind [OF assms(1)]) (auto intro: bounded_map assms(2) bounded_mono [OF bounded_eret])
  have rest: "bounded_cost (i + j) (ebind (eval_expr l ctx x) (\<lambda>lv. ebind (eval_expr l ctx y) (\<lambda>rv.
      if op = BEq then eret (VBool (values_eq lv rv)) else if op = BNeq then eret (VBool (\<not> values_eq lv rv))
      else elift (cmp_values op lv rv))))"
    by (rule bounded_bind [OF assms(1)], rule bounded_seq [OF assms(2), of 0]) (auto intro: budget_intros)
  show ?thesis using short [of "\<lambda>v. \<not> is_truthy v" False] short [of is_truthy True] rest by simp
qed

lemma bounded_args:
  "(\<And>a. a \<in> set args \<Longrightarrow> bounded_cost (nodes a) (eval_expr l ctx a)) \<Longrightarrow>
   bounded_cost (sum_list (map nodes args)) (eval_args l ctx args)"
proof (induction args)
  case (Cons a as)
  then have "bounded_cost (nodes a + sum_list (map nodes as))
      (ebind (eval_expr l ctx a) (\<lambda>v. ebind (eval_args l ctx as) (\<lambda>vs. eret (v # vs))))"
    by (intro bounded_bind bounded_map) auto
  then show ?case by simp
qed (simp add: bounded_eret)

lemma bounded_resolve:
  "bounded_cost (nodes e) (eval_expr l ctx e) \<Longrightarrow> bounded_cost (nodes e) (resolve_json l ctx e)"
  using bounded_tick_bind [OF bounded_eret] by (cases e) (auto intro: bounded_map)

lemma bounded_builtin:
  assumes "\<And>a. a \<in> set args \<Longrightarrow> bounded_cost (nodes a) (eval_expr l ctx a)"
  shows "bounded_cost (sum_list (map nodes args)) (eval_builtin l ctx name args)"
proof (cases "name = ''secret_ref''")
  case True
  have bad: "bounded_cost k (elift (Inl (EvalError f)))" for k f
    by (rule bounded_mono [OF bounded_elift]) (simp_all add: exhausted_def)
  from assms have "bounded_cost (nodes a) (ebind (resolve_json l ctx a) (\<lambda>raw. eret (f raw)))" if "args = [a]"
    for a and f :: "json \<Rightarrow> dvalue"
    using that by (intro bounded_map bounded_resolve) simp
  with True bad show ?thesis by (auto split: list.splits)
next
  case False
  have "bounded_cost (sum_list (map nodes args)) (ebind (eval_args l ctx args) (\<lambda>vs. elift (apply_builtin l name vs)))"
    by (rule bounded_seq [OF bounded_args [OF assms], where i = 0]) (auto intro: bounded_elift)
  with False show ?thesis by simp
qed

lemma eval_bounded: "bounded_cost (nodes e) (eval_expr l ctx e)"
proof (induction e)
  case (Lit k)
  then show ?case using bounded_tick_bind [OF bounded_eret] by (cases k) auto
next
  case (Path segs)
  then show ?case using bounded_tick_bind [OF bounded_eret] by simp
next
  case (Call f args)
  then show ?case using bounded_tick_bind [OF bounded_builtin [of args l ctx f]] by simp
next
  case (Binary op x y)
  then show ?case using bounded_tick_bind [OF bounded_binop] by simp
next
  case (Unary u e)
  then show ?case using bounded_tick_bind [OF bounded_map] by (cases u) simp
next
  case (Membership neg n h)
  have "bounded_cost (nodes n + nodes h) (ebind (eval_expr l ctx n) (\<lambda>v.
      ebind (eval_expr l ctx h) (\<lambda>w. elift (membership neg v w))))"
    by (rule bounded_bind [OF Membership(1)], rule bounded_seq [OF Membership(2), where i = 0]) (auto intro: budget_intros)
  from bounded_tick_bind [OF this] show ?case by simp
qed

section \<open>One result per expression\<close>

text \<open>The value of an expression when the budget does not matter.\<close>

lemma eval_result:
  "\<exists>j r. j \<le> nodes e \<and> \<not> exhausted r \<and>
     (\<forall>b. eval_expr l ctx e b = (if j \<le> unat (remaining b) then (r, spend j b)
       else (Inl (BudgetExhausted (total b + remaining b)), spend (unat (remaining b)) b)))"
  using eval_bounded [of e l ctx] unfolding bounded_cost_def costs_def by blast

lemma eval_budget_irrelevant:
  assumes "\<not> exhausted (fst (eval_expr l ctx e b))" "\<not> exhausted (fst (eval_expr l ctx e b'))"
  shows "fst (eval_expr l ctx e b) = fst (eval_expr l ctx e b')"
proof -
  obtain j r where "\<And>b. eval_expr l ctx e b = (if j \<le> unat (remaining b) then (r, spend j b)
       else (Inl (BudgetExhausted (total b + remaining b)), spend (unat (remaining b)) b))"
    using eval_result [of e l ctx] by blast
  with assms show ?thesis by (auto simp: exhausted_def split: if_splits)
qed

lemma eval_enough:
  assumes "nodes e \<le> unat (remaining b)"
  shows "\<not> exhausted (fst (eval_expr l ctx e b))"
proof -
  obtain j r where "j \<le> nodes e" "\<not> exhausted r" "\<And>b. eval_expr l ctx e b = (if j \<le> unat (remaining b) then (r, spend j b)
       else (Inl (BudgetExhausted (total b + remaining b)), spend (unat (remaining b)) b))"
    using eval_result [of e l ctx] by blast
  with assms show ?thesis by simp
qed

lemma default_enough: "nodes e \<le> 10000 \<Longrightarrow> \<not> exhausted (fst (eval_expr l ctx e default_budget))"
  by (rule eval_enough) (simp add: default_budget_def new_budget_def)

section \<open>Programs\<close>

text \<open>A policy takes effect when its condition holds, or fails while the policy is a restriction.\<close>

definition guard_fires :: "dictum_lib \<Rightarrow> json \<Rightarrow> dictum_policy \<Rightarrow> bool" where
  "guard_fires l ctx p =
     (case fst (eval_expr l ctx (pol_when p) default_budget) of
        Inr v \<Rightarrow> is_truthy v | Inl _ \<Rightarrow> act_verdict (pol_action p) \<noteq> DAllow)"

definition guard_errs :: "dictum_lib \<Rightarrow> json \<Rightarrow> dictum_policy \<Rightarrow> bool" where
  "guard_errs l ctx p \<longleftrightarrow> \<not> is_ok (fst (eval_expr l ctx (pol_when p) default_budget))"

lemma trace_policies_none:
  assumes "\<And>p. p \<in> set ps \<Longrightarrow> \<not> guard_fires l ctx p"
  shows "trace_policies l ctx n err (ps @ qs) =
     trace_policies l ctx (n + of_nat (length ps)) (err \<or> (\<exists>p \<in> set ps. guard_errs l ctx p)) qs"
  using assms
proof (induction ps arbitrary: n err)
  case (Cons p ps)
  then have "\<not> guard_fires l ctx p" by simp
  then have "trace_policies l ctx n err (p # ps @ qs) = trace_policies l ctx (n + 1) (err \<or> guard_errs l ctx p) (ps @ qs)"
    by (auto simp: guard_fires_def guard_errs_def split: sum.splits)
  with Cons show ?case by (simp add: ac_simps disj_assoc)
qed simp

lemma trace_policies_fires:
  assumes "guard_fires l ctx p"
  shows "\<exists>f. et_fired (trace_policies l ctx n err (p # qs)) = Some f \<and> pf_policy_name f = pol_name p \<and>
     pf_verdict f = act_verdict (pol_action p) \<and>
     et_policies_evaluated (trace_policies l ctx n err (p # qs)) = n + 1 \<and>
     et_policies_fired (trace_policies l ctx n err (p # qs)) = [pol_name p] \<and>
     et_eval_errored (trace_policies l ctx n err (p # qs)) = (err \<or> guard_errs l ctx p)"
  using assms by (auto simp: guard_fires_def guard_errs_def split: sum.splits)

text \<open>The trace stands at the first policy that takes effect.\<close>

lemma traced_split:
  assumes "find (guard_fires l ctx) (policies prog) = Some p"
  obtains pre post where "policies prog = pre @ p # post" "guard_fires l ctx p" "\<forall>q \<in> set pre. \<not> guard_fires l ctx q"
    "evaluate_program_traced l prog ctx =
       trace_policies l ctx (of_nat (length pre)) (\<exists>q \<in> set pre. guard_errs l ctx q) (p # post)"
proof -
  from find_split [OF assms] obtain pre post where pp: "policies prog = pre @ p # post" "guard_fires l ctx p"
    "\<forall>q \<in> set pre. \<not> guard_fires l ctx q"
    by blast
  moreover from pp have "evaluate_program_traced l prog ctx =
      trace_policies l ctx (of_nat (length pre)) (\<exists>q \<in> set pre. guard_errs l ctx q) (p # post)"
    using trace_policies_none [of pre l ctx 0 False "p # post"] by (simp add: evaluate_program_traced_def)
  ultimately show thesis using that by blast
qed

lemma traced_none:
  assumes "find (guard_fires l ctx) (policies prog) = None"
  shows "evaluate_program_traced l prog ctx =
       \<lparr>et_fired = None, et_policies_evaluated = of_nat (length (policies prog)), et_policies_fired = [],
        et_eval_errored = (\<exists>p \<in> set (policies prog). guard_errs l ctx p)\<rparr>"
proof -
  from assms have "\<And>p. p \<in> set (policies prog) \<Longrightarrow> \<not> guard_fires l ctx p" by (simp add: find_None_iff)
  from trace_policies_none [of "policies prog" l ctx 0 False "[]", OF this] show ?thesis
    by (simp add: evaluate_program_traced_def)
qed

end
