(* ===== verification/Dictum_Types.thy ===== *)
theory Dictum_Types
  imports Dictum_Cost
begin

text \<open>
  The type checker of Dictum (\<open>crates/iaga-sentinel-dictum/src/types.rs\<close>). Resolving a type walks
  the substitution, which the code does by unguarded recursion; here it is a partial
  function, and that it always returns is proved from the occurs check.
\<close>

section \<open>Types and environments\<close>

datatype ty = TBool | TInt | TStr | TUnknown | TList ty | TVar u32

type_synonym tsubst = "u32 \<rightharpoonup> ty"

datatype type_error =
    Mismatch ty ty
  | OccursCheck u32
  | BuiltinArity string nat nat
  | NonBoolWhen string ty

record type_env =
  next_var :: u32
  tsubst_of :: tsubst
  when_types :: "ty list"

definition new_env :: type_env where
  "new_env = \<lparr>next_var = 0, tsubst_of = Map.empty, when_types = []\<rparr>"

definition fresh :: "type_env \<Rightarrow> ty \<times> type_env" where
  "fresh env = (TVar (next_var env), env\<lparr>next_var := next_var env + 1\<rparr>)"

section \<open>Resolution and unification\<close>

partial_function (option) apply_ty :: "tsubst \<Rightarrow> ty \<Rightarrow> ty option" where
  "apply_ty s t =
     (case t of
        TVar v \<Rightarrow>
          (case s v of
             Some t' \<Rightarrow> do { r \<leftarrow> apply_ty s t'; Some (if r = TVar v then TUnknown else r) }
           | None \<Rightarrow> Some (TVar v))
      | TList t' \<Rightarrow> do { r \<leftarrow> apply_ty s t'; Some (TList r) }
      | _ \<Rightarrow> Some t)"

partial_function (option) occurs_in :: "tsubst \<Rightarrow> u32 \<Rightarrow> ty \<Rightarrow> bool option" where
  "occurs_in s v t = do {
     r \<leftarrow> apply_ty s t;
     (case r of TVar w \<Rightarrow> Some (w = v) | TList inner \<Rightarrow> occurs_in s v inner | _ \<Rightarrow> Some False) }"

definition bind_var :: "tsubst \<Rightarrow> u32 \<Rightarrow> ty \<Rightarrow> (type_error + tsubst) option" where
  "bind_var s v other =
     (if other = TVar v then Some (Inr s)
      else do {
        occ \<leftarrow> occurs_in s v other;
        Some (if occ then Inl (OccursCheck v) else Inr (s(v \<mapsto> other))) })"

partial_function (option) unify :: "tsubst \<Rightarrow> ty \<Rightarrow> ty \<Rightarrow> (type_error + tsubst) option" where
  "unify s a b = do {
     a \<leftarrow> apply_ty s a;
     b \<leftarrow> apply_ty s b;
     (case (a, b) of
        (TUnknown, _) \<Rightarrow> Some (Inr s)
      | (_, TUnknown) \<Rightarrow> Some (Inr s)
      | (TBool, TBool) \<Rightarrow> Some (Inr s)
      | (TInt, TInt) \<Rightarrow> Some (Inr s)
      | (TStr, TStr) \<Rightarrow> Some (Inr s)
      | (TList x, TList y) \<Rightarrow> unify s x y
      | (TVar v, other) \<Rightarrow> bind_var s v other
      | (other, TVar v) \<Rightarrow> bind_var s v other
      | (lhs, rhs) \<Rightarrow> Some (Inl (Mismatch lhs rhs))) }"

definition env_unify :: "type_env \<Rightarrow> ty \<Rightarrow> ty \<Rightarrow> (type_error + type_env) option" where
  "env_unify env a b = tbind (unify (tsubst_of env) a b) (\<lambda>s. Some (Inr (env\<lparr>tsubst_of := s\<rparr>)))"

section \<open>Inference\<close>

definition builtin_signature :: "string \<Rightarrow> (ty \<times> ty list) option" where
  "builtin_signature name = map_of
     [(''contains'', (TBool, [TStr, TStr])), (''starts_with'', (TBool, [TStr, TStr])),
      (''ends_with'', (TBool, [TStr, TStr])), (''len'', (TInt, [TUnknown])), (''lower'', (TStr, [TStr])),
      (''upper'', (TStr, [TStr])), (''secret_ref'', (TBool, [TUnknown])), (''url_host'', (TStr, [TStr])),
      (''timestamp'', (TInt, [TStr])), (''sha256'', (TStr, [TStr]))] name"

fun operand_types :: "binop \<Rightarrow> ty option" where
  "operand_types BEq = None"
| "operand_types BNeq = None"
| "operand_types BAnd = Some TBool"
| "operand_types BOr = Some TBool"
| "operand_types _ = Some TInt"

fun infer_expr :: "type_env \<Rightarrow> expr \<Rightarrow> (type_error + (ty \<times> type_env)) option"
  and infer_sig_args :: "type_env \<Rightarrow> expr list \<Rightarrow> ty list \<Rightarrow> (type_error + type_env) option"
  and infer_plain_args :: "type_env \<Rightarrow> expr list \<Rightarrow> (type_error + type_env) option" where
  "infer_expr env (Lit k) =
     Some (Inr (case k of LBool _ \<Rightarrow> TBool | LInt _ \<Rightarrow> TInt | LStr _ \<Rightarrow> TStr, env))"
| "infer_expr env (Path _) = Some (Inr (TUnknown, env))"
| "infer_expr env (Unary UNot inner) =
     tbind (infer_expr env inner) (\<lambda>(t, env). tbind (env_unify env t TBool) (\<lambda>env. Some (Inr (TBool, env))))"
| "infer_expr env (Binary op l r) =
     tbind (infer_expr env l) (\<lambda>(lt, env). tbind (infer_expr env r) (\<lambda>(rt, env).
       case operand_types op of
         None \<Rightarrow> tbind (env_unify env lt rt) (\<lambda>env. Some (Inr (TBool, env)))
       | Some t \<Rightarrow> tbind (env_unify env lt t) (\<lambda>env. tbind (env_unify env rt t) (\<lambda>env. Some (Inr (TBool, env))))))"
| "infer_expr env (Membership _ needle haystack) =
     tbind (infer_expr env needle) (\<lambda>(_, env). tbind (infer_expr env haystack) (\<lambda>(_, env). Some (Inr (TBool, env))))"
| "infer_expr env (Call name args) =
     (case builtin_signature name of
        Some (ret, sig) \<Rightarrow>
          if length sig \<noteq> length args then Some (Inl (BuiltinArity name (length sig) (length args)))
          else tbind (infer_sig_args env args sig) (\<lambda>env. Some (Inr (ret, env)))
      | None \<Rightarrow> tbind (infer_plain_args env args) (\<lambda>env. Some (Inr (fresh env))))"
| "infer_sig_args env (a # as) (t # ts) =
     tbind (infer_expr env a) (\<lambda>(aty, env). tbind (env_unify env aty t) (\<lambda>env. infer_sig_args env as ts))"
| "infer_sig_args env _ _ = Some (Inr env)"
| "infer_plain_args env [] = Some (Inr env)"
| "infer_plain_args env (a # as) = tbind (infer_expr env a) (\<lambda>(_, env). infer_plain_args env as)"

definition when_error :: "string \<Rightarrow> type_error \<Rightarrow> type_error" where
  "when_error name e = (case e of Mismatch _ actual \<Rightarrow> NonBoolWhen name actual | other \<Rightarrow> other)"

fun infer_policies :: "type_env \<Rightarrow> dictum_policy list \<Rightarrow> (type_error + type_env) option" where
  "infer_policies env [] = Some (Inr env)"
| "infer_policies env (p # ps) =
     tbind (infer_expr env (pol_when p)) (\<lambda>(t, env).
       case env_unify env t TBool of
         None \<Rightarrow> None
       | Some (Inl e) \<Rightarrow> Some (Inl (when_error (pol_name p) e))
       | Some (Inr env) \<Rightarrow> do {
           resolved \<leftarrow> apply_ty (tsubst_of env) t;
           infer_policies (env\<lparr>when_types := when_types env @ [resolved]\<rparr>) ps })"

definition infer :: "dictum_program \<Rightarrow> (type_error + type_env) option" where
  "infer prog = infer_policies new_env (policies prog)"

section \<open>Inference returns\<close>

fun vars_ty :: "ty \<Rightarrow> u32 set" where
  "vars_ty (TVar v) = {v}"
| "vars_ty (TList t) = vars_ty t"
| "vars_ty _ = {}"

text \<open>A substitution without cycles, by a rank that falls from a variable to what it stands for.\<close>

definition ranked :: "(u32 \<Rightarrow> nat) \<Rightarrow> tsubst \<Rightarrow> bool" where
  "ranked rank s \<longleftrightarrow> (\<forall>v t. s v = Some t \<longrightarrow> (\<forall>w \<in> vars_ty t. rank w < rank v))"

definition acyclic_subst :: "tsubst \<Rightarrow> bool" where
  "acyclic_subst s \<longleftrightarrow> (\<exists>rank. ranked rank s)"

definition resolved :: "tsubst \<Rightarrow> ty \<Rightarrow> bool" where
  "resolved s t \<longleftrightarrow> vars_ty t \<inter> dom s = {}"

lemma apply_ranked:
  assumes "ranked rank s"
  shows "\<forall>w \<in> vars_ty t. rank w < n \<Longrightarrow> \<exists>r. apply_ty s t = Some r \<and> resolved s r"
proof (induction n arbitrary: t)
  case 0
  then show ?case
  proof (induction t)
    case (TList t)
    then show ?case by (subst apply_ty.simps) (auto simp: resolved_def)
  qed (subst apply_ty.simps; auto simp: resolved_def)+
next
  case (Suc n)
  from Suc.prems show ?case
  proof (induction t)
    case (TList t)
    then show ?case by (subst apply_ty.simps) (auto simp: resolved_def)
  next
    case (TVar v)
    show ?case
    proof (cases "s v")
      case None
      then show ?thesis by (subst apply_ty.simps) (auto simp: resolved_def)
    next
      case (Some t')
      then have "\<forall>w \<in> vars_ty t'. rank w < n" using assms TVar by (fastforce simp: ranked_def)
      from Suc.IH [OF this] obtain r where "apply_ty s t' = Some r" "resolved s r" by blast
      with Some show ?thesis by (subst apply_ty.simps) (auto simp: resolved_def)
    qed
  qed (subst apply_ty.simps; auto simp: resolved_def)+
qed

lemma finite_vars_ty [simp]: "finite (vars_ty t)"
  by (induction t) auto

lemma apply_total:
  assumes "acyclic_subst s"
  shows "\<exists>r. apply_ty s t = Some r \<and> resolved s r"
proof -
  from assms obtain rank where rank: "ranked rank s" by (auto simp: acyclic_subst_def)
  have "\<forall>w \<in> vars_ty t. rank w < Suc (Max (rank ` vars_ty t))"
    by (auto simp: less_Suc_eq_le)
  then show ?thesis by (rule apply_ranked [OF rank])
qed

lemma apply_resolved: "resolved s t \<Longrightarrow> apply_ty s t = Some t"
proof (induction t)
  case (TVar v)
  then have "s v = None" by (auto simp: resolved_def)
  then show ?case by (subst apply_ty.simps) simp
next
  case (TList t)
  then show ?case by (subst apply_ty.simps) (simp add: resolved_def)
qed (subst apply_ty.simps; simp)+

lemma occurs_resolved: "resolved s t \<Longrightarrow> occurs_in s v t = Some (v \<in> vars_ty t)"
proof (induction t)
  case (TList t)
  then have "apply_ty s (TList t) = Some (TList t)" by (intro apply_resolved)
  with TList show ?case by (subst occurs_in.simps) (simp add: resolved_def)
qed (subst occurs_in.simps; simp add: apply_resolved; fastforce)+

lemma acyclic_update:
  assumes "acyclic_subst s" "v \<notin> dom s" "resolved s t" "v \<notin> vars_ty t"
  shows "acyclic_subst (s(v \<mapsto> t))"
proof -
  from assms(1) obtain rank where rank: "ranked rank s" by (auto simp: acyclic_subst_def)
  let ?r = "\<lambda>x. if x = v then 1 else if x \<in> dom s then rank x + 2 else 0"
  have "ranked ?r (s(v \<mapsto> t))"
    using rank assms(2-4) unfolding ranked_def by (auto simp: resolved_def split: if_splits)
  then show ?thesis by (auto simp: acyclic_subst_def)
qed

lemma returns_bind_var:
  assumes "acyclic_subst s" "resolved s (TVar v)" "resolved s t"
  shows "returns acyclic_subst (bind_var s v t)"
  using assms acyclic_update [of s v t]
  by (auto simp: bind_var_def occurs_resolved resolved_def returns_def)

lemma returns_unify_resolved:
  assumes "acyclic_subst s"
  shows "resolved s a \<Longrightarrow> resolved s b \<Longrightarrow> returns acyclic_subst (unify s a b)"
proof (induction a arbitrary: b)
  case (TList x)
  have step: "returns acyclic_subst (unify s x y)" if "b = TList y" for y
    using TList that by (auto simp: resolved_def)
  show ?case
    using TList.prems assms step returns_bind_var [OF assms _ TList.prems(1)]
    by (subst unify.simps) (cases b; auto simp: apply_resolved)
next
  case (TVar v)
  then show ?case
    using assms returns_bind_var [OF assms TVar(1)]
    by (subst unify.simps) (cases b; auto simp: apply_resolved)
qed (subst unify.simps, rename_tac b, case_tac b; auto simp: apply_resolved assms intro: returns_bind_var)+

lemma returns_unify:
  assumes "acyclic_subst s"
  shows "returns acyclic_subst (unify s a b)"
proof -
  obtain a' b' where ab: "apply_ty s a = Some a'" "resolved s a'" "apply_ty s b = Some b'" "resolved s b'"
    using apply_total [OF assms] by meson
  then have "unify s a b = unify s a' b'"
    by (subst (1 2) unify.simps) (simp add: apply_resolved)
  with returns_unify_resolved [OF assms ab(2,4)] show ?thesis by simp
qed

lemma returns_env_unify:
  "acyclic_subst (tsubst_of env) \<Longrightarrow> returns (\<lambda>env. acyclic_subst (tsubst_of env)) (env_unify env a b)"
  unfolding env_unify_def by (rule returns_tbind [OF returns_unify]) auto

lemma returns_infer:
  "acyclic_subst (tsubst_of env) \<Longrightarrow> returns (\<lambda>(t, env). acyclic_subst (tsubst_of env)) (infer_expr env e)"
  "acyclic_subst (tsubst_of env) \<Longrightarrow> returns (\<lambda>env. acyclic_subst (tsubst_of env)) (infer_sig_args env as ts)"
  "acyclic_subst (tsubst_of env) \<Longrightarrow> returns (\<lambda>env. acyclic_subst (tsubst_of env)) (infer_plain_args env as)"
proof (induction env e and env as ts and env as rule: infer_expr_infer_sig_args_infer_plain_args.induct)
  case (3 env inner)
  then show ?case
    by (auto intro!: returns_tbind [OF 3(1)] returns_tbind [OF returns_env_unify] split: prod.splits)
next
  case (4 env op l r)
  show ?case
    using 4 by (auto intro!: returns_tbind [OF 4(1)] returns_tbind [OF 4(2)] returns_tbind [OF returns_env_unify]
      split: prod.splits option.splits)
next
  case (5 env u needle haystack)
  then show ?case by (auto intro!: returns_tbind [OF 5(1)] returns_tbind [OF 5(2)] split: prod.splits)
next
  case (6 env name args)
  then show ?case by (auto intro!: returns_tbind [OF 6(1)] returns_tbind [OF 6(2)] simp: fresh_def split: option.splits)
next
  case (7 env a as t ts)
  then show ?case by (auto intro!: returns_tbind [OF 7(1)] returns_tbind [OF returns_env_unify] split: prod.splits)
next
  case (10 env a as)
  then show ?case by (auto intro!: returns_tbind [OF 10(1)] split: prod.splits)
qed auto

lemma infer_policies_returns:
  "acyclic_subst (tsubst_of env) \<Longrightarrow> returns (\<lambda>env. acyclic_subst (tsubst_of env)) (infer_policies env ps)"
proof (induction ps arbitrary: env)
  case (Cons p ps)
  have "returns (\<lambda>env. acyclic_subst (tsubst_of env))
      (case env_unify env' t TBool of None \<Rightarrow> None | Some (Inl e) \<Rightarrow> Some (Inl (when_error (pol_name p) e))
       | Some (Inr env) \<Rightarrow> do {
           resolved \<leftarrow> apply_ty (tsubst_of env) t;
           infer_policies (env\<lparr>when_types := when_types env @ [resolved]\<rparr>) ps })"
    if env': "acyclic_subst (tsubst_of env')" for t env'
  proof -
    from returns_env_unify [OF env', of t TBool] obtain r where r: "env_unify env' t TBool = Some r"
      "\<forall>x. r = Inr x \<longrightarrow> acyclic_subst (tsubst_of x)" by (auto simp: returns_def)
    then show ?thesis
    proof (cases r)
      case (Inr x)
      with r obtain u where "apply_ty (tsubst_of x) t = Some u" using apply_total by blast
      with Inr r Cons.IH show ?thesis by simp
    qed auto
  qed
  then show ?case using Cons.prems
    by (auto intro!: returns_tbind [OF returns_infer(1)] split: prod.splits)
qed auto

end
