(* ===== verification/Dictum_Soundness.thy ===== *)
theory Dictum_Soundness
  imports Dictum_Types
begin

text \<open>
  What a successful type check says about evaluation: values have the inferred type, and on
  the part of the language the checker constrains fully, evaluation meets no type error.
\<close>

section \<open>Values of a type\<close>

fun has_ty :: "dvalue \<Rightarrow> ty \<Rightarrow> bool" where
  "has_ty (VBool _) TBool = True"
| "has_ty (VInt _) TInt = True"
| "has_ty (VStr _) TStr = True"
| "has_ty _ TUnknown = True"
| "has_ty _ (TVar _) = True"
| "has_ty _ _ = False"

fun ground :: "ty \<Rightarrow> bool" where
  "ground TBool = True"
| "ground TInt = True"
| "ground TStr = True"
| "ground _ = False"

lemma has_ty_inverts [simp]:
  "has_ty v TBool \<longleftrightarrow> (\<exists>b. v = VBool b)" "has_ty v TInt \<longleftrightarrow> (\<exists>n. v = VInt n)" "has_ty v TStr \<longleftrightarrow> (\<exists>s. v = VStr s)"
  "has_ty v TUnknown"
  by (cases v; simp)+

lemma apply_ground [simp]: "ground t \<Longrightarrow> apply_ty s t = Some t"
  by (rule apply_resolved) (cases t; simp add: resolved_def)

lemma apply_unknown [simp]: "apply_ty s TUnknown = Some TUnknown"
  by (rule apply_resolved) (simp add: resolved_def)

lemma unify_ground: "ground a \<Longrightarrow> ground b \<Longrightarrow> unify s a b = Some (if a = b then Inr s else Inl (Mismatch a b))"
  by (subst unify.simps) (cases a; cases b; simp)

lemma unify_unknown: "ground a \<Longrightarrow> unify s a TUnknown = Some (Inr s)"
  by (subst unify.simps) (cases a; simp)

lemma env_unify_ground [simp]:
  "ground a \<Longrightarrow> ground b \<Longrightarrow> env_unify env a b = Some (if a = b then Inr env else Inl (Mismatch a b))"
  "ground a \<Longrightarrow> env_unify env a TUnknown = Some (Inr env)"
  by (simp_all add: env_unify_def unify_ground unify_unknown)

section \<open>Preservation\<close>

lemma ebind_Inr: "fst (ebind m f b) = Inr v \<Longrightarrow> \<exists>x b'. m b = (Inr x, b') \<and> fst (f x b') = Inr v"
  by (auto simp: ebind_def split: prod.splits sum.splits)

lemma eret_Inr [simp]: "fst (eret x b) = Inr v \<longleftrightarrow> v = x"
  by (auto simp: eret_def)

lemma elift_Inr [simp]: "fst (elift r b) = Inr v \<longleftrightarrow> r = Inr v"
  by (auto simp: elift_def)

lemma eval_binop_bool: "fst (eval_binop l ctx op x y b) = Inr v \<Longrightarrow> \<exists>c. v = VBool c"
  by (auto simp: cmp_values_def split: if_splits dest!: ebind_Inr)

lemma apply_builtin_type:
  assumes "apply_builtin l name args = Inr v" "builtin_signature name = Some (ret, sig)"
  shows "has_ty v ret"
  using assms unfolding apply_builtin_def builtin_signature_def Let_def
  by (auto split: if_splits list.splits dvalue.splits option.splits)

lemma eval_preserves:
  assumes "infer_expr env e = Some (Inr (t, env'))" "fst (eval_expr l ctx e b) = Inr v"
  shows "has_ty v t"
proof (cases e)
  case (Lit k)
  with assms show ?thesis by (cases k) (auto dest!: ebind_Inr)
next
  case (Unary u x)
  with assms show ?thesis by (cases u) (auto dest!: ebind_Inr)
next
  case (Binary op x y)
  with assms have "t = TBool" by (auto split: option.splits)
  moreover from Binary assms(2) have "\<exists>b'. fst (eval_binop l ctx op x y b') = Inr v"
    by (auto dest!: ebind_Inr simp del: eval_binop.simps)
  ultimately show ?thesis using eval_binop_bool by fastforce
next
  case (Membership neg x y)
  with assms show ?thesis by (auto simp: membership_def dest!: ebind_Inr)
next
  case (Call f args)
  from Call assms(2) obtain b' where ev: "fst (eval_builtin l ctx f args b') = Inr v"
    by (auto dest!: ebind_Inr simp del: eval_builtin.simps)
  show ?thesis
  proof (cases "builtin_signature f")
    case None
    with Call assms(1) have "\<exists>n. t = TVar n" by (auto simp: fresh_def)
    then show ?thesis by (cases v) auto
  next
    case (Some rs)
    obtain ret sig where rs: "rs = (ret, sig)" by force
    with Call Some assms(1) have ret: "t = ret" by (auto split: if_splits)
    show ?thesis
    proof (cases "f = ''secret_ref''")
      case True
      then show ?thesis using ev ret Some rs
        by (auto simp: builtin_signature_def split: list.splits dest!: ebind_Inr)
    next
      case False
      with ev obtain vs where "apply_builtin l f vs = Inr v" by (auto dest!: ebind_Inr)
      with Some rs ret show ?thesis using apply_builtin_type by blast
    qed
  qed
qed (use assms in \<open>auto dest!: ebind_Inr\<close>)

section \<open>The statically typed part\<close>

text \<open>
  The checker leaves paths, membership tests, \<open>len\<close> and unknown calls unconstrained. On what
  remains, a checked expression meets no run-time type error.
\<close>

fun static_expr :: "expr \<Rightarrow> bool" where
  "static_expr (Lit _) = True"
| "static_expr (Path _) = False"
| "static_expr (Call f args) = (builtin_signature f \<noteq> None \<and> f \<noteq> ''len'' \<and> list_all static_expr args)"
| "static_expr (Binary _ x y) = (static_expr x \<and> static_expr y)"
| "static_expr (Unary _ x) = static_expr x"
| "static_expr (Membership _ _ _) = False"

fun benign :: "dictum_error \<Rightarrow> bool" where
  "benign (BudgetExhausted _) = True"
| "benign (EvalError (BadInstant _)) = True"
| "benign _ = False"

text \<open>A step that yields a value satisfying \<open>P\<close> or a benign error.\<close>

definition safe :: "('a \<Rightarrow> bool) \<Rightarrow> 'a ev \<Rightarrow> bool" where
  "safe P m \<longleftrightarrow> (\<forall>b. case fst (m b) of Inr v \<Rightarrow> P v | Inl e \<Rightarrow> benign e)"

lemma safe_tick: "safe (\<lambda>_. True) tick"
  by (simp add: safe_def tick_def)

lemma safe_eret: "P x \<Longrightarrow> safe P (eret x)"
  by (simp add: safe_def eret_def)

lemma safe_elift: "(\<And>e. r = Inl e \<Longrightarrow> benign e) \<Longrightarrow> (\<And>v. r = Inr v \<Longrightarrow> P v) \<Longrightarrow> safe P (elift r)"
  by (auto simp: safe_def elift_def split: sum.splits)

lemma safe_ebind: "safe P m \<Longrightarrow> (\<And>x. P x \<Longrightarrow> safe Q (f x)) \<Longrightarrow> safe Q (ebind m f)"
  unfolding safe_def ebind_def by (auto split: prod.splits sum.splits) (metis fst_conv sum.case)+

lemma safe_tick_bind: "safe Q m \<Longrightarrow> safe Q (ebind tick (\<lambda>_. m))"
  by (rule safe_ebind [OF safe_tick])

text \<open>What inference says of a static expression: a ground type, and no change of the environment.\<close>

lemma static_infer:
  "static_expr e \<Longrightarrow> infer_expr env e = Some (Inr (t, env')) \<Longrightarrow> ground t \<and> env' = env"
  "list_all static_expr as \<Longrightarrow> list_all (\<lambda>t. ground t \<or> t = TUnknown) ts \<Longrightarrow>
   infer_sig_args env as ts = Some (Inr env') \<Longrightarrow> env' = env"
  "True"
proof (induction env e and env as ts and env as arbitrary: t env' and env' rule: infer_expr_infer_sig_args_infer_plain_args.induct)
  case (1 env k)
  then show ?case by (cases k) auto
next
  case (3 env inner)
  then show ?case by (fastforce split: if_splits)
next
  case (4 env op l r)
  then show ?case by (cases op) (fastforce split: if_splits)+
next
  case (6 env name args)
  then obtain ret sig where sig: "builtin_signature name = Some (ret, sig)" by (auto split: option.splits)
  moreover from sig have "ground ret" "list_all (\<lambda>t. ground t \<or> t = TUnknown) sig"
    by (auto simp: builtin_signature_def split: if_splits)
  ultimately show ?case using 6 by (auto split: if_splits)
next
  case (7 env a as t ts)
  then show ?case by (fastforce split: if_splits)
qed auto

lemma static_sig_args:
  "list_all static_expr as \<Longrightarrow> list_all (\<lambda>t. ground t \<or> t = TUnknown) ts \<Longrightarrow> length as = length ts \<Longrightarrow>
   infer_sig_args env as ts = Some (Inr env') \<Longrightarrow>
   list_all2 (\<lambda>a t. \<exists>ta. infer_expr env a = Some (Inr (ta, env)) \<and> (t = TUnknown \<or> ta = t)) as ts"
proof (induction as ts arbitrary: env rule: list_induct2')
  case (4 a as t ts)
  then obtain ta env1 env2 where a: "infer_expr env a = Some (Inr (ta, env1))" "env_unify env1 ta t = Some (Inr env2)"
      "infer_sig_args env2 as ts = Some (Inr env')" by auto
  have ta: "ground ta" "env1 = env" using static_infer(1) [OF _ a(1)] 4 by auto
  with a(2) 4 have "t = TUnknown \<or> ta = t" "env2 = env" by (auto split: if_splits)
  with a ta 4 show ?case by auto
qed auto

lemma apply_builtin_static:
  assumes "builtin_signature f = Some (ret, sig)" "f \<noteq> ''len''" "f \<noteq> ''secret_ref''" "list_all2 has_ty vs sig"
  shows "(\<exists>v. apply_builtin l f vs = Inr v \<and> has_ty v ret) \<or> (\<exists>s. apply_builtin l f vs = Inl (EvalError (BadInstant s)))"
  using assms unfolding apply_builtin_def builtin_signature_def Let_def
  by (auto simp: list_all2_Cons2 split: if_splits option.splits)

lemma safe_eval_args:
  "list_all2 (\<lambda>a t. safe (\<lambda>v. has_ty v t) (eval_expr l ctx a)) as ts \<Longrightarrow>
   safe (\<lambda>vs. list_all2 has_ty vs ts) (eval_args l ctx as)"
proof (induction as ts rule: list_all2_induct)
  case (Cons a as t ts)
  show ?case
    by (simp, rule safe_ebind [OF Cons(1)], rule safe_ebind [OF Cons(3)], rule safe_eret, simp)
qed (simp add: safe_eret)

lemma safe_mono: "safe P m \<Longrightarrow> (\<And>v. P v \<Longrightarrow> Q v) \<Longrightarrow> safe Q m"
  by (auto simp: safe_def split: sum.splits)

fun is_path :: "expr \<Rightarrow> bool" where
  "is_path (Path _) = True"
| "is_path _ = False"

lemma resolve_json_value:
  "\<not> is_path e \<Longrightarrow> resolve_json l ctx e = ebind (eval_expr l ctx e) (\<lambda>v. eret (value_to_json v))"
  by (cases e) (simp_all del: eval_expr.simps)

lemma safe_resolve:
  assumes "safe P (eval_expr l ctx e)"
  shows "safe (\<lambda>_. True) (resolve_json l ctx e)"
proof (cases "is_path e")
  case True
  then show ?thesis by (cases e) (auto intro!: safe_tick_bind safe_eret)
next
  case False
  then show ?thesis by (simp add: resolve_json_value) (rule safe_ebind [OF assms], rule safe_eret, simp)
qed

lemma safe_binop:
  assumes "safe (\<lambda>v. has_ty v t) (eval_expr l ctx x)" "safe (\<lambda>v. has_ty v t') (eval_expr l ctx y)"
    and "operand_types op = Some TInt \<Longrightarrow> t = TInt \<and> t' = TInt"
  shows "safe (\<lambda>v. has_ty v TBool) (eval_binop l ctx op x y)"
proof -
  have cmp: "safe (\<lambda>v. has_ty v TBool) (elift (cmp_values op v w))"
    if "operand_types op = Some TInt" "has_ty v t" "has_ty w t'" for v w
    using that assms(3) by (intro safe_elift) (auto simp: cmp_values_def)
  have short: "safe (\<lambda>v. has_ty v TBool) (ebind (eval_expr l ctx x) (\<lambda>lv.
      if P lv then eret (VBool c) else ebind (eval_expr l ctx y) (\<lambda>rv. eret (VBool (is_truthy rv)))))" for P c
    by (rule safe_ebind [OF assms(1)]) (auto intro!: safe_ebind [OF assms(2)] safe_eret)
  have rest: "safe (\<lambda>v. has_ty v TBool) (ebind (eval_expr l ctx x) (\<lambda>lv. ebind (eval_expr l ctx y) (\<lambda>rv.
      if op = BEq then eret (VBool (values_eq lv rv)) else if op = BNeq then eret (VBool (\<not> values_eq lv rv))
      else elift (cmp_values op lv rv))))" if "op \<noteq> BAnd" "op \<noteq> BOr"
    by (rule safe_ebind [OF assms(1)], rule safe_ebind [OF assms(2)])
       (use cmp that in \<open>cases op; auto intro: safe_eret\<close>)
  show ?thesis using short [of "\<lambda>v. \<not> is_truthy v" False] short [of is_truthy True] rest by simp
qed

lemma safe_builtin:
  assumes "builtin_signature f = Some (ret, sig)" "f \<noteq> ''len''" "length sig = length args"
    and "list_all2 (\<lambda>a t. safe (\<lambda>v. has_ty v t) (eval_expr l ctx a)) args sig"
  shows "safe (\<lambda>v. has_ty v ret) (eval_builtin l ctx f args)"
proof (cases "f = ''secret_ref''")
  case True
  with assms(1,3) obtain a where a: "args = [a]" "ret = TBool"
    by (cases args) (auto simp: builtin_signature_def)
  with assms(4) have "safe (\<lambda>_. True) (resolve_json l ctx a)"
    using True assms(1) by (auto simp: builtin_signature_def list_all2_Cons1 intro: safe_resolve)
  then have "safe (\<lambda>v. has_ty v ret) (ebind (resolve_json l ctx a) (\<lambda>raw. eret (VBool (contains_secret l (secret_haystack l raw)))))"
    using a by (auto intro!: safe_ebind [where P = "\<lambda>_. True"] safe_eret)
  with True a show ?thesis by simp
next
  case False
  have "safe (\<lambda>v. has_ty v ret) (ebind (eval_args l ctx args) (\<lambda>vs. elift (apply_builtin l f vs)))"
  proof (rule safe_ebind [OF safe_eval_args [OF assms(4)]])
    fix vs
    assume "list_all2 has_ty vs sig"
    from apply_builtin_static [OF assms(1,2) False this, of l]
    show "safe (\<lambda>v. has_ty v ret) (elift (apply_builtin l f vs))" by (intro safe_elift) auto
  qed
  with False show ?thesis by simp
qed

lemma static_safe:
  "static_expr e \<Longrightarrow> infer_expr env e = Some (Inr (t, env')) \<Longrightarrow> safe (\<lambda>v. has_ty v t) (eval_expr l ctx e)"
proof (induction e arbitrary: env t env')
  case (Lit k)
  then show ?case by (cases k) (auto intro!: safe_tick_bind safe_eret)
next
  case (Unary u x)
  then obtain tx env1 where x: "infer_expr env x = Some (Inr (tx, env1))" "t = TBool" by (cases u) auto
  with Unary have "safe (\<lambda>v. has_ty v tx) (eval_expr l ctx x)" by simp
  then show ?case using x(2) by (cases u) (auto intro!: safe_tick_bind safe_eret elim: safe_ebind)
next
  case (Binary op x y)
  then obtain tx ty env1 env2 where x: "infer_expr env x = Some (Inr (tx, env1))"
    and y: "infer_expr env1 y = Some (Inr (ty, env2))" by auto
  have g: "ground tx" "ground ty" using static_infer(1) [OF _ x] static_infer(1) [OF _ y] Binary.prems by auto
  have "operand_types op = Some TInt \<Longrightarrow> tx = TInt \<and> ty = TInt" "t = TBool"
    using Binary.prems x y g by (auto split: option.splits if_splits)
  then show ?case
    using safe_tick_bind [OF safe_binop [OF Binary.IH(1) [OF _ x] Binary.IH(2) [OF _ y]]] Binary.prems(1)
    by (simp del: eval_binop.simps)
next
  case (Call f args)
  then obtain ret sig where sig: "builtin_signature f = Some (ret, sig)" "length sig = length args" "t = ret"
      "infer_sig_args env args sig = Some (Inr env')" by (auto split: option.splits if_splits)
  from sig(1) have "list_all (\<lambda>t. ground t \<or> t = TUnknown) sig"
    by (auto simp: builtin_signature_def split: if_splits)
  from static_sig_args [OF _ this _ sig(4)] Call.prems(1) sig(2)
  have "list_all2 (\<lambda>a t. \<exists>ta. infer_expr env a = Some (Inr (ta, env)) \<and> (t = TUnknown \<or> ta = t)) args sig" by simp
  moreover have "safe (\<lambda>v. has_ty v t) (eval_expr l ctx a)"
    if "a \<in> set args" "\<exists>ta. infer_expr env a = Some (Inr (ta, env)) \<and> (t = TUnknown \<or> ta = t)" for a t
  proof -
    from that(2) obtain ta where ta: "infer_expr env a = Some (Inr (ta, env))" "t = TUnknown \<or> ta = t" by blast
    have "static_expr a" using Call.prems(1) that(1) by (simp add: list_all_iff)
    then have "safe (\<lambda>v. has_ty v ta) (eval_expr l ctx a)" using Call.IH [OF that(1)] ta(1) by blast
    then show ?thesis using ta(2) by (auto elim: safe_mono)
  qed
  ultimately have "list_all2 (\<lambda>a t. safe (\<lambda>v. has_ty v t) (eval_expr l ctx a)) args sig"
    by (auto simp: list_all2_conv_all_nth)
  with safe_builtin [OF sig(1) _ sig(2)] Call.prems(1) sig(3) show ?case
    by (auto intro!: safe_tick_bind simp del: eval_builtin.simps)
qed auto

section \<open>The recorded types\<close>

lemma infer_when_type:
  assumes "infer_expr env e = Some (Inr (t, env1))" "env_unify env1 t TBool = Some (Inr env2)"
    and "\<And>f args. e = Call f args \<Longrightarrow> builtin_signature f \<noteq> None"
  shows "t = (if is_path e then TUnknown else TBool)"
proof (cases e)
  case (Lit k)
  then show ?thesis using assms(1,2) by (cases k) auto
next
  case (Unary u x)
  then show ?thesis using assms(1) by (cases u) auto
next
  case (Binary op x y)
  then show ?thesis using assms(1) by (auto split: option.splits)
next
  case (Call f args)
  with assms(3) obtain ret sig where sig: "builtin_signature f = Some (ret, sig)" by fastforce
  then have "ground ret" by (auto simp: builtin_signature_def split: if_splits)
  moreover have "t = ret" using assms(1) Call sig by (auto split: if_splits)
  ultimately show ?thesis using assms(2) Call by (auto split: if_splits)
qed (use assms in auto)

lemma env_unify_when_types: "env_unify env a b = Some (Inr env') \<Longrightarrow> when_types env' = when_types env"
  by (auto simp: env_unify_def)

lemma infer_keeps_when_types:
  "infer_expr env e = Some (Inr (t, env')) \<Longrightarrow> when_types env' = when_types env"
  "infer_sig_args env as ts = Some (Inr env') \<Longrightarrow> when_types env' = when_types env"
  "infer_plain_args env as = Some (Inr env') \<Longrightarrow> when_types env' = when_types env"
proof (induction env e and env as ts and env as arbitrary: t env' and env' and env'
    rule: infer_expr_infer_sig_args_infer_plain_args.induct)
qed (fastforce simp: fresh_def dest: env_unify_when_types split: option.splits if_splits)+

lemma infer_policies_types:
  "infer_policies env ps = Some (Inr env') \<Longrightarrow>
   (\<And>p f args. p \<in> set ps \<Longrightarrow> pol_when p = Call f args \<Longrightarrow> builtin_signature f \<noteq> None) \<Longrightarrow>
   when_types env' = when_types env @ map (\<lambda>p. if is_path (pol_when p) then TUnknown else TBool) ps"
proof (induction ps arbitrary: env)
  case (Cons p ps)
  from Cons.prems(1) obtain t env1 where e: "infer_expr env (pol_when p) = Some (Inr (t, env1))" by auto
  with Cons.prems(1) obtain env2 r where step: "infer_expr env (pol_when p) = Some (Inr (t, env1))"
      "env_unify env1 t TBool = Some (Inr env2)" "apply_ty (tsubst_of env2) t = Some r"
      "infer_policies (env2\<lparr>when_types := when_types env2 @ [r]\<rparr>) ps = Some (Inr env')"
    by (cases "env_unify env1 t TBool"; cases "the (env_unify env1 t TBool)") (auto simp: bind_eq_Some_conv)
  have t: "t = (if is_path (pol_when p) then TUnknown else TBool)"
    using infer_when_type [OF step(1,2)] Cons.prems(2) by fastforce
  then have "r = t" using step(3) by auto
  moreover have "when_types env2 = when_types env"
    using infer_keeps_when_types(1) [OF step(1)] env_unify_when_types [OF step(2)] by simp
  moreover have "when_types env' = when_types (env2\<lparr>when_types := when_types env2 @ [r]\<rparr>) @
      map (\<lambda>p. if is_path (pol_when p) then TUnknown else TBool) ps"
    by (rule Cons.IH [OF step(4)]) (meson Cons.prems(2) list.set_intros(2))
  ultimately show ?case using t by simp
qed simp

end
