(* ===== verification/Dictum_Wasm.thy ===== *)
theory Dictum_Wasm
  imports Dictum_Soundness
begin

text \<open>
  The WebAssembly back end (\<open>crates/iaga-sentinel-dictum/src/wasm.rs\<close>). The instructions are the ones
  the code emits; their meaning is that of the WebAssembly core specification on a stack of
  32-bit values. The byte encoding of the module is left to \<open>wasm_encoder\<close>.
\<close>

section \<open>Code generation\<close>

datatype wasm_instr =
    I32Const i32 | I32Eqz | I32Eq | I32Ne | I32LtS | I32GtS | I32LeS | I32GeS | I32And | I32Or | End

datatype wasm_compile_error =
    UnsupportedPath "string list"
  | UnsupportedCall string
  | UnsupportedMembership
  | TypeMismatch

fun binop_instr :: "binop \<Rightarrow> wasm_instr" where
  "binop_instr BEq = I32Eq"
| "binop_instr BNeq = I32Ne"
| "binop_instr BLt = I32LtS"
| "binop_instr BGt = I32GtS"
| "binop_instr BLe = I32LeS"
| "binop_instr BGe = I32GeS"
| "binop_instr BAnd = I32And"
| "binop_instr BOr = I32Or"

text \<open>The function body under construction is threaded through; an error abandons it.\<close>

fun emit_expr :: "expr \<Rightarrow> wasm_instr list \<Rightarrow> wasm_compile_error + wasm_instr list" where
  "emit_expr (Lit (LBool b)) f = Inr (f @ [I32Const (if b then 1 else 0)])"
| "emit_expr (Lit (LInt n)) f = Inr (f @ [I32Const (ucast n)])"
| "emit_expr (Lit (LStr _)) f = Inl TypeMismatch"
| "emit_expr (Path segs) f = Inl (UnsupportedPath segs)"
| "emit_expr (Call name _) f = Inl (UnsupportedCall name)"
| "emit_expr (Membership _ _ _) f = Inl UnsupportedMembership"
| "emit_expr (Unary UNot inner) f = rbind (emit_expr inner f) (\<lambda>f. Inr (f @ [I32Eqz]))"
| "emit_expr (Binary op l r) f =
     rbind (emit_expr l f) (\<lambda>f. rbind (emit_expr r f) (\<lambda>f. Inr (f @ [binop_instr op])))"

text \<open>\<open>chars().map\<close> on UTF-8: a character is one leading byte with its continuation bytes.\<close>

definition ascii_alnum :: "char \<Rightarrow> bool" where
  "ascii_alnum ch \<longleftrightarrow> (let n = (of_char ch :: nat) in
     48 \<le> n \<and> n \<le> 57 \<or> 65 \<le> n \<and> n \<le> 90 \<or> 97 \<le> n \<and> n \<le> 122)"

definition sanitize_export :: "string \<Rightarrow> string" where
  "sanitize_export name =
     map (\<lambda>ch. if ascii_alnum ch then ch else CHR ''_'')
       (filter (\<lambda>ch. \<not> (128 \<le> (of_char ch :: nat) \<and> (of_char ch :: nat) < 192)) name)"

record wasm_program =
  wp_functions :: "wasm_instr list list"
  wp_exports :: "(string \<times> nat) list"
  wp_policy_count :: u32

definition compile_policy :: "dictum_policy \<Rightarrow> wasm_compile_error + wasm_instr list" where
  "compile_policy p = rbind (emit_expr (pol_when p) []) (\<lambda>f. Inr (f @ [End]))"

definition compile_to_wasm :: "dictum_program \<Rightarrow> wasm_compile_error + wasm_program" where
  "compile_to_wasm prog =
     rbind (collect_results compile_policy (policies prog)) (\<lambda>codes.
       Inr \<lparr>wp_functions = codes,
            wp_exports = map (\<lambda>(i, p). (''eval_'' @ sanitize_export (pol_name p), i)) (enumerate 0 (policies prog)),
            wp_policy_count = of_nat (length (policies prog))\<rparr>)"

section \<open>Execution\<close>

definition of_bool32 :: "bool \<Rightarrow> i32" where
  "of_bool32 b = (if b then 1 else 0)"

fun exec_instr :: "wasm_instr \<Rightarrow> i32 list \<Rightarrow> i32 list option" where
  "exec_instr (I32Const n) st = Some (n # st)"
| "exec_instr I32Eqz (a # st) = Some (of_bool32 (a = 0) # st)"
| "exec_instr I32Eq (b # a # st) = Some (of_bool32 (a = b) # st)"
| "exec_instr I32Ne (b # a # st) = Some (of_bool32 (a \<noteq> b) # st)"
| "exec_instr I32LtS (b # a # st) = Some (of_bool32 (sint a < sint b) # st)"
| "exec_instr I32GtS (b # a # st) = Some (of_bool32 (sint b < sint a) # st)"
| "exec_instr I32LeS (b # a # st) = Some (of_bool32 (sint a \<le> sint b) # st)"
| "exec_instr I32GeS (b # a # st) = Some (of_bool32 (sint b \<le> sint a) # st)"
| "exec_instr I32And (b # a # st) = Some (and a b # st)"
| "exec_instr I32Or (b # a # st) = Some (or a b # st)"
| "exec_instr End st = Some st"
| "exec_instr _ _ = None"

fun exec :: "wasm_instr list \<Rightarrow> i32 list \<Rightarrow> i32 list option" where
  "exec [] st = Some st"
| "exec (i # is) st = (case exec_instr i st of None \<Rightarrow> None | Some st' \<Rightarrow> exec is st')"

lemma exec_append: "exec (xs @ ys) st = (case exec xs st of None \<Rightarrow> None | Some st' \<Rightarrow> exec ys st')"
  by (induction xs arbitrary: st) (auto split: option.splits)

section \<open>Agreement with the tree walk\<close>

text \<open>Integer literals that survive the truncation to 32 bits.\<close>

definition in_i32 :: "i64 \<Rightarrow> bool" where
  "in_i32 n \<longleftrightarrow> - (2 ^ 31) \<le> sint n \<and> sint n < 2 ^ 31"

fun fits_i32 :: "expr \<Rightarrow> bool" where
  "fits_i32 (Lit (LInt n)) = in_i32 n"
| "fits_i32 (Binary _ l r) = (fits_i32 l \<and> fits_i32 r)"
| "fits_i32 (Unary _ e) = fits_i32 e"
| "fits_i32 _ = True"

fun enc :: "dvalue \<Rightarrow> i32" where
  "enc (VBool b) = of_bool32 b"
| "enc (VInt n) = ucast n"
| "enc _ = 0"

fun encodable :: "dvalue \<Rightarrow> bool" where
  "encodable (VBool _) = True"
| "encodable (VInt n) = in_i32 n"
| "encodable _ = False"

lemma sint_ucast_i32: "in_i32 n \<Longrightarrow> sint (ucast n :: i32) = sint n"
proof -
  assume n: "in_i32 n"
  have "sint (ucast n :: i32) = signed_take_bit 31 (uint n)" by (simp add: signed_ucast_eq)
  also have "\<dots> = signed_take_bit 31 (sint n)"
    by (simp add: sint_uint signed_take_bit_signed_take_bit)
  also have "\<dots> = sint n" using n by (intro signed_take_bit_int_eq_self) (auto simp: in_i32_def)
  finally show ?thesis .
qed

lemma ucast_i32_eq: "in_i32 m \<Longrightarrow> in_i32 n \<Longrightarrow> (ucast m :: i32) = ucast n \<longleftrightarrow> m = n"
  by (metis sint_ucast_i32 signed_word_eqI)

text \<open>The binary instructions on the encodings of typed operands.\<close>

definition binop_value :: "binop \<Rightarrow> dvalue \<Rightarrow> dvalue \<Rightarrow> dvalue" where
  "binop_value op v w =
     (case op of
        BAnd \<Rightarrow> VBool (is_truthy v \<and> is_truthy w)
      | BOr \<Rightarrow> VBool (is_truthy v \<or> is_truthy w)
      | BEq \<Rightarrow> VBool (values_eq v w)
      | BNeq \<Rightarrow> VBool (\<not> values_eq v w)
      | _ \<Rightarrow> projr (cmp_values op v w))"

definition typed_operands :: "binop \<Rightarrow> dvalue \<Rightarrow> dvalue \<Rightarrow> bool" where
  "typed_operands op v w \<longleftrightarrow>
     (operand_types op = Some TBool \<longrightarrow> has_ty v TBool \<and> has_ty w TBool) \<and>
     (operand_types op = Some TInt \<longrightarrow> has_ty v TInt \<and> has_ty w TInt) \<and>
     (operand_types op = None \<longrightarrow> has_ty v TBool \<and> has_ty w TBool \<or> has_ty v TInt \<and> has_ty w TInt)"

lemma binop_bools:
  assumes "operand_types op \<noteq> Some TInt"
  shows "exec_instr (binop_instr op) (of_bool32 b # of_bool32 a # st) =
      Some (enc (binop_value op (VBool a) (VBool b)) # st)"
    and "\<exists>c. binop_value op (VBool a) (VBool b) = VBool c"
proof -
  show "exec_instr (binop_instr op) (of_bool32 b # of_bool32 a # st) =
      Some (enc (binop_value op (VBool a) (VBool b)) # st)"
    using assms by (cases op; cases a; cases b; simp add: binop_value_def values_eq_def of_bool32_def)
  show "\<exists>c. binop_value op (VBool a) (VBool b) = VBool c"
    using assms by (cases op) (simp_all add: binop_value_def)
qed

lemma binop_ints:
  assumes "operand_types op \<noteq> Some TBool" "in_i32 m" "in_i32 n"
  shows "exec_instr (binop_instr op) (ucast n # ucast m # st) =
      Some (enc (binop_value op (VInt m) (VInt n)) # st)"
    and "\<exists>c. binop_value op (VInt m) (VInt n) = VBool c"
proof -
  have ord: "(if sint m < sint n then Less else if m = n then Equal else Greater) = Less \<longleftrightarrow> sint m < sint n"
    "(if sint m < sint n then Less else if m = n then Equal else Greater) = Greater \<longleftrightarrow> sint n < sint m"
    by (auto simp: not_less order_le_less dest: signed_word_eqI)
  show "\<exists>c. binop_value op (VInt m) (VInt n) = VBool c"
    using assms(1) by (cases op) (simp_all add: binop_value_def cmp_values_def)
  show "exec_instr (binop_instr op) (ucast n # ucast m # st) = Some (enc (binop_value op (VInt m) (VInt n)) # st)"
    using assms
    by (cases op) (simp_all add: binop_value_def cmp_values_def values_eq_def ord sint_ucast_i32 ucast_i32_eq not_less
        del: of_bool_eq)
qed

lemma exec_binop:
  assumes "encodable v" "encodable w" "typed_operands op v w"
  shows "exec_instr (binop_instr op) (enc w # enc v # st) = Some (enc (binop_value op v w) # st)"
    and "\<exists>b. binop_value op v w = VBool b"
proof -
  have "(\<exists>a b. v = VBool a \<and> w = VBool b \<and> operand_types op \<noteq> Some TInt) \<or>
      (\<exists>m n. v = VInt m \<and> w = VInt n \<and> operand_types op \<noteq> Some TBool)"
    using assms(3) by (cases op) (auto simp: typed_operands_def)
  then show "exec_instr (binop_instr op) (enc w # enc v # st) = Some (enc (binop_value op v w) # st)"
    and "\<exists>b. binop_value op v w = VBool b"
    using assms(1,2) binop_bools binop_ints by fastforce+
qed

text \<open>Cost and result of a binary node from those of its operands, short circuits included.\<close>

lemma cmp_values_projr:
  "typed_operands op v w \<Longrightarrow> operand_types op = Some TInt \<Longrightarrow> cmp_values op v w = Inr (projr (cmp_values op v w))"
  by (auto simp: typed_operands_def cmp_values_def)

lemma costs_mapped: "costs j (Inr x) m \<Longrightarrow> costs j (Inr (g x)) (ebind m (\<lambda>x. eret (g x)))"
  using costs_bind [OF _ costs_eret] by fastforce

lemma costs_leaf: "costs 1 (Inr v) (ebind tick (\<lambda>_. eret v))"
  using costs_bind [OF costs_tick, of 0 "Inr v" "\<lambda>_. eret v"] costs_eret by fastforce

lemma costs_binop:
  assumes "costs i (Inr v) (eval_expr l ctx x)" "costs j (Inr w) (eval_expr l ctx y)" "typed_operands op v w"
  shows "\<exists>k. k \<le> i + j \<and> costs k (Inr (binop_value op v w)) (eval_binop l ctx op x y)"
proof -
  have short: "\<exists>k. k \<le> i + j \<and> costs k (Inr (VBool (if P v then c else is_truthy w))) (ebind (eval_expr l ctx x) (\<lambda>lv.
      if P lv then eret (VBool c) else ebind (eval_expr l ctx y) (\<lambda>rv. eret (VBool (is_truthy rv)))))" for P c
  proof (cases "P v")
    case True
    then show ?thesis using costs_bind [OF assms(1) costs_eret] by (intro exI [of _ i]) (auto intro!: costs_bind [OF assms(1), of 0, simplified] costs_eret)
  next
    case False
    then show ?thesis using costs_mapped [OF assms(2)] by (intro exI [of _ "i + j"]) (auto intro!: costs_bind [OF assms(1)])
  qed
  have rest: "costs (i + j) (Inr (binop_value op v w)) (ebind (eval_expr l ctx x) (\<lambda>lv. ebind (eval_expr l ctx y) (\<lambda>rv.
      if op = BEq then eret (VBool (values_eq lv rv)) else if op = BNeq then eret (VBool (\<not> values_eq lv rv))
      else elift (cmp_values op lv rv))))" if op: "op \<noteq> BAnd" "op \<noteq> BOr"
  proof (rule costs_bind [OF assms(1)], rule costs_bind [OF assms(2), of 0, simplified])
    show "costs 0 (Inr (binop_value op v w)) (if op = BEq then eret (VBool (values_eq v w))
        else if op = BNeq then eret (VBool (\<not> values_eq v w)) else elift (cmp_values op v w))"
      using op cmp_values_projr [OF assms(3)] costs_elift [of "cmp_values op v w"]
      by (cases op) (simp_all add: binop_value_def costs_eret)
  qed
  show ?thesis
  proof (cases "op = BAnd \<or> op = BOr")
    case True
    then show ?thesis using short [of "\<lambda>v. \<not> is_truthy v" False] short [of is_truthy True]
      by (auto simp: binop_value_def split: if_splits)
  next
    case False
    then show ?thesis using rest by (intro exI [of _ "i + j"]) simp
  qed
qed

lemma operand_types_ground: "operand_types op = Some t \<Longrightarrow> t = TBool \<or> t = TInt"
  by (cases op) auto

lemma infer_operands:
  assumes "infer_expr env (Binary op x y) = Some (Inr (t, env'))" "infer_expr env x = Some (Inr (tx, env1))"
    and "infer_expr env1 y = Some (Inr (ty, env2))" "ground tx" "ground ty"
  shows "case operand_types op of None \<Rightarrow> tx = ty | Some u \<Rightarrow> tx = u \<and> ty = u" "t = TBool" "env' = env2"
proof (atomize (full), cases "operand_types op")
  case None
  then show "(case operand_types op of None \<Rightarrow> tx = ty | Some u \<Rightarrow> tx = u \<and> ty = u) \<and> t = TBool \<and> env' = env2"
    using assms by (auto split: if_splits)
next
  case (Some u)
  then show "(case operand_types op of None \<Rightarrow> tx = ty | Some u \<Rightarrow> tx = u \<and> ty = u) \<and> t = TBool \<and> env' = env2"
    using assms operand_types_ground [OF Some] by (auto split: if_splits)
qed

lemma typed_operandsI:
  assumes "case operand_types op of None \<Rightarrow> tx = ty | Some u \<Rightarrow> tx = u \<and> ty = u"
    and "has_ty v tx" "encodable v" "has_ty w ty" "encodable w" "ground tx"
  shows "typed_operands op v w"
proof -
  have "(\<exists>b. v = VBool b) \<or> (\<exists>n. v = VInt n)" using assms(3) by (cases v) auto
  moreover have "(\<exists>b. w = VBool b) \<or> (\<exists>n. w = VInt n)" using assms(5) by (cases w) auto
  ultimately show ?thesis using assms(1,2,4,6) unfolding typed_operands_def
    by (cases "operand_types op"; cases tx) auto
qed

text \<open>The generated code leaves the encoding of the value on the stack.\<close>

lemma emit_correct:
  "emit_expr e f = Inr f' \<Longrightarrow> infer_expr env e = Some (Inr (t, env')) \<Longrightarrow> fits_i32 e \<Longrightarrow>
   \<exists>code v j. f' = f @ code \<and> j \<le> nodes e \<and> costs j (Inr v) (eval_expr l ctx e) \<and> has_ty v t \<and> ground t \<and> env' = env \<and>
     encodable v \<and> (\<forall>st. exec code st = Some (enc v # st))"
proof (induction e arbitrary: f f' env t env')
  case (Lit k)
  show ?case
  proof (cases k)
    case (LInt n)
    with Lit show ?thesis
      using costs_leaf [of "VInt n"]
      by (intro exI [of _ "[I32Const (ucast n)]"] exI [of _ "VInt n"] exI [of _ 1]) auto
  next
    case (LBool b)
    with Lit show ?thesis
      using costs_leaf [of "VBool b"]
      by (intro exI [of _ "[I32Const (of_bool32 b)]"] exI [of _ "VBool b"] exI [of _ 1]) (auto simp: of_bool32_def)
  qed (use Lit in auto)
next
  case (Unary u x)
  obtain u: "u = UNot" by (cases u) simp
  from Unary.prems u obtain g tx env1 where x: "emit_expr x f = Inr g" "infer_expr env x = Some (Inr (tx, env1))"
    "f' = g @ [I32Eqz]" "t = TBool" "env_unify env1 tx TBool = Some (Inr env')" by auto
  from Unary.IH [OF x(1,2)] Unary.prems(3) obtain code v j where v: "g = f @ code" "j \<le> nodes x"
    "costs j (Inr v) (eval_expr l ctx x)" "has_ty v tx" "ground tx" "env1 = env" "encodable v"
    "\<forall>st. exec code st = Some (enc v # st)" by auto
  from x(5) v(4,5) obtain b where b: "v = VBool b" "env' = env1" by (auto split: if_splits)
  have "costs (1 + j) (Inr (VBool (\<not> is_truthy v))) (eval_expr l ctx (Unary u x))"
    using costs_bind [OF costs_tick costs_mapped [OF v(3)]] u by simp
  then show ?case using v b x
    by (intro exI [of _ "code @ [I32Eqz]"] exI [of _ "VBool (\<not> is_truthy v)"] exI [of _ "1 + j"])
       (auto simp: exec_append of_bool32_def)
next
  case (Binary op x y)
  from Binary.prems obtain g h tx ty env1 env2 where xy: "emit_expr x f = Inr g" "emit_expr y g = Inr h"
    "infer_expr env x = Some (Inr (tx, env1))" "infer_expr env1 y = Some (Inr (ty, env2))" "f' = h @ [binop_instr op]" by auto
  from Binary.IH(1) [OF xy(1,3)] Binary.prems(3) obtain cx v i where v: "g = f @ cx" "i \<le> nodes x"
    "costs i (Inr v) (eval_expr l ctx x)" "has_ty v tx" "ground tx" "env1 = env" "encodable v"
    "\<forall>st. exec cx st = Some (enc v # st)" by auto
  from Binary.IH(2) [OF xy(2,4)] Binary.prems(3) obtain cy w j where w: "h = g @ cy" "j \<le> nodes y"
    "costs j (Inr w) (eval_expr l ctx y)" "has_ty w ty" "ground ty" "env2 = env1" "encodable w"
    "\<forall>st. exec cy st = Some (enc w # st)" by auto
  have typed: "typed_operands op v w" "t = TBool" "env' = env"
    using infer_operands [OF Binary.prems(2) xy(3,4) v(5) w(5)] typed_operandsI [OF _ v(4,7) w(4,7) v(5)] v(6) w(6) by blast+
  obtain k where k: "k \<le> i + j" "costs k (Inr (binop_value op v w)) (eval_binop l ctx op x y)"
    using costs_binop [OF v(3) w(3) typed(1)] by blast
  have "costs (1 + k) (Inr (binop_value op v w)) (eval_expr l ctx (Binary op x y))"
    using costs_bind [OF costs_tick k(2)] by simp
  moreover obtain c where "binop_value op v w = VBool c" using exec_binop(2) [OF v(7) w(7) typed(1)] by blast
  ultimately show ?case using v w k xy typed exec_binop(1) [OF v(7) w(7) typed(1)]
    by (intro exI [of _ "cx @ cy @ [binop_instr op]"] exI [of _ "binop_value op v w"] exI [of _ "1 + k"])
       (auto simp: exec_append)
qed auto

end
