(* ===== verification/Dictum_Parser.thy ===== *)
theory Dictum_Parser
  imports Dictum_Eval
begin

text \<open>
  The lexer wrapper and the recursive-descent parser of Dictum
  (\<open>crates/iaga-sentinel-dictum/src/lexer.rs\<close>, \<open>parser.rs\<close>). The automaton that \<open>logos\<close> derives from
  the token patterns is a parameter; the callbacks, positions and the parser are modelled. A
  parser state is the list of tokens from the current position on. The parser's functions
  call each other through loops, so they take fuel; that \<open>n + 3\<close> units suffice for \<open>n\<close>
  tokens is proved below.
\<close>

section \<open>Tokens\<close>

fun unescape_chars :: "string \<Rightarrow> string option" where
  "unescape_chars [] = Some []"
| "unescape_chars (ch # rest) =
     (if ch = CHR 0x5C then
        (case rest of
           [] \<Rightarrow> None
         | esc # rest' \<Rightarrow>
             map_option (\<lambda>out.
               (if esc = CHR ''n'' then [CHR 0x0A]
                else if esc = CHR ''r'' then [CHR 0x0D]
                else if esc = CHR ''t'' then [CHR 0x09]
                else if esc = CHR 0x22 then [CHR 0x22]
                else if esc = CHR 0x5C then [CHR 0x5C]
                else [CHR 0x5C, esc]) @ out) (unescape_chars rest'))
      else map_option (\<lambda>out. ch # out) (unescape_chars rest))"

definition unescape :: "string \<Rightarrow> string option" where
  "unescape raw = unescape_chars (butlast (tl raw))"

definition digits_value :: "string \<Rightarrow> int" where
  "digits_value ds = foldl (\<lambda>n d. 10 * n + (int (of_char d) - 48)) 0 ds"

definition parse_i64 :: "string \<Rightarrow> i64 option" where
  "parse_i64 s =
     (let n = (case s of ch # ds \<Rightarrow> if ch = CHR ''-'' then - digits_value ds else digits_value s | [] \<Rightarrow> 0)
      in if - (2 ^ 63) \<le> n \<and> n < 2 ^ 63 then Some (of_int n) else None)"

text \<open>What the automaton recognises: a fixed token, a pattern with its text, or nothing.\<close>

datatype lexeme = Fixed token | RawStr string | RawInt string | RawIdent string | NoMatch

fun lex_callback :: "lexeme \<Rightarrow> token option" where
  "lex_callback (Fixed t) = Some t"
| "lex_callback (RawStr s) = map_option TkStr (unescape s)"
| "lex_callback (RawInt s) = map_option TkInt (parse_i64 s)"
| "lex_callback (RawIdent s) = Some (TkIdent s)"
| "lex_callback NoMatch = None"

text \<open>The loop of \<open>line_col\<close> over the bytes; continuation bytes belong to the character before.\<close>

fun line_col_from :: "nat \<Rightarrow> u32 \<Rightarrow> u32 \<Rightarrow> nat \<Rightarrow> string \<Rightarrow> u32 \<times> u32" where
  "line_col_from i line col off [] = (line, col)"
| "line_col_from i line col off (ch # s) =
     (if i \<ge> off then (line, col)
      else if 128 \<le> (of_char ch :: nat) \<and> (of_char ch :: nat) < 192 then line_col_from (Suc i) line col off s
      else if ch = CHR 0x0A then line_col_from (Suc i) (line + 1) 1 off s
      else line_col_from (Suc i) line (col + 1) off s)"

definition line_col :: "string \<Rightarrow> nat \<Rightarrow> u32 \<times> u32" where
  "line_col src off = line_col_from 0 1 1 off src"

type_synonym ptoken = "token \<times> u32 \<times> u32"

fun tokenize_loop :: "string \<Rightarrow> (lexeme \<times> nat \<times> nat) list \<Rightarrow> dictum_error + ptoken list" where
  "tokenize_loop src [] = Inr []"
| "tokenize_loop src ((lx, start, stop) # ls) =
     (let (line, col) = line_col src start in
      case lex_callback lx of
        Some tok \<Rightarrow> rbind (tokenize_loop src ls) (\<lambda>out. Inr ((tok, line, col) # out))
      | None \<Rightarrow> Inl (ParseError line col (UnexpectedCharacter (take (stop - start) (drop start src)))))"

definition strip_bom :: "string \<Rightarrow> string" where
  "strip_bom src = (if prefix [CHR 0xEF, CHR 0xBB, CHR 0xBF] src then drop 3 src else src)"

definition tokenize :: "(string \<Rightarrow> (lexeme \<times> nat \<times> nat) list) \<Rightarrow> string \<Rightarrow> dictum_error + ptoken list" where
  "tokenize lexer src = (let src = strip_bom src in tokenize_loop src (lexer src))"

section \<open>Parser primitives\<close>

type_synonym 'a parsed = "(dictum_error + 'a \<times> ptoken list) option"

fun peek :: "ptoken list \<Rightarrow> token option" where
  "peek [] = None"
| "peek ((t, _, _) # _) = Some t"

fun peek_lc :: "ptoken list \<Rightarrow> u32 \<times> u32" where
  "peek_lc [] = (0, 0)"
| "peek_lc ((_, l, c) # _) = (l, c)"

definition perr :: "ptoken list \<Rightarrow> parse_fault \<Rightarrow> 'a parsed" where
  "perr ts f = Some (Inl (ParseError (fst (peek_lc ts)) (snd (peek_lc ts)) f))"

text \<open>\<open>advance\<close> at the end of the input leaves the position alone; \<open>tl []\<close> does the same.\<close>

definition expect :: "token \<Rightarrow> ptoken list \<Rightarrow> unit parsed" where
  "expect tok ts = (if peek ts = Some tok then Some (Inr ((), tl ts)) else perr (tl ts) (Expected tok (peek ts)))"

fun compare_op :: "token option \<Rightarrow> binop option" where
  "compare_op (Some TkEqEq) = Some BEq"
| "compare_op (Some TkNotEq) = Some BNeq"
| "compare_op (Some TkLt) = Some BLt"
| "compare_op (Some TkGt) = Some BGt"
| "compare_op (Some TkLtEq) = Some BLe"
| "compare_op (Some TkGtEq) = Some BGe"
| "compare_op _ = None"

function path_loop :: "string list \<Rightarrow> ptoken list \<Rightarrow> string list parsed" where
  "path_loop segs ts =
     (if peek ts = Some TkDot then
        (case peek (tl ts) of
           Some (TkIdent s) \<Rightarrow> path_loop (segs @ [s]) (tl (tl ts))
         | _ \<Rightarrow> perr (tl (tl ts)) ExpectedIdentAfterDot)
      else Some (Inr (segs, ts)))"
  by pat_completeness auto
termination
  by (relation "measure (\<lambda>(segs, ts). length ts)") (auto elim: peek.elims)

declare path_loop.simps [simp del]

text \<open>The first match of \<open>parse_primary\<close>, on the token it consumes.\<close>

datatype primary_start = StartLit lit | StartParen | StartIdent string | StartOther

fun primary_start_of :: "token option \<Rightarrow> primary_start" where
  "primary_start_of (Some TkTrue) = StartLit (LBool True)"
| "primary_start_of (Some TkFalse) = StartLit (LBool False)"
| "primary_start_of (Some (TkInt i)) = StartLit (LInt i)"
| "primary_start_of (Some (TkStr s)) = StartLit (LStr s)"
| "primary_start_of (Some TkLParen) = StartParen"
| "primary_start_of (Some (TkIdent s)) = StartIdent s"
| "primary_start_of _ = StartOther"

section \<open>Expressions\<close>

text \<open>
  The levels of the grammar, from the innermost out. Each takes the parser for nested
  expressions, \<open>pe\<close>, which \<open>parse_expr\<close> ties at the end with one unit of fuel less.
\<close>

fun args_loop :: "nat \<Rightarrow> (ptoken list \<Rightarrow> expr parsed) \<Rightarrow> expr list \<Rightarrow> ptoken list \<Rightarrow> expr list parsed" where
  "args_loop 0 pe args ts = None"
| "args_loop (Suc n) pe args ts =
     tbind (pe ts) (\<lambda>(a, ts).
       if peek ts = Some TkComma then args_loop n pe (args @ [a]) (tl ts) else Some (Inr (args @ [a], ts)))"

definition parse_primary :: "nat \<Rightarrow> (ptoken list \<Rightarrow> expr parsed) \<Rightarrow> ptoken list \<Rightarrow> expr parsed" where
  "parse_primary n pe ts =
     (case primary_start_of (peek ts) of
        StartLit k \<Rightarrow> Some (Inr (Lit k, tl ts))
      | StartParen \<Rightarrow>
          tbind (pe (tl ts)) (\<lambda>(e, ts). tbind (expect TkRParen ts) (\<lambda>(_, ts). Some (Inr (e, ts))))
      | StartIdent first \<Rightarrow>
          if peek (tl ts) = Some TkLParen then
            tbind (if peek (tl (tl ts)) = Some TkRParen then Some (Inr ([], tl (tl ts)))
                   else args_loop n pe [] (tl (tl ts))) (\<lambda>(args, ts).
              tbind (expect TkRParen ts) (\<lambda>(_, ts). Some (Inr (Call first args, ts))))
          else tbind (path_loop [first] (tl ts)) (\<lambda>(segs, ts). Some (Inr (Path segs, ts)))
      | StartOther \<Rightarrow> perr (tl ts) (UnexpectedToken (peek ts)))"

definition parse_membership :: "nat \<Rightarrow> (ptoken list \<Rightarrow> expr parsed) \<Rightarrow> ptoken list \<Rightarrow> expr parsed" where
  "parse_membership n pe ts =
     tbind (parse_primary n pe ts) (\<lambda>(left, ts).
       if peek ts = Some TkIn then
         tbind (parse_primary n pe (tl ts)) (\<lambda>(right, ts). Some (Inr (Membership False left right, ts)))
       else if peek ts = Some TkNot then
         (if peek (tl ts) = Some TkIn then
            tbind (parse_primary n pe (tl (tl ts))) (\<lambda>(right, ts). Some (Inr (Membership True left right, ts)))
          else Some (Inr (left, ts)))
       else Some (Inr (left, ts)))"

definition parse_compare :: "nat \<Rightarrow> (ptoken list \<Rightarrow> expr parsed) \<Rightarrow> ptoken list \<Rightarrow> expr parsed" where
  "parse_compare n pe ts =
     tbind (parse_membership n pe ts) (\<lambda>(left, ts).
       case compare_op (peek ts) of
         Some op \<Rightarrow> tbind (parse_membership n pe (tl ts)) (\<lambda>(right, ts). Some (Inr (Binary op left right, ts)))
       | None \<Rightarrow> Some (Inr (left, ts)))"

fun parse_not :: "nat \<Rightarrow> (ptoken list \<Rightarrow> expr parsed) \<Rightarrow> ptoken list \<Rightarrow> expr parsed" where
  "parse_not 0 pe ts = None"
| "parse_not (Suc n) pe ts =
     (if peek ts = Some TkNot then tbind (parse_not n pe (tl ts)) (\<lambda>(inner, ts). Some (Inr (Unary UNot inner, ts)))
      else parse_compare n pe ts)"

fun and_loop :: "nat \<Rightarrow> (ptoken list \<Rightarrow> expr parsed) \<Rightarrow> expr \<Rightarrow> ptoken list \<Rightarrow> expr parsed" where
  "and_loop 0 pe left ts = None"
| "and_loop (Suc n) pe left ts =
     (if peek ts = Some TkAnd then
        tbind (parse_not n pe (tl ts)) (\<lambda>(right, ts). and_loop n pe (Binary BAnd left right) ts)
      else Some (Inr (left, ts)))"

definition parse_and :: "nat \<Rightarrow> (ptoken list \<Rightarrow> expr parsed) \<Rightarrow> ptoken list \<Rightarrow> expr parsed" where
  "parse_and n pe ts = tbind (parse_not n pe ts) (\<lambda>(left, ts). and_loop n pe left ts)"

fun or_loop :: "nat \<Rightarrow> (ptoken list \<Rightarrow> expr parsed) \<Rightarrow> expr \<Rightarrow> ptoken list \<Rightarrow> expr parsed" where
  "or_loop 0 pe left ts = None"
| "or_loop (Suc n) pe left ts =
     (if peek ts = Some TkOr then
        tbind (parse_and n pe (tl ts)) (\<lambda>(right, ts). or_loop n pe (Binary BOr left right) ts)
      else Some (Inr (left, ts)))"

definition parse_or :: "nat \<Rightarrow> (ptoken list \<Rightarrow> expr parsed) \<Rightarrow> ptoken list \<Rightarrow> expr parsed" where
  "parse_or n pe ts = tbind (parse_and n pe ts) (\<lambda>(left, ts). or_loop n pe left ts)"

fun parse_expr :: "nat \<Rightarrow> ptoken list \<Rightarrow> expr parsed" where
  "parse_expr 0 ts = None"
| "parse_expr (Suc n) ts = parse_or n (parse_expr n) ts"

section \<open>Policies and programs\<close>

fun attr_loop :: "nat \<Rightarrow> string option \<Rightarrow> expr option \<Rightarrow> ptoken list \<Rightarrow> (string option \<times> expr option) parsed" where
  "attr_loop 0 reason evidence ts = None"
| "attr_loop (Suc n) reason evidence ts =
     (if peek ts = Some TkComma then
        (let ts = tl ts in
         case peek ts of
           Some TkReason \<Rightarrow> tbind (expect TkEq (tl ts)) (\<lambda>(_, ts).
             case peek ts of
               Some (TkStr s) \<Rightarrow> attr_loop n (Some s) evidence (tl ts)
             | _ \<Rightarrow> perr (tl ts) ReasonExpectsString)
         | Some TkEvidence \<Rightarrow> tbind (expect TkEq (tl ts)) (\<lambda>(_, ts).
             tbind (parse_expr n ts) (\<lambda>(e, ts). attr_loop n reason (Some e) ts))
         | other \<Rightarrow> perr (tl ts) (UnknownAttr other))
      else Some (Inr ((reason, evidence), ts)))"

definition parse_action :: "nat \<Rightarrow> ptoken list \<Rightarrow> dictum_action parsed" where
  "parse_action n ts =
     (let rest = (\<lambda>v. tbind (attr_loop n None None (tl ts)) (\<lambda>((reason, evidence), ts).
            Some (Inr (\<lparr>act_verdict = v, act_reason = reason, act_evidence = evidence\<rparr>, ts))))
      in case peek ts of
           Some TkAllow \<Rightarrow> rest DAllow
         | Some TkReview \<Rightarrow> rest DReview
         | Some TkBlock \<Rightarrow> rest DBlock
         | other \<Rightarrow> perr (tl ts) (ExpectedVerdict other))"

definition parse_policy :: "nat \<Rightarrow> ptoken list \<Rightarrow> dictum_policy parsed" where
  "parse_policy n ts =
     tbind (expect TkPolicy ts) (\<lambda>(_, ts).
     case peek ts of
       Some (TkStr name) \<Rightarrow>
         tbind (expect TkLBrace (tl ts)) (\<lambda>(_, ts).
         tbind (expect TkWhen ts) (\<lambda>(_, ts).
         tbind (parse_expr n ts) (\<lambda>(cond, ts).
         tbind (expect TkThen ts) (\<lambda>(_, ts).
         tbind (parse_action n ts) (\<lambda>(action, ts).
         tbind (expect TkRBrace ts) (\<lambda>(_, ts).
           Some (Inr (\<lparr>pol_name = name, pol_when = cond, pol_action = action\<rparr>, ts))))))))
     | _ \<Rightarrow> perr (tl ts) ExpectedPolicyName)"

fun program_loop :: "nat \<Rightarrow> ptoken list \<Rightarrow> (dictum_error + dictum_policy list) option" where
  "program_loop 0 ts = None"
| "program_loop (Suc n) ts =
     (if ts = [] then Some (Inr [])
      else tbind (parse_policy n ts) (\<lambda>(p, ts). tbind (program_loop n ts) (\<lambda>ps. Some (Inr (p # ps)))))"

definition parse_fuel :: "ptoken list \<Rightarrow> nat" where
  "parse_fuel ts = length ts + 3"

definition parse_tokens :: "ptoken list \<Rightarrow> (dictum_error + dictum_program) option" where
  "parse_tokens ts = tbind (program_loop (parse_fuel ts) ts) (\<lambda>ps. Some (Inr \<lparr>policies = ps\<rparr>))"

definition parse :: "(string \<Rightarrow> (lexeme \<times> nat \<times> nat) list) \<Rightarrow> string \<Rightarrow> (dictum_error + dictum_program) option" where
  "parse lexer src = tbind (Some (tokenize lexer src)) parse_tokens"

definition compile :: "(string \<Rightarrow> (lexeme \<times> nat \<times> nat) list) \<Rightarrow> string \<Rightarrow> (dictum_error + dictum_program) option" where
  "compile lexer src =
     tbind (parse lexer src) (\<lambda>prog.
       Some (case validate prog of Inl f \<Rightarrow> Inl (TypeFault f) | Inr _ \<Rightarrow> Inr prog))"

section \<open>The fuel is enough\<close>

text \<open>A parser that returns, and on success has consumed at least one token.\<close>

abbreviation advances :: "ptoken list \<Rightarrow> 'a parsed \<Rightarrow> bool" where
  "advances ts m \<equiv> returns (\<lambda>(_, ts'). length ts' < length ts) m"

abbreviation keeps :: "ptoken list \<Rightarrow> 'a parsed \<Rightarrow> bool" where
  "keeps ts m \<equiv> returns (\<lambda>(_, ts'). length ts' \<le> length ts) m"

lemma peek_Some: "peek ts = Some t \<Longrightarrow> length (tl ts) < length ts"
  by (cases ts) auto

lemma primary_start_nonempty: "primary_start_of (peek ts) \<noteq> StartOther \<Longrightarrow> length (tl ts) < length ts"
  by (cases ts) auto

lemma returns_perr [simp, intro]: "returns P (perr ts f)"
  by (auto simp: perr_def)

lemma expect_advances: "advances ts (expect tok ts)"
  using peek_Some [of ts tok] by (auto simp: expect_def)

lemma returns_weaken: "returns P m \<Longrightarrow> (\<And>x. P x \<Longrightarrow> Q x) \<Longrightarrow> returns Q m"
  by (auto simp: returns_def)

lemma returns_expect_bind:
  "length ts \<le> k \<Longrightarrow> (\<And>ts'. length ts' < k \<Longrightarrow> returns Q (f ((), ts'))) \<Longrightarrow> returns Q (tbind (expect tok ts) f)"
  by (rule returns_tbind [OF expect_advances]) auto

lemma path_loop_keeps: "keeps ts (path_loop segs ts)"
proof (induction segs ts rule: path_loop.induct)
  case (1 segs ts)
  show ?case
  proof (cases "peek ts = Some TkDot \<and> (\<exists>s. peek (tl ts) = Some (TkIdent s))")
    case True
    then obtain s where s: "peek ts = Some TkDot" "peek (tl ts) = Some (TkIdent s)" by auto
    with 1 have "keeps (tl (tl ts)) (path_loop (segs @ [s]) (tl (tl ts)))" by simp
    then have "keeps ts (path_loop (segs @ [s]) (tl (tl ts)))" by (rule returns_weaken) auto
    with s show ?thesis by (simp add: path_loop.simps [of segs ts])
  next
    case False
    then show ?thesis
      by (subst path_loop.simps) (auto split: option.splits token.splits)
  qed
qed

lemma args_loop_advances:
  "(\<And>ts. length ts < N \<Longrightarrow> advances ts (pe ts)) \<Longrightarrow> length ts < N \<Longrightarrow> length ts < n \<Longrightarrow> advances ts (args_loop n pe args ts)"
proof (induction n arbitrary: args ts)
  case (Suc n)
  show ?case unfolding args_loop.simps
  proof (rule returns_tbind [OF Suc.prems(1) [OF Suc.prems(2)]], clarify)
    fix a and ts' :: "ptoken list"
    assume ts': "length ts' < length ts"
    have "advances (tl ts') (args_loop n pe (args @ [a]) (tl ts'))"
      using Suc ts' by (intro Suc.IH) auto
    then have "advances ts (args_loop n pe (args @ [a]) (tl ts'))"
      by (rule returns_weaken) (use ts' in auto)
    then show "advances ts (if peek ts' = Some TkComma then args_loop n pe (args @ [a]) (tl ts')
        else Some (Inr (args @ [a], ts')))" using ts' by auto
  qed
qed simp

text \<open>The levels below \<open>parse_not\<close> hand nested expressions strictly shorter inputs.\<close>

lemma parse_primary_advances:
  assumes pe: "\<And>ts. length ts < N \<Longrightarrow> advances ts (pe ts)" and len: "length ts \<le> N" "length ts \<le> n"
  shows "advances ts (parse_primary n pe ts)"
proof (cases "primary_start_of (peek ts)")
  case (StartLit k)
  then show ?thesis using primary_start_nonempty [of ts] by (auto simp: parse_primary_def)
next
  case StartParen
  then have tl: "length (tl ts) < length ts" using primary_start_nonempty [of ts] by simp
  have "advances ts (tbind (pe (tl ts)) (\<lambda>(e, ts). tbind (expect TkRParen ts) (\<lambda>(_, ts). Some (Inr (e, ts)))))"
    by (rule returns_tbind [OF pe]) (use tl len in \<open>auto intro!: returns_expect_bind [where k = "length ts"]\<close>)
  with StartParen show ?thesis by (simp add: parse_primary_def)
next
  case (StartIdent first)
  then have tl: "length (tl ts) < length ts" using primary_start_nonempty [of ts] by simp
  have call: "advances ts (tbind (if peek (tl (tl ts)) = Some TkRParen then Some (Inr ([], tl (tl ts)))
        else args_loop n pe [] (tl (tl ts))) (\<lambda>(args, ts). tbind (expect TkRParen ts) (\<lambda>(_, ts). Some (Inr (Call first args, ts)))))"
    if "peek (tl ts) = Some TkLParen"
  proof (rule returns_tbind [where P = "\<lambda>(_, ts'). length ts' \<le> length (tl (tl ts))"])
    have tl2: "length (tl (tl ts)) < length (tl ts)" using peek_Some [OF that] .
    have "advances (tl (tl ts)) (args_loop n pe [] (tl (tl ts)))"
      by (rule args_loop_advances [OF pe]) (use tl tl2 len in auto)
    then show "keeps (tl (tl ts)) (if peek (tl (tl ts)) = Some TkRParen then Some (Inr ([], tl (tl ts)))
        else args_loop n pe [] (tl (tl ts)))"
      by (auto elim: returns_weaken)
  qed (use tl in \<open>auto intro!: returns_expect_bind [where k = "length ts"]\<close>)
  have "advances ts (tbind (path_loop [first] (tl ts)) (\<lambda>(segs, ts). Some (Inr (Path segs, ts))))"
    by (rule returns_tbind [OF path_loop_keeps]) (use tl in auto)
  with StartIdent call show ?thesis by (simp add: parse_primary_def)
next
  case StartOther
  then show ?thesis by (simp add: parse_primary_def)
qed

lemma parse_membership_advances:
  assumes pe: "\<And>ts. length ts < N \<Longrightarrow> advances ts (pe ts)" and len: "length ts \<le> N" "length ts \<le> n"
  shows "advances ts (parse_membership n pe ts)"
  unfolding parse_membership_def
proof (rule returns_tbind [OF parse_primary_advances [OF pe len]], simp, clarify)
  fix left and ts1 :: "ptoken list"
  assume l: "length ts1 < length ts"
  have sub: "advances ts (tbind (parse_primary n pe ts2) (\<lambda>(right, ts). Some (Inr (Membership c left right, ts))))"
    if "length ts2 \<le> length ts1" for ts2 c
    by (rule returns_tbind [OF parse_primary_advances [OF pe]]) (use that l len in auto)
  show "advances ts (if peek ts1 = Some TkIn then
       tbind (parse_primary n pe (tl ts1)) (\<lambda>(right, ts). Some (Inr (Membership False left right, ts)))
     else if peek ts1 = Some TkNot then
       (if peek (tl ts1) = Some TkIn then
          tbind (parse_primary n pe (tl (tl ts1))) (\<lambda>(right, ts). Some (Inr (Membership True left right, ts)))
        else Some (Inr (left, ts1)))
     else Some (Inr (left, ts1)))"
    using sub [of "tl ts1" False] sub [of "tl (tl ts1)" True] l by auto
qed

lemma parse_compare_advances:
  assumes pe: "\<And>ts. length ts < N \<Longrightarrow> advances ts (pe ts)" and len: "length ts \<le> N" "length ts \<le> n"
  shows "advances ts (parse_compare n pe ts)"
  unfolding parse_compare_def
proof (rule returns_tbind [OF parse_membership_advances [OF pe len]], simp, clarify)
  fix left and ts1 :: "ptoken list"
  assume l: "length ts1 < length ts"
  have "advances ts (tbind (parse_membership n pe (tl ts1)) (\<lambda>(right, ts). Some (Inr (Binary op left right, ts))))" for op
    by (rule returns_tbind [OF parse_membership_advances [OF pe]]) (use l len in auto)
  then show "advances ts (case compare_op (peek ts1) of
      Some op \<Rightarrow> tbind (parse_membership n pe (tl ts1)) (\<lambda>(right, ts). Some (Inr (Binary op left right, ts)))
    | None \<Rightarrow> Some (Inr (left, ts1)))" using l by (auto split: option.splits)
qed

lemma parse_not_advances:
  assumes pe: "\<And>ts. length ts < N \<Longrightarrow> advances ts (pe ts)"
  shows "length ts \<le> N \<Longrightarrow> length ts < n \<Longrightarrow> advances ts (parse_not n pe ts)"
proof (induction n arbitrary: ts)
  case (Suc n)
  have "advances ts (tbind (parse_not n pe (tl ts)) (\<lambda>(inner, ts). Some (Inr (Unary UNot inner, ts))))"
    if "peek ts = Some TkNot"
    by (rule returns_tbind [OF Suc.IH]) (use Suc.prems peek_Some [OF that] in auto)
  moreover have "advances ts (parse_compare n pe ts)"
    by (rule parse_compare_advances [OF pe]) (use Suc.prems in auto)
  ultimately show ?case by simp
qed simp

lemma and_loop_keeps:
  assumes pe: "\<And>ts. length ts < N \<Longrightarrow> advances ts (pe ts)"
  shows "length ts \<le> N \<Longrightarrow> length ts < n \<Longrightarrow> keeps ts (and_loop n pe left ts)"
proof (induction n arbitrary: left ts)
  case (Suc n)
  have "keeps ts (tbind (parse_not n pe (tl ts)) (\<lambda>(right, ts). and_loop n pe (Binary BAnd left right) ts))"
    if at: "peek ts = Some TkAnd"
  proof (rule returns_tbind [OF parse_not_advances [OF pe]])
    show "keeps ts (case x of (right, ts') \<Rightarrow> and_loop n pe (Binary BAnd left right) ts')"
      if "case x of (_, ts') \<Rightarrow> length ts' < length (tl ts)" for x
      using that Suc.prems by (auto split: prod.splits intro: returns_weaken [OF Suc.IH])
  qed (use Suc.prems peek_Some [OF at] in auto)
  then show ?case by auto
qed simp

lemma parse_and_advances:
  assumes pe: "\<And>ts. length ts < N \<Longrightarrow> advances ts (pe ts)" and len: "length ts \<le> N" "length ts < n"
  shows "advances ts (parse_and n pe ts)"
  unfolding parse_and_def
  by (rule returns_tbind [OF parse_not_advances [OF pe len]])
     (use len in \<open>auto split: prod.splits intro: returns_weaken [OF and_loop_keeps [OF pe]]\<close>)

lemma or_loop_keeps:
  assumes pe: "\<And>ts. length ts < N \<Longrightarrow> advances ts (pe ts)"
  shows "length ts \<le> N \<Longrightarrow> length ts < n \<Longrightarrow> keeps ts (or_loop n pe left ts)"
proof (induction n arbitrary: left ts)
  case (Suc n)
  have "keeps ts (tbind (parse_and n pe (tl ts)) (\<lambda>(right, ts). or_loop n pe (Binary BOr left right) ts))"
    if at: "peek ts = Some TkOr"
  proof (rule returns_tbind [OF parse_and_advances [OF pe]])
    show "keeps ts (case x of (right, ts') \<Rightarrow> or_loop n pe (Binary BOr left right) ts')"
      if "case x of (_, ts') \<Rightarrow> length ts' < length (tl ts)" for x
      using that Suc.prems by (auto split: prod.splits intro: returns_weaken [OF Suc.IH])
  qed (use Suc.prems peek_Some [OF at] in auto)
  then show ?case by auto
qed simp

lemma parse_or_advances:
  assumes pe: "\<And>ts. length ts < N \<Longrightarrow> advances ts (pe ts)" and len: "length ts \<le> N" "length ts < n"
  shows "advances ts (parse_or n pe ts)"
  unfolding parse_or_def
  by (rule returns_tbind [OF parse_and_advances [OF pe len]])
     (use len in \<open>auto split: prod.splits intro: returns_weaken [OF or_loop_keeps [OF pe]]\<close>)

lemma parse_expr_advances: "length ts + 1 < n \<Longrightarrow> advances ts (parse_expr n ts)"
proof (induction n arbitrary: ts)
  case (Suc n)
  have "advances ts (parse_or n (parse_expr n) ts)"
    by (rule parse_or_advances [where N = "n - 1"]) (use Suc in auto)
  then show ?case by simp
qed simp

lemma attr_loop_keeps: "length ts + 1 < n \<Longrightarrow> keeps ts (attr_loop n reason evidence ts)"
proof (induction n arbitrary: reason evidence ts)
  case (Suc n)
  have next_attr: "keeps ts (attr_loop n r e ts')" if "length ts' < length ts" for r e ts'
    using that Suc.prems by (intro returns_weaken [OF Suc.IH]) auto
  have evidence: "keeps ts (tbind (expect TkEq ts1) (\<lambda>(_, ts). tbind (parse_expr n ts) (\<lambda>(e, ts). attr_loop n reason (Some e) ts)))"
    if "length ts1 < length ts" for ts1
  proof (rule returns_expect_bind [where k = "length ts1"], simp_all)
    fix ts2 :: "ptoken list"
    assume "length ts2 < length ts1"
    with that Suc.prems have "advances ts2 (parse_expr n ts2)" "length ts2 < length ts"
      by (auto intro: parse_expr_advances)
    then show "keeps ts (tbind (parse_expr n ts2) (\<lambda>(e, ts). attr_loop n reason (Some e) ts))"
      by (auto elim!: returns_tbind intro: next_attr split: prod.splits)
  qed
  have reason: "keeps ts (tbind (expect TkEq ts1) (\<lambda>(_, ts). case peek ts of
      Some (TkStr s) \<Rightarrow> attr_loop n (Some s) evidence (tl ts) | _ \<Rightarrow> perr (tl ts) ReasonExpectsString))"
    if "length ts1 < length ts" for ts1
    by (rule returns_expect_bind [where k = "length ts1"])
       (use that in \<open>auto split: option.splits token.splits intro: next_attr\<close>)
  have tl: "length (tl (tl ts)) < length ts" if "peek ts = Some TkComma"
    using peek_Some [OF that] by simp
  show ?case
    using evidence [OF tl] reason [OF tl] by (auto simp: Let_def split: option.splits token.splits)
qed simp

lemma parse_action_advances:
  assumes "length ts < n"
  shows "advances ts (parse_action n ts)"
proof -
  have "advances ts (tbind (attr_loop n None None (tl ts)) (\<lambda>((reason, evidence), ts).
      Some (Inr (\<lparr>act_verdict = v, act_reason = reason, act_evidence = evidence\<rparr>, ts))))" if "peek ts = Some t" for v t
    by (rule returns_tbind [OF attr_loop_keeps]) (use peek_Some [OF that] assms in auto)
  then show ?thesis by (auto simp: parse_action_def Let_def split: option.splits token.splits)
qed

lemma parse_policy_advances:
  assumes "length ts < n"
  shows "advances ts (parse_policy n ts)"
proof -
  have body: "advances ts (tbind (parse_expr n ts1) (\<lambda>(cond, ts). tbind (expect TkThen ts) (\<lambda>(_, ts).
       tbind (parse_action n ts) (\<lambda>(action, ts). tbind (expect TkRBrace ts) (\<lambda>(_, ts).
         Some (Inr (\<lparr>pol_name = name, pol_when = cond, pol_action = action\<rparr>, ts)))))))"
    if ts1: "length ts1 + 1 < length ts" for ts1 name
  proof (rule returns_tbind [OF parse_expr_advances], use ts1 assms in simp, clarify)
    fix cond and ts2 :: "ptoken list"
    assume ts2: "length ts2 < length ts1"
    show "advances ts (tbind (expect TkThen ts2) (\<lambda>(_, ts). tbind (parse_action n ts) (\<lambda>(action, ts).
        tbind (expect TkRBrace ts) (\<lambda>(_, ts). Some (Inr (\<lparr>pol_name = name, pol_when = cond, pol_action = action\<rparr>, ts))))))"
      by (rule returns_expect_bind [where k = "length ts2"], simp,
          simp, rule returns_tbind [OF parse_action_advances])
         (use ts1 ts2 assms in \<open>auto intro!: returns_expect_bind [where k = "length ts"]\<close>)
  qed
  show ?thesis
    unfolding parse_policy_def
    by (rule returns_expect_bind [where k = "length ts"])
       (auto split: option.splits token.splits dest!: peek_Some
         intro!: returns_expect_bind [where k = "length ts - 1"] returns_expect_bind [where k = "length ts - 2"] body)
qed

lemma program_loop_returns: "length ts + 1 < n \<Longrightarrow> returns (\<lambda>_. True) (program_loop n ts)"
proof (induction n arbitrary: ts)
  case (Suc n)
  have "returns (\<lambda>_. True) (tbind (parse_policy n ts) (\<lambda>(p, ts). tbind (program_loop n ts) (\<lambda>ps. Some (Inr (p # ps)))))"
    by (rule returns_tbind [OF parse_policy_advances])
       (use Suc in \<open>auto split: prod.splits intro!: returns_tbind [OF Suc.IH]\<close>)
  then show ?case by auto
qed simp

lemma parse_tokens_returns: "\<exists>r. parse_tokens ts = Some r"
  using returns_tbind [OF program_loop_returns [of ts "parse_fuel ts"], of "\<lambda>_. True" "\<lambda>ps. Some (Inr \<lparr>policies = ps\<rparr>)"]
  by (auto simp: parse_tokens_def parse_fuel_def returns_def)

end
