(* ===== verification/Dictum_Roundtrip.thy ===== *)
theory Dictum_Roundtrip
  imports Dictum_Parser
begin

text \<open>
  A printer for Dictum programs and the proof that the parser inverts it: every program whose
  paths are not empty can be written down, and reading it back yields the same tree. The
  printer parenthesises every compound operand.
\<close>

section \<open>The printer\<close>

fun render_path :: "string list \<Rightarrow> token list" where
  "render_path [] = []"
| "render_path [s] = [TkIdent s]"
| "render_path (s # ss) = TkIdent s # TkDot # render_path ss"

fun op_token :: "binop \<Rightarrow> token" where
  "op_token BEq = TkEqEq"
| "op_token BNeq = TkNotEq"
| "op_token BLt = TkLt"
| "op_token BGt = TkGt"
| "op_token BLe = TkLtEq"
| "op_token BGe = TkGtEq"
| "op_token BAnd = TkAnd"
| "op_token BOr = TkOr"

fun comma_sep :: "token list list \<Rightarrow> token list" where
  "comma_sep [] = []"
| "comma_sep [x] = x"
| "comma_sep (x # xs) = x @ TkComma # comma_sep xs"

fun render :: "expr \<Rightarrow> token list" where
  "render (Lit (LBool b)) = [if b then TkTrue else TkFalse]"
| "render (Lit (LInt n)) = [TkInt n]"
| "render (Lit (LStr s)) = [TkStr s]"
| "render (Path segs) = render_path segs"
| "render (Call f args) = TkIdent f # TkLParen # comma_sep (map render args) @ [TkRParen]"
| "render (Binary op l r) = TkLParen # render l @ op_token op # render r @ [TkRParen]"
| "render (Unary UNot e) = TkLParen # TkNot # render e @ [TkRParen]"
| "render (Membership neg a b) =
     TkLParen # render a @ (if neg then [TkNot, TkIn] else [TkIn]) @ render b @ [TkRParen]"

fun verdict_token :: "dverdict \<Rightarrow> token" where
  "verdict_token DAllow = TkAllow"
| "verdict_token DReview = TkReview"
| "verdict_token DBlock = TkBlock"

definition render_action :: "dictum_action \<Rightarrow> token list" where
  "render_action a = verdict_token (act_verdict a) #
     (case act_reason a of None \<Rightarrow> [] | Some s \<Rightarrow> [TkComma, TkReason, TkEq, TkStr s]) @
     (case act_evidence a of None \<Rightarrow> [] | Some e \<Rightarrow> [TkComma, TkEvidence, TkEq] @ render e)"

definition render_policy :: "dictum_policy \<Rightarrow> token list" where
  "render_policy p = [TkPolicy, TkStr (pol_name p), TkLBrace, TkWhen] @ render (pol_when p) @
     [TkThen] @ render_action (pol_action p) @ [TkRBrace]"

definition render_program :: "dictum_program \<Rightarrow> token list" where
  "render_program prog = concat (map render_policy (policies prog))"

section \<open>Parsing what was printed\<close>

lemma peek_Cons [simp]: "peek (t # ts) = Some (fst t)"
  by (cases t) auto

definition stops :: "ptoken list \<Rightarrow> bool" where
  "stops rest \<longleftrightarrow> peek rest \<noteq> Some TkDot \<and> peek rest \<noteq> Some TkLParen"

definition plain :: "ptoken list \<Rightarrow> bool" where
  "plain rest \<longleftrightarrow> peek rest \<noteq> Some TkIn \<and> peek rest \<noteq> Some TkNot \<and> compare_op (peek rest) = None"

definition closes :: "ptoken list \<Rightarrow> bool" where
  "closes rest \<longleftrightarrow> plain rest \<and> stops rest \<and> peek rest \<noteq> Some TkAnd \<and> peek rest \<noteq> Some TkOr"

text \<open>A primary expression passes unchanged through the levels that find nothing to do.\<close>

lemma primary_membership:
  "parse_primary n pe ts = Some (Inr (e, rest)) \<Longrightarrow> plain rest \<Longrightarrow> parse_membership n pe ts = Some (Inr (e, rest))"
  by (simp add: parse_membership_def plain_def)

lemma primary_membership_op:
  "parse_primary n pe ts = Some (Inr (e, rest)) \<Longrightarrow> peek rest \<noteq> Some TkIn \<Longrightarrow> peek rest \<noteq> Some TkNot \<Longrightarrow>
   parse_membership n pe ts = Some (Inr (e, rest))"
  by (simp add: parse_membership_def)

lemma primary_not:
  "parse_primary n pe ts = Some (Inr (e, rest)) \<Longrightarrow> peek ts \<noteq> Some TkNot \<Longrightarrow> plain rest \<Longrightarrow>
   parse_not (Suc n) pe ts = Some (Inr (e, rest))"
  using primary_membership by (simp add: parse_compare_def plain_def)

lemma not_and:
  "parse_not (Suc n) pe ts = Some (Inr (e, rest)) \<Longrightarrow> peek rest \<noteq> Some TkAnd \<Longrightarrow>
   parse_and (Suc n) pe ts = Some (Inr (e, rest))"
  by (simp add: parse_and_def)

lemma and_or:
  "parse_and (Suc n) pe ts = Some (Inr (e, rest)) \<Longrightarrow> peek rest \<noteq> Some TkOr \<Longrightarrow>
   parse_or (Suc n) pe ts = Some (Inr (e, rest))"
  by (simp add: parse_or_def)

text \<open>Parsing a printed primary: with as much fuel as it has tokens, whatever follows.\<close>

definition reads :: "expr \<Rightarrow> bool" where
  "reads e \<longleftrightarrow> (\<forall>ts rest n m. map fst ts = render e \<longrightarrow> stops rest \<longrightarrow> length ts \<le> n \<longrightarrow> length ts \<le> m \<longrightarrow>
     parse_primary n (parse_expr m) (ts @ rest) = Some (Inr (e, rest)))"

lemma readsD:
  "reads e \<Longrightarrow> map fst ts = render e \<Longrightarrow> stops rest \<Longrightarrow> length ts \<le> n \<Longrightarrow> length ts \<le> m \<Longrightarrow>
   parse_primary n (parse_expr m) (ts @ rest) = Some (Inr (e, rest))"
  by (simp add: reads_def)

lemma render_head:
  "[] \<notin> set (collect_expr_paths e) \<Longrightarrow> \<exists>t us. render e = t # us \<and> t \<noteq> TkNot \<and> t \<noteq> TkRParen"
proof (cases e rule: render.cases)
  case (4 segs)
  assume "[] \<notin> set (collect_expr_paths e)"
  with 4 show ?thesis by (cases segs rule: render_path.cases) auto
qed auto

lemma render_peek:
  assumes "map fst ts = render e" "[] \<notin> set (collect_expr_paths e)"
  shows "peek (ts @ rest) \<noteq> Some TkNot" "peek (ts @ rest) \<noteq> Some TkRParen" "ts \<noteq> []"
  using render_head [OF assms(2)] assms(1) by (cases ts; auto)+

lemma read_expr:
  assumes "reads e" "map fst ts = render e" "closes rest" "length ts < m" "[] \<notin> set (collect_expr_paths e)"
  shows "parse_expr (Suc m) (ts @ rest) = Some (Inr (e, rest))"
proof -
  obtain k where m: "m = Suc k" using assms(4) by (cases m) auto
  have "parse_primary k (parse_expr m) (ts @ rest) = Some (Inr (e, rest))"
    by (rule readsD [OF assms(1,2)]) (use assms(3,4) m in \<open>auto simp: closes_def\<close>)
  then have "parse_or (Suc k) (parse_expr m) (ts @ rest) = Some (Inr (e, rest))"
    using render_peek [OF assms(2,5)] assms(3)
    by (intro and_or not_and primary_not) (auto simp: closes_def)
  with m show ?thesis by simp
qed

lemma path_loop_render:
  "map fst ts = render_path segs \<Longrightarrow> segs \<noteq> [] \<Longrightarrow> stops rest \<Longrightarrow>
   path_loop pre (tl ts @ rest) = Some (Inr (pre @ tl segs, rest)) \<and> fst (hd ts) = TkIdent (hd segs)"
proof (induction segs arbitrary: pre ts rule: render_path.induct)
  case (2 s)
  then show ?case by (subst path_loop.simps) (auto simp: stops_def)
next
  case (3 s s' ss)
  from 3(2) obtain a b us where ts: "ts = a # b # us" "fst a = TkIdent s" "fst b = TkDot"
    "map fst us = render_path (s' # ss)" by (auto simp: map_eq_Cons_conv)
  have ne: "us \<noteq> []" using ts(4) by (cases ss) auto
  from 3(1) [OF ts(4) _ 3(4), of "pre @ [s']"]
  have IH: "path_loop (pre @ [s']) (tl us @ rest) = Some (Inr (pre @ s' # ss, rest))" "fst (hd us) = TkIdent s'" by auto
  with ne have "peek (us @ rest) = Some (TkIdent s')" by (cases us) auto
  with ts IH ne show ?case by (subst path_loop.simps) auto
qed simp

lemma stops_simps [simp]:
  "stops (t # ts) \<longleftrightarrow> fst t \<noteq> TkDot \<and> fst t \<noteq> TkLParen"
  "closes (t # ts) \<longleftrightarrow> fst t \<noteq> TkIn \<and> fst t \<noteq> TkNot \<and> compare_op (Some (fst t)) = None \<and>
     fst t \<noteq> TkDot \<and> fst t \<noteq> TkLParen \<and> fst t \<noteq> TkAnd \<and> fst t \<noteq> TkOr"
  by (auto simp: stops_def closes_def plain_def)

lemma expect_Cons [simp]: "fst t = tok \<Longrightarrow> expect tok (t # ts) = Some (Inr ((), ts))"
  by (simp add: expect_def)

lemma reads_lit: "reads (Lit k)"
  by (cases k) (auto simp: reads_def parse_primary_def map_eq_Cons_conv)

lemma reads_path:
  assumes "segs \<noteq> []"
  shows "reads (Path segs)"
  unfolding reads_def
proof (intro allI impI)
  fix ts :: "ptoken list" and rest n m
  assume ts: "map fst ts = render (Path segs)" and rest: "stops rest"
  then have "map fst ts = render_path segs" by simp
  from path_loop_render [OF this assms rest, of "[hd segs]"]
  have loop: "path_loop [hd segs] (tl ts @ rest) = Some (Inr (segs, rest))" "fst (hd ts) = TkIdent (hd segs)"
    using assms by auto
  obtain a us where a: "ts = a # us" using ts assms by (cases ts; cases segs rule: render_path.cases) auto
  have "peek (us @ rest) \<noteq> Some TkLParen"
    using ts a rest by (cases segs rule: render_path.cases; cases us) (auto simp: stops_def)
  with a loop show "parse_primary n (parse_expr m) (ts @ rest) = Some (Inr (Path segs, rest))"
    by (simp add: parse_primary_def)
qed

text \<open>An expression in parentheses, given how its inside parses.\<close>

lemma paren_primary:
  assumes "parse_or m (parse_expr m) (us @ close # rest) = Some (Inr (e, close # rest))"
    and "fst opn = TkLParen" "fst close = TkRParen"
  shows "parse_primary n (parse_expr (Suc m)) (opn # us @ close # rest) = Some (Inr (e, rest))"
  using assms by (simp add: parse_primary_def)

lemma paren_split:
  fixes ts :: "ptoken list"
  assumes "map fst ts = TkLParen # a @ mid @ b @ [TkRParen]"
  obtains o1 us ms vs cl where "ts = o1 # us @ ms @ vs @ [cl]" "fst o1 = TkLParen" "map fst us = a" "map fst ms = mid"
    "map fst vs = b" "fst cl = TkRParen"
proof -
  from assms obtain o1 t1 where t1: "ts = o1 # t1" "fst o1 = TkLParen" "map fst t1 = a @ mid @ b @ [TkRParen]"
    by (auto simp: map_eq_Cons_conv)
  from map_eq_append_conv [THEN iffD1, OF t1(3)] obtain us t2 where t2: "t1 = us @ t2" "map fst us = a" "map fst t2 = mid @ b @ [TkRParen]"
    by auto
  from map_eq_append_conv [THEN iffD1, OF t2(3)] obtain ms t3 where t3: "t2 = ms @ t3" "map fst ms = mid" "map fst t3 = b @ [TkRParen]"
    by auto
  from map_eq_append_conv [THEN iffD1, OF t3(3)] obtain vs t4 where t4: "t3 = vs @ t4" "map fst vs = b" "map fst t4 = [TkRParen]"
    by auto
  from t4(3) obtain cl where "t4 = [cl]" "fst cl = TkRParen" by (auto simp: map_eq_Cons_conv)
  with t1 t2 t3 t4 that show thesis by simp
qed

lemma reads_unary:
  assumes "reads e" "[] \<notin> set (collect_expr_paths e)"
  shows "reads (Unary UNot e)"
  unfolding reads_def
proof (intro allI impI)
  fix ts :: "ptoken list" and rest n m
  assume ts: "map fst ts = render (Unary UNot e)" "stops rest" "length ts \<le> n" "length ts \<le> m"
  then have "map fst ts = TkLParen # [TkNot] @ [] @ render e @ [TkRParen]" by simp
  then obtain o1 ns ms us cl where "ts = o1 # ns @ ms @ us @ [cl]" "fst o1 = TkLParen" "map fst ns = [TkNot]"
    "map fst ms = []" "map fst us = render e" "fst cl = TkRParen" by (rule paren_split)
  then obtain nt where s: "ts = o1 # nt # us @ [cl]" "fst o1 = TkLParen" "fst nt = TkNot" "map fst us = render e"
    "fst cl = TkRParen" by (auto simp: map_eq_Cons_conv)
  then obtain k where m: "m = Suc (Suc (Suc k))" "length us \<le> k" using ts(4) by (cases m; cases "m - 1"; cases "m - 2") auto
  have "parse_primary k (parse_expr (Suc (Suc k))) (us @ cl # rest) = Some (Inr (e, cl # rest))"
    by (rule readsD [OF assms(1) s(4)]) (use s m in auto)
  then have "parse_not (Suc k) (parse_expr (Suc (Suc k))) (us @ cl # rest) = Some (Inr (e, cl # rest))"
    by (rule primary_not) (use render_peek [OF s(4) assms(2)] s in \<open>auto simp: plain_def\<close>)
  then have "parse_or (Suc (Suc k)) (parse_expr (Suc (Suc k))) ((nt # us) @ cl # rest) = Some (Inr (Unary UNot e, cl # rest))"
    using s by (intro and_or not_and) auto
  from paren_primary [OF this, of o1 n] s m
  show "parse_primary n (parse_expr m) (ts @ rest) = Some (Inr (Unary UNot e, rest))" by simp
qed

lemma reads_membership:
  assumes "reads a" "reads b" "[] \<notin> set (collect_expr_paths a)"
  shows "reads (Membership neg a b)"
  unfolding reads_def
proof (intro allI impI)
  fix ts :: "ptoken list" and rest n m
  assume ts: "map fst ts = render (Membership neg a b)" "stops rest" "length ts \<le> n" "length ts \<le> m"
  from ts(1) obtain o1 us mid vs cl where s: "ts = o1 # us @ mid @ vs @ [cl]" "fst o1 = TkLParen" "map fst us = render a"
    "map fst mid = (if neg then [TkNot, TkIn] else [TkIn])" "map fst vs = render b" "fst cl = TkRParen"
    unfolding render.simps by (rule paren_split)
  have "length mid \<ge> 1" using s(4) by (cases mid) (auto split: if_splits)
  then obtain k where m: "m = Suc (Suc k)" "length us \<le> k" "length vs \<le> k"
    using ts(4) s(1) by (cases m; cases "m - 1") auto
  let ?pe = "parse_expr (Suc k)"
  have st: "stops (mid @ vs @ cl # rest)" using s(4) by (cases mid) (auto split: if_splits)
  have a: "parse_primary k ?pe (us @ mid @ vs @ cl # rest) = Some (Inr (a, mid @ vs @ cl # rest))"
    by (rule readsD [OF assms(1) s(3) st]) (use m in auto)
  have b: "parse_primary k ?pe (vs @ cl # rest) = Some (Inr (b, cl # rest))"
    by (rule readsD [OF assms(2) s(5)]) (use s m in auto)
  have "parse_membership k ?pe (us @ mid @ vs @ cl # rest) = Some (Inr (Membership neg a b, cl # rest))"
    using a b s(4) by (auto simp: parse_membership_def map_eq_Cons_conv split: if_splits)
  then have "parse_or (Suc k) ?pe ((us @ mid @ vs) @ cl # rest) = Some (Inr (Membership neg a b, cl # rest))"
    using s render_peek [OF s(3) assms(3)] by (intro and_or not_and) (auto simp: parse_compare_def)
  from paren_primary [OF this, of o1 n] s m
  show "parse_primary n (parse_expr m) (ts @ rest) = Some (Inr (Membership neg a b, rest))" by simp
qed

text \<open>The three kinds of binary operators sit on three levels.\<close>

lemma compare_level:
  assumes "parse_primary k pe ts = Some (Inr (l, ot # us))" "compare_op (Some (fst ot)) = Some op"
    and "parse_primary k pe us = Some (Inr (r, cl # rest))" "closes (cl # rest)" "peek ts \<noteq> Some TkNot"
  shows "parse_or (Suc k) pe ts = Some (Inr (Binary op l r, cl # rest))"
proof -
  have "parse_membership k pe ts = Some (Inr (l, ot # us))"
    using assms(1,2) by (intro primary_membership_op) auto
  moreover have "parse_membership k pe us = Some (Inr (r, cl # rest))"
    using assms(3,4) by (intro primary_membership_op) auto
  ultimately show ?thesis using assms(2,4,5)
    by (intro and_or not_and) (auto simp: parse_compare_def)
qed

lemma and_level:
  assumes "parse_not (Suc (Suc k)) pe ts = Some (Inr (l, ot # us))" "fst ot = TkAnd"
    and "parse_not (Suc k) pe us = Some (Inr (r, cl # rest))" "closes (cl # rest)"
  shows "parse_or (Suc (Suc k)) pe ts = Some (Inr (Binary BAnd l r, cl # rest))"
proof -
  have "parse_and (Suc (Suc k)) pe ts = Some (Inr (Binary BAnd l r, cl # rest))"
    unfolding parse_and_def using assms by simp
  then show ?thesis using assms(4) by (intro and_or) auto
qed

lemma or_level:
  assumes "parse_not (Suc (Suc k)) pe ts = Some (Inr (l, ot # us))" "fst ot = TkOr"
    and "parse_not (Suc k) pe us = Some (Inr (r, cl # rest))" "closes (cl # rest)"
  shows "parse_or (Suc (Suc k)) pe ts = Some (Inr (Binary BOr l r, cl # rest))"
proof -
  have "parse_and (Suc (Suc k)) pe ts = Some (Inr (l, ot # us))"
    by (rule not_and) (use assms in auto)
  moreover have "parse_and (Suc k) pe us = Some (Inr (r, cl # rest))"
    by (rule not_and) (use assms in auto)
  ultimately show ?thesis unfolding parse_or_def using assms by simp
qed

lemma compare_op_token: "op \<noteq> BAnd \<Longrightarrow> op \<noteq> BOr \<Longrightarrow> compare_op (Some (op_token op)) = Some op"
  by (cases op) auto

lemma op_token_stops: "op_token op \<noteq> TkDot \<and> op_token op \<noteq> TkLParen"
  by (cases op) auto

lemma reads_binary:
  assumes "reads l" "reads r" "[] \<notin> set (collect_expr_paths l)" "[] \<notin> set (collect_expr_paths r)"
  shows "reads (Binary op l r)"
  unfolding reads_def
proof (intro allI impI)
  fix ts :: "ptoken list" and rest n m
  assume ts: "map fst ts = render (Binary op l r)" "stops rest" "length ts \<le> n" "length ts \<le> m"
  then have "map fst ts = TkLParen # render l @ [op_token op] @ render r @ [TkRParen]" by simp
  then obtain o1 us os vs cl where "ts = o1 # us @ os @ vs @ [cl]" "fst o1 = TkLParen" "map fst us = render l"
    "map fst os = [op_token op]" "map fst vs = render r" "fst cl = TkRParen" by (rule paren_split)
  then obtain ot where s: "ts = o1 # us @ ot # vs @ [cl]" "fst o1 = TkLParen" "map fst us = render l"
    "fst ot = op_token op" "map fst vs = render r" "fst cl = TkRParen" by (auto simp: map_eq_Cons_conv)
  then obtain k where m: "m = Suc (Suc (Suc k))" "length us \<le> k" "length vs \<le> k"
    using ts(4) render_peek(3) [OF s(3) assms(3)] render_peek(3) [OF s(5) assms(4)]
    by (cases m; cases "m - 1"; cases "m - 2"; cases us; cases vs) auto
  let ?pe = "parse_expr (Suc (Suc k))"
  have l: "parse_primary j ?pe (us @ ot # vs @ cl # rest) = Some (Inr (l, ot # vs @ cl # rest))" if "k \<le> j" for j
    by (rule readsD [OF assms(1) s(3)]) (use s m that op_token_stops in auto)
  have r: "parse_primary j ?pe (vs @ cl # rest) = Some (Inr (r, cl # rest))" if "k \<le> j" for j
    by (rule readsD [OF assms(2) s(5)]) (use s m that in auto)
  note np = render_peek(1) [OF s(3) assms(3), of "ot # vs @ cl # rest"] render_peek(1) [OF s(5) assms(4), of "cl # rest"]
  have "parse_or (Suc (Suc k)) ?pe (us @ ot # vs @ cl # rest) = Some (Inr (Binary op l r, cl # rest))"
  proof (cases "op = BAnd \<or> op = BOr")
    case True
    have "parse_not (Suc (Suc k)) ?pe (us @ ot # vs @ cl # rest) = Some (Inr (l, ot # vs @ cl # rest))"
      by (rule primary_not [OF l]) (use np True s in \<open>auto simp: plain_def\<close>)
    moreover have "parse_not (Suc k) ?pe (vs @ cl # rest) = Some (Inr (r, cl # rest))"
      by (rule primary_not [OF r]) (use np s in \<open>auto simp: plain_def\<close>)
    ultimately show ?thesis using True s by (auto intro: and_level or_level)
  next
    case False
    then show ?thesis using s np by (intro compare_level [OF l _ r]) (auto simp: compare_op_token)
  qed
  then have "parse_or (Suc (Suc k)) ?pe ((us @ ot # vs) @ cl # rest) = Some (Inr (Binary op l r, cl # rest))" by simp
  from paren_primary [OF this, of o1 n] s m
  show "parse_primary n (parse_expr m) (ts @ rest) = Some (Inr (Binary op l r, rest))" by simp
qed

lemma args_loop_render:
  "list_all (\<lambda>a. reads a \<and> [] \<notin> set (collect_expr_paths a)) args \<Longrightarrow> args \<noteq> [] \<Longrightarrow>
   map fst ts = comma_sep (map render args) \<Longrightarrow> peek rest = Some TkRParen \<Longrightarrow> length ts \<le> n \<Longrightarrow> length ts < m \<Longrightarrow>
   args_loop n (parse_expr (Suc m)) acc (ts @ rest) = Some (Inr (acc @ args, rest))"
proof (induction args arbitrary: ts n acc rule: induct_list012)
  case (2 a)
  then obtain k where n: "n = Suc k" using render_peek(3) [of ts a] by (cases n) auto
  have "parse_expr (Suc m) (ts @ rest) = Some (Inr (a, rest))"
    by (rule read_expr) (use 2 in \<open>auto simp: closes_def plain_def stops_def\<close>)
  with n 2(4) show ?case by (simp del: parse_expr.simps)
next
  case (3 a b args)
  from 3(5) have "map fst ts = render a @ TkComma # comma_sep (map render (b # args))" by simp
  from map_eq_append_conv [THEN iffD1, OF this] obtain us vs where uv: "ts = us @ vs" "map fst us = render a"
    "map fst vs = TkComma # comma_sep (map render (b # args))" by auto
  from map_eq_Cons_conv [THEN iffD1, OF uv(3)] obtain cm ws where ws: "vs = cm # ws" "fst cm = TkComma"
    "map fst ws = comma_sep (map render (b # args))" by auto
  obtain k where n: "n = Suc k" using 3(7) uv ws by (cases n) auto
  have "parse_expr (Suc m) (us @ cm # ws @ rest) = Some (Inr (a, cm # ws @ rest))"
    by (rule read_expr) (use 3 uv ws in auto)
  moreover have "args_loop k (parse_expr (Suc m)) (acc @ [a]) (ws @ rest) = Some (Inr ((acc @ [a]) @ b # args, rest))"
    by (rule 3(2)) (use 3 uv ws n in auto)
  ultimately show ?case using n uv ws by (simp del: parse_expr.simps)
qed simp

lemma comma_sep_head:
  "list_all (\<lambda>a. [] \<notin> set (collect_expr_paths a)) args \<Longrightarrow> args \<noteq> [] \<Longrightarrow>
   \<exists>t us. comma_sep (map render args) = t # us \<and> t \<noteq> TkRParen"
proof (cases args)
  case (Cons a as)
  assume "list_all (\<lambda>a. [] \<notin> set (collect_expr_paths a)) args"
  with Cons obtain t us where "render a = t # us" "t \<noteq> TkRParen" using render_head [of a] by auto
  with Cons show ?thesis by (cases as) auto
qed simp

lemma reads_call:
  assumes "list_all (\<lambda>a. reads a \<and> [] \<notin> set (collect_expr_paths a)) args"
  shows "reads (Call f args)"
  unfolding reads_def
proof (intro allI impI)
  fix ts :: "ptoken list" and rest n m
  assume ts: "map fst ts = render (Call f args)" "stops rest" "length ts \<le> n" "length ts \<le> m"
  then have "map fst ts = TkIdent f # TkLParen # comma_sep (map render args) @ [TkRParen]" by simp
  then obtain fn op us where us: "ts = fn # op # us" "fst fn = TkIdent f" "fst op = TkLParen"
    "map fst us = comma_sep (map render args) @ [TkRParen]" by (auto simp: map_eq_Cons_conv)
  from map_eq_append_conv [THEN iffD1, OF us(4)] obtain vs ws where "us = vs @ ws"
    "map fst vs = comma_sep (map render args)" "map fst ws = [TkRParen]" by auto
  then obtain cl where s: "ts = fn # op # vs @ [cl]" "map fst vs = comma_sep (map render args)" "fst cl = TkRParen"
    using us(1) by (auto simp: map_eq_Cons_conv)
  show "parse_primary n (parse_expr m) (ts @ rest) = Some (Inr (Call f args, rest))"
  proof (cases "args = []")
    case True
    then show ?thesis using s us by (simp add: parse_primary_def)
  next
    case False
    obtain k where m: "m = Suc k" "length vs < k" using ts(4) s(1) by (cases m) auto
    have "args_loop n (parse_expr m) [] (vs @ cl # rest) = Some (Inr ([] @ args, cl # rest))"
      unfolding m(1) by (rule args_loop_render [OF assms False s(2)]) (use s ts(3) m in auto)
    moreover have "peek (vs @ cl # rest) \<noteq> Some TkRParen"
      using comma_sep_head [of args] assms False s(2) by (cases vs) (auto simp: list_all_iff)
    ultimately show ?thesis using s us by (simp add: parse_primary_def)
  qed
qed

lemma reads_all: "[] \<notin> set (collect_expr_paths e) \<Longrightarrow> reads e"
proof (induction e)
  case (Unary u e)
  then show ?case by (cases u) (auto intro: reads_unary)
next
  case (Call f args)
  then show ?case by (intro reads_call) (auto simp: list_all_iff)
qed (auto intro: reads_lit reads_path reads_binary reads_membership)

section \<open>Policies\<close>

definition paths_ok :: "dictum_policy \<Rightarrow> bool" where
  "paths_ok p \<longleftrightarrow> [] \<notin> set (collect_policy_paths p)"

lemma read_expr_at:
  assumes "[] \<notin> set (collect_expr_paths e)" "map fst ts = render e" "closes rest" "length ts + 1 < n"
  shows "parse_expr n (ts @ rest) = Some (Inr (e, rest))"
proof -
  obtain k where "n = Suc k" "length ts < k" using assms(4) by (cases n) auto
  then show ?thesis using read_expr [OF reads_all [OF assms(1)] assms(2,3) _ assms(1)] by blast
qed

lemma attr_loop_evidence:
  assumes "case ev of None \<Rightarrow> ts = [] | Some e \<Rightarrow> map fst ts = [TkComma, TkEvidence, TkEq] @ render e \<and> [] \<notin> set (collect_expr_paths e)"
    and "fst cl = TkRBrace" "length ts + 1 < n"
  shows "attr_loop n r None (ts @ cl # rest) = Some (Inr ((r, ev), cl # rest))"
proof (cases ev)
  case None
  then show ?thesis using assms by (cases n) auto
next
  case (Some e)
  then obtain c1 c2 c3 us where s: "ts = c1 # c2 # c3 # us" "fst c1 = TkComma" "fst c2 = TkEvidence" "fst c3 = TkEq"
    "map fst us = render e" "[] \<notin> set (collect_expr_paths e)" using assms(1) by (auto simp: map_eq_Cons_conv)
  obtain k where n: "n = Suc (Suc k)" "length us + 1 < k" using assms(3) s(1) by (cases n; cases "n - 1") auto
  have "parse_expr (Suc k) (us @ cl # rest) = Some (Inr (e, cl # rest))"
    by (rule read_expr_at [OF s(6,5)]) (use assms(2) n in auto)
  then show ?thesis using s n assms(2) Some by (simp add: Let_def del: parse_expr.simps)
qed

lemma parse_action_render:
  assumes "map fst ts = render_action a" "\<And>e. act_evidence a = Some e \<Longrightarrow> [] \<notin> set (collect_expr_paths e)"
    and "fst cl = TkRBrace" "length ts < n"
  shows "parse_action n (ts @ cl # rest) = Some (Inr (a, cl # rest))"
proof -
  let ?reason = "case act_reason a of None \<Rightarrow> [] | Some s \<Rightarrow> [TkComma, TkReason, TkEq, TkStr s]"
  let ?ev = "case act_evidence a of None \<Rightarrow> [] | Some e \<Rightarrow> [TkComma, TkEvidence, TkEq] @ render e"
  from assms(1) obtain v us where v: "ts = v # us" "fst v = verdict_token (act_verdict a)" "map fst us = ?reason @ ?ev"
    by (auto simp: render_action_def map_eq_Cons_conv)
  from map_eq_append_conv [THEN iffD1, OF v(3)] obtain rs es where re: "us = rs @ es" "map fst rs = ?reason" "map fst es = ?ev"
    by auto
  have ev: "attr_loop k r None (es @ cl # rest) = Some (Inr ((r, act_evidence a), cl # rest))" if "length es + 1 < k" for k r
    by (rule attr_loop_evidence) (use re(3) assms(2,3) that in \<open>auto split: option.splits\<close>)
  have "attr_loop n None None (us @ cl # rest) = Some (Inr ((act_reason a, act_evidence a), cl # rest))"
  proof (cases "act_reason a")
    case None
    then show ?thesis using re ev [of n None] assms(4) v(1) by auto
  next
    case (Some s)
    then obtain c1 c2 c3 c4 where r: "rs = [c1, c2, c3, c4]" "fst c1 = TkComma" "fst c2 = TkReason" "fst c3 = TkEq"
      "fst c4 = TkStr s" using re(2) by (auto simp: map_eq_Cons_conv)
    obtain k where n: "n = Suc k" "length es + 1 < k" using assms(4) v(1) re(1) r(1) by (cases n) auto
    show ?thesis using ev [OF n(2), of "Some s"] r re(1) n(1) Some by (simp add: Let_def)
  qed
  then show ?thesis using v(1,2) by (cases "act_verdict a") (auto simp: parse_action_def Let_def)
qed

lemma parse_policy_render:
  assumes "map fst ts = render_policy p" "paths_ok p" "length ts < n"
  shows "parse_policy n (ts @ rest) = Some (Inr (p, rest))"
proof -
  from assms(2) have ok: "[] \<notin> set (collect_expr_paths (pol_when p))"
    "\<And>e. act_evidence (pol_action p) = Some e \<Longrightarrow> [] \<notin> set (collect_expr_paths e)"
    by (auto simp: paths_ok_def collect_policy_paths_def)
  from assms(1) obtain c1 c2 c3 c4 us where h: "ts = c1 # c2 # c3 # c4 # us" "fst c1 = TkPolicy" "fst c2 = TkStr (pol_name p)"
    "fst c3 = TkLBrace" "fst c4 = TkWhen" "map fst us = render (pol_when p) @ [TkThen] @ render_action (pol_action p) @ [TkRBrace]"
    by (auto simp: render_policy_def map_eq_Cons_conv)
  from map_eq_append_conv [THEN iffD1, OF h(6)] obtain ws vs where w: "us = ws @ vs" "map fst ws = render (pol_when p)"
    "map fst vs = [TkThen] @ render_action (pol_action p) @ [TkRBrace]" by auto
  from w(3) obtain th xs where x: "vs = th # xs" "fst th = TkThen" "map fst xs = render_action (pol_action p) @ [TkRBrace]"
    by (auto simp: map_eq_Cons_conv)
  from map_eq_append_conv [THEN iffD1, OF x(3)] obtain as cs where a: "xs = as @ cs" "map fst as = render_action (pol_action p)"
    "map fst cs = [TkRBrace]" by auto
  then obtain cl where cl: "cs = [cl]" "fst cl = TkRBrace" by (auto simp: map_eq_Cons_conv)
  have "parse_expr n (ws @ th # as @ cl # rest) = Some (Inr (pol_when p, th # as @ cl # rest))"
    by (rule read_expr_at [OF ok(1) w(2)]) (use assms(3) h w x in auto)
  moreover have "parse_action n (as @ cl # rest) = Some (Inr (pol_action p, cl # rest))"
    by (rule parse_action_render [OF a(2) ok(2) cl(2)]) (use assms(3) h w x a in auto)
  ultimately show ?thesis using h w x a cl by (simp add: parse_policy_def)
qed

lemma program_loop_render:
  "map fst ts = concat (map render_policy ps) \<Longrightarrow> list_all paths_ok ps \<Longrightarrow> length ts + 1 < n \<Longrightarrow>
   program_loop n ts = Some (Inr ps)"
proof (induction ps arbitrary: ts n)
  case Nil
  then show ?case by (cases n) auto
next
  case (Cons p ps)
  from Cons.prems(1) have "map fst ts = render_policy p @ concat (map render_policy ps)" by simp
  from map_eq_append_conv [THEN iffD1, OF this] obtain us vs where uv: "ts = us @ vs" "map fst us = render_policy p"
    "map fst vs = concat (map render_policy ps)" by auto
  have ne: "us \<noteq> []" using uv(2) by (auto simp: render_policy_def)
  obtain k where n: "n = Suc k" using Cons.prems(3) by (cases n) auto
  have "parse_policy k (us @ vs) = Some (Inr (p, vs))"
    by (rule parse_policy_render [OF uv(2)]) (use Cons.prems uv n in auto)
  moreover have "program_loop k vs = Some (Inr ps)"
    using ne uv(1) n Cons.prems by (intro Cons.IH [OF uv(3)]) (cases us; auto)+
  ultimately show ?case using n uv ne by simp
qed

end
