(* ===== verification/Dictum_Properties.thy ===== *)
theory Dictum_Properties
  imports Dictum_Wasm Dictum_Roundtrip
begin

text \<open>
  Properties of the Dictum policy language: evaluation, type checking, code generation,
  validation and parsing, each with a run at a concrete input where it has hypotheses.
\<close>

section \<open>Evaluation\<close>

text \<open>
  C15. Evaluating an expression always returns, with one result and one number of steps that
  do not depend on the budget; the steps are at most the nodes of the expression. A budget
  that covers them loses exactly those steps. A smaller one is used up, and the error reports
  all the steps ever taken.
\<close>

theorem eval_cost_fixed:
  "\<exists>j r. j \<le> nodes e \<and> (\<forall>s. r \<noteq> Inl (BudgetExhausted s)) \<and>
     (\<forall>b. eval_expr l ctx e b =
        (if j \<le> unat (remaining b)
         then (r, b\<lparr>remaining := remaining b - of_nat j, total := total b + of_nat j\<rparr>)
         else (Inl (BudgetExhausted (total b + remaining b)),
               b\<lparr>remaining := 0, total := total b + remaining b\<rparr>)))"
proof -
  have all: "spend (unat (remaining b)) b = b\<lparr>remaining := 0, total := total b + remaining b\<rparr>" for b
    by (simp add: spend_def)
  obtain j r where "j \<le> nodes e" "\<not> exhausted r" "\<forall>b. eval_expr l ctx e b = (if j \<le> unat (remaining b) then (r, spend j b)
      else (Inl (BudgetExhausted (total b + remaining b)), spend (unat (remaining b)) b))"
    using eval_result [of e l ctx] by blast
  then show ?thesis unfolding all by (intro exI [of _ j] exI [of _ r]) (simp add: exhausted_def spend_def)
qed

text \<open>
  C16. The overlay evaluation fails closed. It applies the first policy in program order whose
  condition is truthy or, for a review or block policy, whose condition fails to evaluate; it
  reports that policy's verdict and its position. If there is none it reports nothing. The
  error flag is set exactly when one of the conditions it evaluated failed.
\<close>

theorem traced_fails_closed:
  "case find (guard_fires l ctx) (policies prog) of
     None \<Rightarrow> evaluate_program_traced l prog ctx =
       \<lparr>et_fired = None, et_policies_evaluated = of_nat (length (policies prog)), et_policies_fired = [],
        et_eval_errored = (\<exists>p \<in> set (policies prog). guard_errs l ctx p)\<rparr>
   | Some p \<Rightarrow> \<exists>pre post f. policies prog = pre @ p # post \<and> (\<forall>q \<in> set pre. \<not> guard_fires l ctx q) \<and>
       et_fired (evaluate_program_traced l prog ctx) = Some f \<and> pf_policy_name f = pol_name p \<and>
       pf_verdict f = act_verdict (pol_action p) \<and>
       et_policies_evaluated (evaluate_program_traced l prog ctx) = of_nat (Suc (length pre)) \<and>
       et_eval_errored (evaluate_program_traced l prog ctx) = (\<exists>q \<in> set (pre @ [p]). guard_errs l ctx q)"
proof (cases "find (guard_fires l ctx) (policies prog)")
  case None
  then show ?thesis by (simp add: traced_none)
next
  case (Some p)
  then obtain pre post where pp: "policies prog = pre @ p # post" "guard_fires l ctx p" "\<forall>q \<in> set pre. \<not> guard_fires l ctx q"
    and eq: "evaluate_program_traced l prog ctx =
      trace_policies l ctx (of_nat (length pre)) (\<exists>q \<in> set pre. guard_errs l ctx q) (p # post)"
    by (rule traced_split)
  obtain f where "et_fired (evaluate_program_traced l prog ctx) = Some f" "pf_policy_name f = pol_name p"
    "pf_verdict f = act_verdict (pol_action p)"
    "et_policies_evaluated (evaluate_program_traced l prog ctx) = of_nat (Suc (length pre))"
    "et_eval_errored (evaluate_program_traced l prog ctx) = (\<exists>q \<in> set (pre @ [p]). guard_errs l ctx q)"
    using trace_policies_fires [OF pp(2), of "of_nat (length pre)" "\<exists>q \<in> set pre. guard_errs l ctx q" post] unfolding eq
    by (auto simp: add.commute)
  with pp Some show ?thesis by auto
qed

definition demo_lib :: dictum_lib where
  "demo_lib = \<lparr>lib_to_string = (\<lambda>_. Some []), lib_rfc3339 = (\<lambda>_. None), lib_sha256 = id, lib_hex = (\<lambda>_. []),
     lib_lower = id, lib_upper = id, lib_patterns = [], lib_cc_matches = (\<lambda>_. []), lib_ssn_match = (\<lambda>_. False)\<rparr>"

definition demo_policy :: dictum_policy where
  "demo_policy = \<lparr>pol_name = ''p'',
     pol_when = Binary BAnd (Binary BLt (Lit (LInt 1)) (Lit (LInt 2))) (Unary UNot (Lit (LBool False))),
     pol_action = \<lparr>act_verdict = DBlock, act_reason = Some ''no'', act_evidence = None\<rparr>\<rparr>"

definition broken_policy :: dictum_policy where
  "broken_policy = demo_policy\<lparr>pol_when := Binary BLt (Lit (LInt 1)) (Path [''action'', ''missing''])\<rparr>"

lemmas eval_unfolds = ebind_def eret_def elift_def tick_def default_budget_def new_budget_def cmp_values_def

theorem traced_fails_closed_witness:
  "\<exists>f. et_fired (evaluate_program_traced demo_lib \<lparr>policies = [broken_policy]\<rparr> JNull) = Some f \<and> pf_verdict f = DBlock"
  using traced_fails_closed [where l = demo_lib and ctx = JNull and prog = "\<lparr>policies = [broken_policy]\<rparr>"]
  by (auto simp: guard_fires_def broken_policy_def demo_policy_def eval_unfolds split: option.splits if_splits)

text \<open>
  C17. On a run in which nothing fails, the plain evaluation and the overlay evaluation report
  the same policy, provided each condition and each piece of evidence fits the default
  budget on its own.
\<close>

lemma plain_agrees:
  "fst (evaluate_policies l ctx ps b) = Inr fired \<Longrightarrow>
   list_all (\<lambda>p. nodes (pol_when p) \<le> 10000 \<and> (\<forall>e. act_evidence (pol_action p) = Some e \<longrightarrow> nodes e \<le> 10000)) ps \<Longrightarrow>
   et_fired (trace_policies l ctx n False ps) = fired \<and> \<not> et_eval_errored (trace_policies l ctx n False ps)"
proof (induction ps arbitrary: b n)
  case Nil
  then show ?case by (auto simp: eret_def)
next
  case (Cons p ps)
  have same: "fst (eval_expr l ctx e default_budget) = Inr v" if "eval_expr l ctx e b1 = (Inr v, b2)" "nodes e \<le> 10000" for e v b1 b2
    using eval_budget_irrelevant [of l ctx e b1 default_budget] default_enough [OF that(2)] that(1)
    by (auto simp: exhausted_def)
  from ebind_Inr [OF Cons.prems(1) [unfolded evaluate_policies.simps]] obtain v b'
    where v: "eval_expr l ctx (pol_when p) b = (Inr v, b')" by blast
  with Cons.prems(2) have cond: "fst (eval_expr l ctx (pol_when p) default_budget) = Inr v" by (intro same) auto
  show ?case
  proof (cases "is_truthy v")
    case False
    with v Cons.prems(1) have "fst (evaluate_policies l ctx ps b') = Inr fired" by (simp add: ebind_def)
    with Cons.IH [OF this] Cons.prems(2) False cond show ?thesis by simp
  next
    case True
    show ?thesis
    proof (cases "act_evidence (pol_action p)")
      case None
      with True v cond Cons.prems(1) show ?thesis by (auto simp: ebind_def eret_def)
    next
      case (Some e)
      with True v Cons.prems(1) obtain w b2 where "eval_expr l ctx e b' = (Inr w, b2)"
        by (auto simp: ebind_def eret_def split: prod.splits sum.splits)
      moreover from this have "fst (eval_expr l ctx e default_budget) = Inr w"
        using Cons.prems(2) Some by (intro same) auto
      ultimately show ?thesis using True v cond Some Cons.prems(1) by (auto simp: ebind_def eret_def)
    qed
  qed
qed

theorem traced_agrees_with_plain:
  assumes "fst (evaluate_program l prog ctx b) = Inr fired"
    and "\<And>p. p \<in> set (policies prog) \<Longrightarrow> nodes (pol_when p) \<le> 10000"
    and "\<And>p e. p \<in> set (policies prog) \<Longrightarrow> act_evidence (pol_action p) = Some e \<Longrightarrow> nodes e \<le> 10000"
  shows "et_fired (evaluate_program_traced l prog ctx) = fired \<and> \<not> et_eval_errored (evaluate_program_traced l prog ctx)"
  unfolding evaluate_program_traced_def
  by (rule plain_agrees [OF assms(1) [unfolded evaluate_program_def]]) (use assms(2,3) in \<open>auto simp: list_all_iff\<close>)

theorem traced_agrees_with_plain_witness:
  "et_fired (evaluate_program_traced demo_lib \<lparr>policies = [demo_policy]\<rparr> JNull) =
     Some \<lparr>pf_policy_name = ''p'', pf_verdict = DBlock, pf_reason = Some ''no'', pf_evidence = None\<rparr> \<and>
   \<not> et_eval_errored (evaluate_program_traced demo_lib \<lparr>policies = [demo_policy]\<rparr> JNull)"
  by (rule traced_agrees_with_plain [of demo_lib _ _ default_budget])
     (auto simp: evaluate_program_def demo_policy_def eval_unfolds)

section \<open>Types\<close>

text \<open>
  C18. The type checker returns on every program: although resolving a variable walks the
  substitution without a guard, the occurs check keeps the substitution free of cycles.
\<close>

theorem infer_returns: "\<exists>r. infer prog = Some r"
proof -
  have "acyclic_subst (tsubst_of new_env)" by (auto simp: acyclic_subst_def ranked_def new_env_def)
  from infer_policies_returns [OF this, of "policies prog"] show ?thesis by (auto simp: infer_def returns_def)
qed

text \<open>
  C19. Type soundness. If an expression checks, every value it evaluates to has the inferred
  type. If moreover it consists of literals, operators and calls the checker constrains,
  evaluation fails only for lack of budget or on a malformed instant, never on a type.
\<close>

theorem checked_evaluates_safely:
  assumes "infer_expr env e = Some (Inr (t, env'))"
  shows "(\<forall>v. fst (eval_expr l ctx e b) = Inr v \<longrightarrow> has_ty v t) \<and>
    (static_expr e \<longrightarrow> (\<forall>err. fst (eval_expr l ctx e b) = Inl err \<longrightarrow>
       (\<exists>s. err = BudgetExhausted s) \<or> (\<exists>s. err = EvalError (BadInstant s))))"
proof -
  have "benign err" if "static_expr e" "fst (eval_expr l ctx e b) = Inl err" for err
    using static_safe [OF that(1) assms, of l ctx] that(2) by (auto simp: safe_def split: sum.splits dest: spec [of _ b])
  moreover have "benign err \<longleftrightarrow> (\<exists>s. err = BudgetExhausted s) \<or> (\<exists>s. err = EvalError (BadInstant s))" for err
    by (cases err rule: benign.cases) auto
  ultimately show ?thesis using eval_preserves [OF assms] by blast
qed

theorem checked_evaluates_safely_witness:
  "fst (eval_expr demo_lib JNull (pol_when demo_policy) default_budget) = Inr (VBool True) \<and> has_ty (VBool True) TBool"
proof -
  have "infer_expr new_env (pol_when demo_policy) = Some (Inr (TBool, new_env))" by (simp add: demo_policy_def)
  from checked_evaluates_safely [OF this, of demo_lib JNull default_budget]
  show ?thesis by (auto simp: demo_policy_def eval_unfolds)
qed

text \<open>
  What the checker records for a checked program whose conditions are not themselves
  calls of unknown functions: \<open>bool\<close> for every condition but a bare path, which stays of
  unknown type.
\<close>

theorem recorded_when_types:
  assumes "infer prog = Some (Inr env)"
    and "\<And>p f args. p \<in> set (policies prog) \<Longrightarrow> pol_when p = Call f args \<Longrightarrow> builtin_signature f \<noteq> None"
  shows "when_types env = map (\<lambda>p. if is_path (pol_when p) then TUnknown else TBool) (policies prog)"
  using infer_policies_types [of new_env "policies prog" env] assms by (auto simp: infer_def new_env_def)

theorem recorded_when_types_witness:
  "when_types (new_env\<lparr>when_types := [TBool, TUnknown]\<rparr>) =
     map (\<lambda>p. if is_path (pol_when p) then TUnknown else TBool) [demo_policy, demo_policy\<lparr>pol_when := Path [''flag'']\<rparr>]"
proof -
  let ?prog = "\<lparr>policies = [demo_policy, demo_policy\<lparr>pol_when := Path [''flag'']\<rparr>]\<rparr>"
  have "env_unify env TUnknown TBool = Some (Inr env)" for env
    by (subst env_unify_def, subst unify.simps) simp
  then have "infer ?prog = Some (Inr (new_env\<lparr>when_types := [TBool, TUnknown]\<rparr>))"
    by (simp add: infer_def new_env_def demo_policy_def)
  from recorded_when_types [OF this] show ?thesis by (auto simp: demo_policy_def)
qed

section \<open>Code generation\<close>

text \<open>
  C21. On programs that type-check and whose integers fit 32 bits, the generated WebAssembly
  agrees with the tree walk: whenever a policy compiles, running its code on any stack pushes
  one word, which is 1 exactly if the condition evaluates to true and 0 exactly if it
  evaluates to false.
\<close>

theorem wasm_agrees_with_tree_walk:
  assumes "compile_policy p = Inr code" "infer_expr env (pol_when p) = Some (Inr (TBool, env'))"
    and "fits_i32 (pol_when p)" "nodes (pol_when p) \<le> unat (remaining b)"
  shows "\<exists>c. fst (eval_expr l ctx (pol_when p) b) = Inr (VBool c) \<and>
     (\<forall>st. exec code st = Some ((if c then 1 else 0) # st))"
proof -
  from assms(1) obtain f where f: "emit_expr (pol_when p) [] = Inr f" "code = f @ [End]" by (auto simp: compile_policy_def)
  from emit_correct [OF f(1) assms(2,3), of l ctx] obtain v j where v: "j \<le> nodes (pol_when p)"
    "costs j (Inr v) (eval_expr l ctx (pol_when p))" "has_ty v TBool" "\<forall>st. exec f st = Some (enc v # st)" by auto
  then obtain c where "v = VBool c" by auto
  with v f(2) assms(4) show ?thesis
    by (intro exI [of _ c]) (auto simp: costs_def exec_append of_bool32_def)
qed

theorem wasm_agrees_with_tree_walk_witness:
  "\<exists>c. fst (eval_expr demo_lib JNull (pol_when demo_policy) default_budget) = Inr (VBool c) \<and>
     (\<forall>st. exec [I32Const 1, I32Const 2, I32LtS, I32Const 0, I32Eqz, I32And, End] st = Some ((if c then 1 else 0) # st))"
  by (rule wasm_agrees_with_tree_walk [of _ _ new_env new_env])
     (simp_all add: demo_policy_def compile_policy_def in_i32_def default_budget_def new_budget_def)

text \<open>Outside those bounds the two disagree, as the module documentation says.\<close>

lemma wasm_diverges:
  "emit_expr (Binary BEq (Lit (LInt 4294967296)) (Lit (LInt 0))) [] = Inr [I32Const 0, I32Const 0, I32Eq]"
  "exec [I32Const 0, I32Const 0, I32Eq] [] = Some [1]"
  "fst (eval_expr l ctx (Binary BEq (Lit (LInt 4294967296)) (Lit (LInt 0))) default_budget) = Inr (VBool False)"
  by (simp_all add: of_bool32_def eval_unfolds values_eq_def)

text \<open>Two policy names can be exported under one name, which WebAssembly forbids.\<close>

lemma export_names_collide: "sanitize_export ''a-b'' = sanitize_export ''a_b''"
  by (simp add: sanitize_export_def ascii_alnum_def)

section \<open>Parsing and validation\<close>

text \<open>
  The parser returns on every token list: three units of fuel more than there are tokens
  are always enough, and so every source text is either parsed or rejected with an error.
\<close>

theorem parse_returns: "\<exists>r. parse lexer src = Some r"
  using parse_tokens_returns by (cases "tokenize lexer src") (auto simp: parse_def)

text \<open>
  C23. Parsing inverts printing: the tokens of a printed program, at whatever positions, parse
  to that program, for every program without empty paths.
\<close>

theorem parse_inverts_render:
  assumes "map fst ts = render_program prog" "[] \<notin> set (collect_paths prog)"
  shows "parse_tokens ts = Some (Inr prog)"
proof -
  have "list_all paths_ok (policies prog)"
    using assms(2) by (auto simp: list_all_iff paths_ok_def collect_paths_def)
  then have "program_loop (parse_fuel ts) ts = Some (Inr (policies prog))"
    using assms(1) by (intro program_loop_render) (auto simp: render_program_def parse_fuel_def)
  then show ?thesis by (simp add: parse_tokens_def)
qed

theorem parse_inverts_render_witness:
  "parse_tokens (map (\<lambda>t. (t, 1, 1)) (render_program \<lparr>policies = [demo_policy]\<rparr>)) = Some (Inr \<lparr>policies = [demo_policy]\<rparr>)"
  by (rule parse_inverts_render) (simp_all add: o_def collect_paths_def collect_policy_paths_def demo_policy_def)

text \<open>
  A program passes the validator exactly when its policy names are distinct and not
  blank, no path in a condition or in evidence is empty, and every call of a builtin has the
  right number of arguments.
\<close>

theorem validate_iff:
  "validate prog = Inr () \<longleftrightarrow>
     distinct (map pol_name (policies prog)) \<and> list_all (\<lambda>p. str_trim (pol_name p) \<noteq> []) (policies prog) \<and>
     [] \<notin> set (collect_paths prog) \<and> list_all (\<lambda>p. list_all arity_ok (policy_calls p)) (policies prog)"
proof -
  have one: "validate_expr (pol_when p) = Inr () \<and> (\<forall>ev. act_evidence (pol_action p) = Some ev \<longrightarrow> validate_expr ev = Inr ()) \<longleftrightarrow>
      [] \<notin> set (collect_policy_paths p) \<and> list_all arity_ok (policy_calls p)" for p
    by (cases "act_evidence (pol_action p)")
       (auto simp: validate_expr_iff collect_policy_paths_def policy_calls_def list_all_iff)
  show ?thesis
    unfolding validate_def validate_policies_iff one by (auto simp: collect_paths_def list_all_iff)
qed

section \<open>Secrets and hosts\<close>

fun luhn_total :: "bool \<Rightarrow> nat list \<Rightarrow> nat" where
  "luhn_total dbl [] = 0"
| "luhn_total dbl (d # ds) = (if dbl then (if 2 * d > 9 then 2 * d - 9 else 2 * d) else d) + luhn_total (\<not> dbl) ds"

lemma luhn_total_bound: "list_all (\<lambda>d. d \<le> 9) ds \<Longrightarrow> luhn_total dbl ds \<le> 9 * length ds"
proof (induction ds arbitrary: dbl)
  case (Cons d ds)
  then have "luhn_total (\<not> dbl) ds \<le> 9 * length ds" "d \<le> 9" by auto
  then show ?case by auto
qed simp

lemma luhn_sum_word: "luhn_sum dbl acc ds = acc + of_nat (luhn_total dbl ds)"
  by (induction ds arbitrary: dbl acc) (simp_all add: Let_def)

lemma luhn_sum_total:
  assumes "list_all (\<lambda>d. d \<le> 9) ds" "length ds \<le> 19"
  shows "unat (luhn_sum dbl 0 ds) = luhn_total dbl ds"
proof -
  have "luhn_total dbl ds < 2 ^ 32" using luhn_total_bound [OF assms(1), of dbl] assms(2) by simp
  then show ?thesis by (simp add: luhn_sum_word unat_of_nat take_bit_eq_mod)
qed

lemma luhn_total_append:
  "luhn_total dbl (xs @ ys) = luhn_total dbl xs + luhn_total (if even (length xs) then dbl else \<not> dbl) ys"
  by (induction xs arbitrary: dbl) simp_all

text \<open>Within one position the contributions of two digits agree modulo 10 only if the digits do.\<close>

lemma luhn_digit_inj:
  assumes "d \<le> 9" "d' \<le> 9" "(a + luhn_total dbl (d # ds)) mod 10 = (a + luhn_total dbl (d' # ds)) mod 10"
  shows "d = d'"
proof -
  have dig: "x \<in> {0, 1, 2, 3, 4, 5, 6, 7, 8, 9}" if "x \<le> 9" for x :: nat using that by auto
  have "(if dbl then (if 2 * d > 9 then 2 * d - 9 else 2 * d) else d) mod 10 =
      (if dbl then (if 2 * d' > 9 then 2 * d' - 9 else 2 * d') else d') mod 10"
    using assms(3) by (simp add: nat_mod_eq_iff)
  then show ?thesis using dig [OF assms(1)] dig [OF assms(2)] by (cases dbl) auto
qed

definition is_digit :: "char \<Rightarrow> bool" where
  "is_digit ch \<longleftrightarrow> 48 \<le> (of_char ch :: nat) \<and> (of_char ch :: nat) \<le> 57"

lemma card_digits_parts:
  "card_digits (p @ ch # q) = card_digits p @ (if is_digit ch then [of_char ch - 48] else []) @ card_digits q"
  by (simp add: card_digits_def is_digit_def)

lemma card_digits_small: "list_all (\<lambda>d. d \<le> 9) (card_digits s)"
  by (auto simp: card_digits_def list_all_iff)

text \<open>
  The card check detects every single wrong digit: changing one digit of a number that
  passes the Luhn test, with any separators around it, makes it fail.
\<close>

theorem luhn_detects_wrong_digit:
  assumes "luhn_valid (p @ ch # q)" "is_digit ch" "is_digit ch'" "ch \<noteq> ch'"
  shows "\<not> luhn_valid (p @ ch' # q)"
proof
  assume bad: "luhn_valid (p @ ch' # q)"
  let ?ds = "\<lambda>d. rev (card_digits q) @ d # rev (card_digits p)"
  let ?d = "of_char ch - 48 :: nat" and ?d' = "of_char ch' - 48 :: nat"
  have d9: "?d \<le> 9" "?d' \<le> 9" using assms(2,3) by (auto simp: is_digit_def)
  have small: "list_all (\<lambda>d. d \<le> 9) (?ds d)" if "d \<le> 9" for d
    using card_digits_small [of p] card_digits_small [of q] that by (auto simp: list_all_iff)
  have len: "length (?ds ?d) \<le> 19" using assms(1,2) by (simp add: luhn_valid_def Let_def card_digits_parts split: if_splits)
  have "luhn_total False (?ds ?d) mod 10 = 0" "luhn_total False (?ds ?d') mod 10 = 0"
    using assms(1-3) bad luhn_sum_total [OF small [OF d9(1)], of False] luhn_sum_total [OF small [OF d9(2)], of False] len
    by (simp_all add: luhn_valid_def Let_def card_digits_parts split: if_splits)
  then have "(luhn_total False (rev (card_digits q)) + luhn_total (if even (length (rev (card_digits q))) then False else \<not> False)
        (?d # rev (card_digits p))) mod 10 =
      (luhn_total False (rev (card_digits q)) + luhn_total (if even (length (rev (card_digits q))) then False else \<not> False)
        (?d' # rev (card_digits p))) mod 10"
    by (simp only: luhn_total_append)
  then have "?d = ?d'" by (rule luhn_digit_inj [OF d9])
  then have "(of_char ch :: nat) = of_char ch'" using assms(2,3) unfolding is_digit_def by linarith
  with assms(4) show False by simp
qed

theorem luhn_detects_wrong_digit_witness: "\<not> luhn_valid (''4539 1488 0343 6'' @ CHR ''5'' # ''67'')"
  by (rule luhn_detects_wrong_digit [of _ "CHR ''4''"]) code_simp+

text \<open>
  The host a policy sees is the host of the URL: for a URL with a scheme, arbitrary user
  information, a host, a port and a path, \<open>extract_host\<close> returns the host in lower case. Text
  before the last \<open>@\<close> of the authority cannot pass for the host.
\<close>

theorem extract_host_of_url:
  assumes "CHR '':'' \<notin> set scheme" "set user \<inter> set ''/?#'' = {}" "set host \<inter> set ''/?#@:'' = {}"
    and "host \<noteq> []" "hd host \<noteq> CHR ''[''" "set port \<inter> set ''/?#@'' = {}"
  shows "extract_host (scheme @ ''://'' @ user @ ''@'' @ host @ '':'' @ port @ ''/'' @ path) = to_ascii_lowercase host"
  using extract_host_url [of scheme "user @ ''@''" host "CHR '':'' # port" "CHR ''/'' # path"] assms by auto

theorem extract_host_of_url_witness:
  "extract_host (''https'' @ ''://'' @ ''good.com'' @ ''@'' @ ''Evil.org'' @ '':'' @ ''443'' @ ''/'' @ ''x'') = to_ascii_lowercase ''Evil.org''"
  by (rule extract_host_of_url) simp_all

end
