(* ===== verification/Governance_Types.thy ===== *)
theory Governance_Types
  imports Core_Types Rust_Strings
begin

text \<open>
  Requests, agent profiles and workspace policies of
  \<open>crates/iaga-sentinel-core/src/core/types.rs\<close>. A \<open>HashMap\<close> of JSON values is an association
  list: reads go through \<open>map_of\<close>, and code that iterates sorts the keys first.
\<close>

datatype protocol_kind = Mcp | Acp | A2a | HttpFunction | UnknownProtocol

datatype agent_role = Builder | Researcher | Operator

text \<open>The wire form of usage (\<open>crates/iaga-sentinel-cost/src/usage.rs\<close>).\<close>

record usage_report =
  ur_provider :: string
  ur_model :: string
  ur_prompt_tokens :: "u64 option"
  ur_completion_tokens :: "u64 option"
  ur_total_tokens :: "u64 option"
  ur_cost_usd :: "f64 option"

record action_detail =
  ad_action_type :: action_type
  ad_tool_name :: string
  ad_payload :: fields

record inspect_request =
  ir_agent_id :: string
  ir_tenant_id :: "string option"
  ir_workspace_id :: "string option"
  ir_framework :: string
  ir_protocol :: "protocol_kind option"
  ir_action :: action_detail
  ir_requested_secrets :: "string list option"
  ir_metadata :: "fields option"
  ir_usage :: "usage_report option"

record agent_profile =
  ap_agent_id :: string
  ap_tenant_id :: "string option"
  ap_workspace_id :: string
  ap_framework :: string
  ap_role :: agent_role
  ap_approved_tools :: "string list"
  ap_approved_secrets :: "string list"
  ap_baseline_action_types :: "action_type list"
  ap_tool_trust :: f64

record tool_policy =
  tp_tool_name :: string
  tp_allowed_action_types :: "action_type list"
  tp_max_decision :: governance_decision
  tp_requires_human_review :: bool
  tp_destination_fields :: "string list"

definition DEFAULT_EGRESS_DESTINATION_FIELDS :: "string list" where
  "DEFAULT_EGRESS_DESTINATION_FIELDS =
     [''destination'', ''url'', ''uri'', ''endpoint'', ''href'', ''target'', ''webhook'']"

definition default_tool_policy :: tool_policy where
  "default_tool_policy = \<lparr>tp_tool_name = [], tp_allowed_action_types = [], tp_max_decision = GBlock,
     tp_requires_human_review = False, tp_destination_fields = []\<rparr>"

record workspace_policy =
  wp_workspace_id :: string
  wp_tenant_id :: "string option"
  wp_allowed_protocols :: "protocol_kind list"
  wp_tools :: "tool_policy list"
  wp_allowed_domains :: "string list"
  wp_threshold_block :: u32
  wp_threshold_review :: u32

record rate_limit_config =
  max_per_minute :: u32
  max_per_hour :: u32
  burst_limit :: u32

definition default_rate_limit_config :: rate_limit_config where
  "default_rate_limit_config = \<lparr>max_per_minute = 60, max_per_hour = 1000, burst_limit = 10\<rparr>"

text \<open>\<open>payload.get(k).and_then(|v| v.as_str())\<close>.\<close>

definition str_field :: "fields \<Rightarrow> string \<Rightarrow> string option" where
  "str_field payload k = (case map_of payload k of Some (JString s) \<Rightarrow> Some s | _ \<Rightarrow> None)"

lemma str_field_Some: "str_field payload k = Some s \<longleftrightarrow> map_of payload k = Some (JString s)"
  by (auto simp: str_field_def split: option.splits json.splits)

end
