(* ===== verification/Rate_Limiter.thy ===== *)
theory Rate_Limiter
  imports Governance_Types "HOL-Library.AList"
begin

text \<open>
  The sliding-window rate limiter of
  \<open>crates/iaga-sentinel-core/src/modules/rate_limit/limiter.rs\<close>. An \<open>Instant\<close> and a \<open>Duration\<close> are
  nanoseconds, counted from the epoch of the clock, so that subtraction below the epoch is the
  \<open>None\<close> of \<open>checked_sub\<close>. The map of windows is an association list: its iteration order is
  not used by the results. Each call is split at its \<open>await\<close> points into the steps of
  \<open>limiter_step\<close>, so that calls interleave.
\<close>

section \<open>Windows of time\<close>

type_synonym instant = nat
type_synonym duration = nat

definition secs :: "nat \<Rightarrow> duration" where
  "secs n = n * 1000000000"

definition HOUR :: duration where "HOUR = secs 3600"
definition MINUTE :: duration where "MINUTE = secs 60"
definition BURST :: duration where "BURST = secs 5"

definition checked_sub :: "nat \<Rightarrow> nat \<Rightarrow> nat option" where
  "checked_sub a b = (if b \<le> a then Some (a - b) else None)"

definition within_window :: "instant \<Rightarrow> duration \<Rightarrow> instant \<Rightarrow> bool" where
  "within_window now window t = (case checked_sub now window of Some cutoff \<Rightarrow> cutoff \<le> t | None \<Rightarrow> True)"

text \<open>\<open>timestamps.iter().filter(..).count() as u32\<close>.\<close>

definition count_in :: "instant \<Rightarrow> duration \<Rightarrow> instant list \<Rightarrow> u32" where
  "count_in now window ts = of_nat (length (filter (within_window now window) ts))"

section \<open>State\<close>

record rate_limit_result =
  rr_allowed :: bool
  rr_remaining :: u32
  rr_reset_at :: u64
  rr_retry_after_secs :: "u32 option"

record rate_limit_status =
  rs_agent_id :: string
  rs_requests_last_minute :: u32
  rs_requests_last_hour :: u32
  rs_requests_last_5_seconds :: u32
  rs_config :: rate_limit_config

type_synonym windows = "(string \<times> instant list) list"

record rate_limiter =
  rl_windows :: windows
  rl_config :: rate_limit_config

definition new_limiter :: "rate_limit_config \<Rightarrow> rate_limiter" where
  "new_limiter config = \<lparr>rl_windows = [], rl_config = config\<rparr>"

definition make_key :: "string \<Rightarrow> string option \<Rightarrow> string" where
  "make_key agent_id tool_name = (case tool_name of Some t \<Rightarrow> agent_id @ '':'' @ t | None \<Rightarrow> agent_id)"

section \<open>Operations\<close>

definition oldest :: "instant \<Rightarrow> instant list \<Rightarrow> instant" where
  "oldest now ts = (case ts of [] \<Rightarrow> now | t # ts' \<Rightarrow> fold min ts' t)"

text \<open>\<open>now.duration_since(oldest)\<close> saturates at zero; the \<open>as u32\<close> cast truncates.\<close>

definition retry_after :: "instant \<Rightarrow> duration \<Rightarrow> instant \<Rightarrow> u32" where
  "retry_after now window old =
     (let wait = (case checked_sub window (now - old) of Some d \<Rightarrow> d | None \<Rightarrow> secs 1)
      in of_nat (wait div 1000000000) + 1)"

definition rate_verdict :: "rate_limit_config \<Rightarrow> instant \<Rightarrow> instant list \<Rightarrow> bool \<times> u32 option" where
  "rate_verdict config now ts =
     (if burst_limit config \<le> count_in now BURST ts
      then (False, Some (retry_after now BURST (oldest now (filter (within_window now BURST) ts))))
      else if max_per_minute config \<le> count_in now MINUTE ts
      then (False, Some (retry_after now MINUTE (oldest now (filter (within_window now MINUTE) ts))))
      else if max_per_hour config \<le> of_nat (length ts)
      then (False, Some (retry_after now HOUR (oldest now ts)))
      else (True, None))"

definition saturating_sub :: "u32 \<Rightarrow> u32 \<Rightarrow> u32" where
  "saturating_sub a b = (if a \<le> b then 0 else a - b)"

definition prune :: "instant \<Rightarrow> instant list \<Rightarrow> instant list" where
  "prune now ts = filter (within_window now HOUR) ts"

definition window_of :: "windows \<Rightarrow> string \<Rightarrow> instant list" where
  "window_of ws key = (case map_of ws key of Some ts \<Rightarrow> ts | None \<Rightarrow> [])"

text \<open>The part of \<open>check_rate\<close> under the write lock of the windows; \<open>wall\<close> is the wall clock in seconds.\<close>

definition check_windows ::
  "rate_limit_config \<Rightarrow> string \<Rightarrow> instant \<Rightarrow> u64 \<Rightarrow> windows \<Rightarrow> rate_limit_result \<times> windows" where
  "check_windows config key now wall ws =
     (let ts = prune now (window_of ws key);
          count_minute = count_in now MINUTE ts;
          (allowed, retry) = rate_verdict config now ts;
          ts' = (if allowed then ts @ [now] else ts);
          remaining = saturating_sub (max_per_minute config) (if allowed then count_minute + 1 else count_minute)
      in (\<lparr>rr_allowed = allowed, rr_remaining = remaining, rr_reset_at = wall + 60, rr_retry_after_secs = retry\<rparr>,
          AList.update key ts' ws))"

definition check_rate ::
  "string \<Rightarrow> string option \<Rightarrow> instant \<Rightarrow> u64 \<Rightarrow> rate_limiter \<Rightarrow> rate_limit_result \<times> rate_limiter" where
  "check_rate agent_id tool_name now wall rl =
     (case check_windows (rl_config rl) (make_key agent_id tool_name) now wall (rl_windows rl) of
        (r, ws) \<Rightarrow> (r, rl\<lparr>rl_windows := ws\<rparr>))"

definition key_belongs_to :: "string \<Rightarrow> string \<Rightarrow> bool" where
  "key_belongs_to key agent_id \<longleftrightarrow> key = agent_id
     \<or> (length key > length agent_id \<and> prefix agent_id key \<and> key ! length agent_id = CHR '':'')"

fun status_counts :: "instant \<Rightarrow> string \<Rightarrow> windows \<Rightarrow> u32 \<times> u32 \<times> u32 \<Rightarrow> u32 \<times> u32 \<times> u32" where
  "status_counts now agent_id [] acc = acc"
| "status_counts now agent_id ((key, ts) # ws) (m, h, b) =
     status_counts now agent_id ws
       (if \<not> key_belongs_to key agent_id then (m, h, b)
        else (max m (count_in now MINUTE ts), max h (count_in now HOUR ts), max b (count_in now BURST ts)))"

definition status :: "string \<Rightarrow> instant \<Rightarrow> rate_limiter \<Rightarrow> rate_limit_status" where
  "status agent_id now rl =
     (case status_counts now agent_id (rl_windows rl) (0, 0, 0) of
        (m, h, b) \<Rightarrow> \<lparr>rs_agent_id = agent_id, rs_requests_last_minute = m, rs_requests_last_hour = h,
          rs_requests_last_5_seconds = b, rs_config = rl_config rl\<rparr>)"

definition update_config :: "rate_limit_config \<Rightarrow> rate_limiter \<Rightarrow> rate_limiter" where
  "update_config config rl = rl\<lparr>rl_config := config\<rparr>"

definition cleanup_windows :: "instant \<Rightarrow> windows \<Rightarrow> windows" where
  "cleanup_windows now ws = filter (\<lambda>(_, ts). ts \<noteq> []) (map (\<lambda>(key, ts). (key, prune now ts)) ws)"

definition cleanup :: "instant \<Rightarrow> rate_limiter \<Rightarrow> rate_limiter" where
  "cleanup now rl = rl\<lparr>rl_windows := cleanup_windows now (rl_windows rl)\<rparr>"

section \<open>Interleaved calls\<close>

text \<open>
  A call reads the configuration, then the clock, then takes the write lock. \<open>Started\<close> has read the
  configuration, \<open>Timed\<close> also the clock. The log records what was admitted, in order.
\<close>

datatype limiter_task =
    Started rate_limit_config string
  | Timed rate_limit_config string instant
  | Cleaning instant

record limiter_system =
  sys_limiter :: rate_limiter
  sys_clock :: instant
  sys_tasks :: "limiter_task list"
  sys_log :: "(string \<times> instant) list"

fun task_time :: "limiter_task \<Rightarrow> instant option" where
  "task_time (Started config key) = None"
| "task_time (Timed config key now) = Some now"
| "task_time (Cleaning now) = Some now"

text \<open>Configurations that do not exceed a bound.\<close>

definition bounded_by :: "rate_limit_config \<Rightarrow> rate_limit_config \<Rightarrow> bool" where
  "bounded_by limits config \<longleftrightarrow> max_per_minute config \<le> max_per_minute limits
     \<and> max_per_hour config \<le> max_per_hour limits \<and> burst_limit config \<le> burst_limit limits"

text \<open>
  \<open>delay\<close> bounds how long a call waits for the lock after reading the clock; \<open>limits\<close> bounds the
  configurations an operator sets.
\<close>

inductive limiter_step :: "duration \<Rightarrow> rate_limit_config \<Rightarrow> limiter_system \<Rightarrow> limiter_system \<Rightarrow> bool"
  for delay limits where
  tick: "sys_clock s \<le> c \<Longrightarrow> (\<And>task t. task \<in> set (sys_tasks s) \<Longrightarrow> task_time task = Some t \<Longrightarrow> c \<le> t + delay) \<Longrightarrow>
     limiter_step delay limits s (s\<lparr>sys_clock := c\<rparr>)"
| configure: "bounded_by limits config \<Longrightarrow>
     limiter_step delay limits s (s\<lparr>sys_limiter := update_config config (sys_limiter s)\<rparr>)"
| call: "limiter_step delay limits s
     (s\<lparr>sys_tasks := Started (rl_config (sys_limiter s)) (make_key agent_id tool_name) # sys_tasks s\<rparr>)"
| read_clock: "Started config key \<in> set (sys_tasks s) \<Longrightarrow>
     limiter_step delay limits s (s\<lparr>sys_tasks := Timed config key (sys_clock s) # remove1 (Started config key) (sys_tasks s)\<rparr>)"
| commit: "Timed config key now \<in> set (sys_tasks s) \<Longrightarrow>
     check_windows config key now wall (rl_windows (sys_limiter s)) = (r, ws) \<Longrightarrow>
     limiter_step delay limits s
       (s\<lparr>sys_limiter := (sys_limiter s)\<lparr>rl_windows := ws\<rparr>, sys_tasks := remove1 (Timed config key now) (sys_tasks s),
          sys_log := (if rr_allowed r then sys_log s @ [(key, now)] else sys_log s)\<rparr>)"
| start_cleanup: "limiter_step delay limits s (s\<lparr>sys_tasks := Cleaning (sys_clock s) # sys_tasks s\<rparr>)"
| finish_cleanup: "Cleaning now \<in> set (sys_tasks s) \<Longrightarrow>
     limiter_step delay limits s
       (s\<lparr>sys_limiter := cleanup now (sys_limiter s), sys_tasks := remove1 (Cleaning now) (sys_tasks s)\<rparr>)"

inductive limiter_reach :: "duration \<Rightarrow> rate_limit_config \<Rightarrow> limiter_system \<Rightarrow> bool"
  for delay limits where
  init: "bounded_by limits config \<Longrightarrow>
     limiter_reach delay limits \<lparr>sys_limiter = new_limiter config, sys_clock = c, sys_tasks = [], sys_log = []\<rparr>"
| step: "limiter_reach delay limits s \<Longrightarrow> limiter_step delay limits s s' \<Longrightarrow> limiter_reach delay limits s'"

inductive_cases limiter_stepE: "limiter_step delay limits s s'"

end
