(* ===== verification/Limiter_Properties.thy ===== *)
theory Limiter_Properties
  imports Rate_Limiter
begin

text \<open>
  What the rate limiter guarantees when calls interleave: the admitted requests of a key never
  exceed a limit within any interval of the length of its window (less, for the hour, the time a
  call may wait for the lock), a refused call is told when a place becomes free, cleaning up changes no answer, and the status report shows a refusal coming.
  A limit with its window is an instance of the locale \<open>limit_window\<close>.
\<close>

section \<open>Windows\<close>

lemma within_window_iff: "within_window now w t \<longleftrightarrow> now \<le> t + w"
  by (auto simp: within_window_def checked_sub_def)

lemma prune_eq: "prune now ts = filter (\<lambda>t. now \<le> t + HOUR) ts"
  by (simp add: prune_def within_window_iff [abs_def])

lemma window_lengths: "BURST \<le> MINUTE" "MINUTE \<le> HOUR" "BURST \<le> HOUR" "0 < BURST"
  by (simp_all add: BURST_def MINUTE_def HOUR_def secs_def)

lemma window_of_update [simp]: "window_of (AList.update k ts ws) key = (if key = k then ts else window_of ws key)"
  by (simp add: window_of_def update_conv')

lemma window_of_cleanup:
  "distinct (map fst ws) \<Longrightarrow> window_of (cleanup_windows now ws) key = prune now (window_of ws key)"
proof (induction ws)
  case (Cons x ws)
  obtain k ts where x: "x = (k, ts)" by (cases x)
  have "map_of (cleanup_windows now ws) k = None" if "k = key"
    using Cons.prems x by (force simp: cleanup_windows_def map_of_eq_None_iff)
  with Cons x show ?case
    by (auto simp: cleanup_windows_def window_of_def prune_eq split: option.splits)
qed (simp add: window_of_def cleanup_windows_def prune_def)

lemma distinct_cleanup: "distinct (map fst ws) \<Longrightarrow> distinct (map fst (cleanup_windows now ws))"
  by (induction ws) (force simp: cleanup_windows_def)+

lemma filter_weaken: "(\<And>x. P x \<Longrightarrow> Q x) \<Longrightarrow> filter P (filter Q xs) = filter P xs"
  by (induction xs) auto

lemma count_in_unat: "length ts < 2 ^ 32 \<Longrightarrow> unat (count_in now w ts) = length (filter (within_window now w) ts)"
proof -
  assume "length ts < 2 ^ 32"
  then have "length (filter (within_window now w) ts) < 2 ^ LENGTH(32)"
    by (simp add: le_less_trans [OF length_filter_le])
  then show ?thesis by (simp add: count_in_def unsigned_of_nat take_bit_nat_eq_self)
qed

lemma length_unat: "length ts < 2 ^ 32 \<Longrightarrow> unat (of_nat (length ts) :: u32) = length ts"
  by (simp add: unsigned_of_nat take_bit_nat_eq_self)

section \<open>The invariant of the interleaved system\<close>

definition log_of :: "(string \<times> instant) list \<Rightarrow> string \<Rightarrow> instant list" where
  "log_of hist key = map snd (filter (\<lambda>(k, _). k = key) hist)"

lemma log_of_simps [simp]:
  "log_of [] key = []" "log_of (hist @ [(k, t)]) key = log_of hist key @ (if k = key then [t] else [])"
  by (simp_all add: log_of_def)

fun task_config :: "limiter_task \<Rightarrow> rate_limit_config option" where
  "task_config (Started config key) = Some config"
| "task_config (Timed config key now) = Some config"
| "task_config (Cleaning now) = None"

definition tasks_ok :: "duration \<Rightarrow> rate_limit_config \<Rightarrow> instant \<Rightarrow> limiter_task list \<Rightarrow> bool" where
  "tasks_ok delay limits c tasks \<longleftrightarrow> (\<forall>task \<in> set tasks.
     (\<forall>t. task_time task = Some t \<longrightarrow> t \<le> c \<and> c \<le> t + delay) \<and>
     (\<forall>config. task_config task = Some config \<longrightarrow> bounded_by limits config))"

text \<open>The windows hold everything admitted during the last hour, and never reach \<open>2 ^ 32\<close> entries.\<close>

definition windows_ok :: "instant \<Rightarrow> windows \<Rightarrow> (string \<times> instant) list \<Rightarrow> bool" where
  "windows_ok c ws hist \<longleftrightarrow> distinct (map fst ws) \<and> (\<forall>key. length (window_of ws key) < 2 ^ 32 \<and>
     filter (\<lambda>t. c \<le> t + HOUR) (window_of ws key) = filter (\<lambda>t. c \<le> t + HOUR) (log_of hist key))"

definition limiter_inv :: "duration \<Rightarrow> rate_limit_config \<Rightarrow> limiter_system \<Rightarrow> bool" where
  "limiter_inv delay limits s \<longleftrightarrow>
     bounded_by limits (rl_config (sys_limiter s)) \<and> tasks_ok delay limits (sys_clock s) (sys_tasks s) \<and>
     windows_ok (sys_clock s) (rl_windows (sys_limiter s)) (sys_log s)"

lemma tasks_ok_remove: "tasks_ok delay limits c tasks \<Longrightarrow> tasks_ok delay limits c (remove1 x tasks)"
  using set_remove1_subset [of x tasks] unfolding tasks_ok_def by blast

lemma windows_ok_later:
  assumes "windows_ok c ws hist" "c \<le> c'"
  shows "windows_ok c' ws hist"
proof -
  have "filter (\<lambda>t. c' \<le> t + HOUR) xs = filter (\<lambda>t. c' \<le> t + HOUR) (filter (\<lambda>t. c \<le> t + HOUR) xs)" for xs
    using assms(2) by (intro filter_weaken [symmetric]) linarith
  then show ?thesis using assms(1) unfolding windows_ok_def by metis
qed

text \<open>What an admitted call found in its window.\<close>

lemma rate_verdict_admits:
  assumes "rate_verdict config now ts = (True, r)" "length ts < 2 ^ 32"
  shows "length (filter (within_window now BURST) ts) < unat (burst_limit config)"
    and "length (filter (within_window now MINUTE) ts) < unat (max_per_minute config)"
    and "length ts < unat (max_per_hour config)"
  using assms(1)
  by (simp_all add: rate_verdict_def not_le word_less_nat_alt count_in_unat [OF assms(2)] length_unat [OF assms(2)]
      split: if_splits)

lemma check_windows_effect:
  assumes "check_windows config key now wall ws = (r, ws')"
  shows "ws' = AList.update key (prune now (window_of ws key) @ (if rr_allowed r then [now] else [])) ws"
    and "rr_allowed r \<longleftrightarrow> fst (rate_verdict config now (prune now (window_of ws key)))"
    and "rr_retry_after_secs r = snd (rate_verdict config now (prune now (window_of ws key)))"
  using assms by (auto simp: check_windows_def Let_def split: prod.splits)

lemma prune_length: "length ts < 2 ^ 32 \<Longrightarrow> length (prune now ts) < 2 ^ 32"
  by (simp add: prune_def le_less_trans [OF length_filter_le])

lemma windows_ok_commit:
  assumes ok: "windows_ok c ws hist" and now: "now \<le> c"
    and check: "check_windows config key now wall ws = (r, ws')"
  shows "windows_ok c ws' (if rr_allowed r then hist @ [(key, now)] else hist)"
proof -
  let ?ts = "prune now (window_of ws key)"
  note eff = check_windows_effect [OF check]
  have len: "length ?ts < 2 ^ 32" using ok unfolding windows_ok_def by (intro prune_length) blast
  have "unat (max_per_hour config) < 2 ^ LENGTH(32)" by (rule unsigned_less)
  then have "length ?ts + 1 < 2 ^ 32" if "rr_allowed r"
    using that rate_verdict_admits(3) [OF _ len, of config now] eff(2) by (cases "rate_verdict config now ?ts") auto
  then have "length (window_of ws' k) < 2 ^ 32" for k
    using ok len by (auto simp: eff(1) windows_ok_def)
  moreover have "filter (\<lambda>t. c \<le> t + HOUR) ?ts = filter (\<lambda>t. c \<le> t + HOUR) (window_of ws key)"
    using now unfolding prune_eq by (intro filter_weaken) linarith
  ultimately show ?thesis
    using ok by (auto simp: windows_ok_def eff(1) distinct_update)
qed

lemma windows_ok_cleanup:
  assumes "windows_ok c ws hist" "now \<le> c"
  shows "windows_ok c (cleanup_windows now ws) hist"
proof -
  have "filter (\<lambda>t. c \<le> t + HOUR) (prune now ts) = filter (\<lambda>t. c \<le> t + HOUR) ts" for ts
    using assms(2) unfolding prune_eq by (intro filter_weaken) linarith
  then show ?thesis
    using assms(1) prune_length unfolding windows_ok_def by (auto simp: window_of_cleanup distinct_cleanup simp del: power_numeral)
qed

lemma limiter_inv_step:
  assumes "limiter_step delay limits s s'" "limiter_inv delay limits s"
  shows "limiter_inv delay limits s'"
  using assms
proof (induction rule: limiter_step.induct)
  case (tick s c)
  then show ?case
    unfolding limiter_inv_def tasks_ok_def by (auto intro: windows_ok_later dest: le_trans)
next
  case (read_clock config key s)
  then show ?case
    using tasks_ok_remove [of delay limits "sys_clock s" "sys_tasks s" "Started config key"]
    unfolding limiter_inv_def tasks_ok_def by fastforce
next
  case (commit config key now s wall r ws)
  then have "now \<le> sys_clock s" by (force simp: limiter_inv_def tasks_ok_def)
  with commit show ?case
    using windows_ok_commit [of "sys_clock s" _ "sys_log s" now config key wall r ws]
    by (auto simp: limiter_inv_def tasks_ok_remove split: if_splits)
next
  case (finish_cleanup now s)
  then have "now \<le> sys_clock s" by (force simp: limiter_inv_def tasks_ok_def)
  with finish_cleanup show ?case by (auto simp: limiter_inv_def cleanup_def tasks_ok_remove intro: windows_ok_cleanup)
qed (auto simp: limiter_inv_def tasks_ok_def update_config_def)

lemma limiter_reach_inv: "limiter_reach delay limits s \<Longrightarrow> limiter_inv delay limits s"
proof (induction rule: limiter_reach.induct)
  case (init config c)
  then show ?case by (simp add: limiter_inv_def new_limiter_def tasks_ok_def windows_ok_def window_of_def)
qed (rule limiter_inv_step)

section \<open>A limit with its window\<close>

text \<open>
  What the argument needs of a limit: its window is at most an hour, an admitted call found less than
  the limit in it, and it respects the bound on configurations.
\<close>

locale limit_window =
  fixes window :: duration
    and limit :: "rate_limit_config \<Rightarrow> u32"
  assumes admits: "rate_verdict config now (prune now ts) = (True, r) \<Longrightarrow> length ts < 2 ^ 32 \<Longrightarrow>
      length (filter (within_window now window) (prune now ts)) < unat (limit config)"
    and limit_bounded: "bounded_by limits config \<Longrightarrow> limit config \<le> limit limits"
begin

definition respected :: "duration \<Rightarrow> rate_limit_config \<Rightarrow> (string \<times> instant) list \<Rightarrow> bool" where
  "respected len limits hist \<longleftrightarrow>
     (\<forall>key a. length (filter (\<lambda>t. a \<le> t \<and> t \<le> a + len) (log_of hist key)) \<le> unat (limit limits))"

lemma interval_counted:
  assumes ok: "windows_ok c ws hist" and time: "now \<le> c" "c \<le> now + delay" and fits: "len \<le> window" "len + delay \<le> HOUR"
    and inside: "a \<le> now" "now \<le> a + len"
  shows "length (filter (\<lambda>t. a \<le> t \<and> t \<le> a + len) (log_of hist key))
    \<le> length (filter (within_window now window) (prune now (window_of ws key)))"
proof -
  let ?I = "\<lambda>t. a \<le> t \<and> t \<le> a + len" and ?C = "\<lambda>t. c \<le> t + HOUR"
  have "filter ?I (log_of hist key) = filter ?I (filter ?C (log_of hist key))"
    using time fits inside by (intro filter_weaken [symmetric]) linarith
  also have "\<dots> = filter ?I (filter ?C (window_of ws key))" using ok by (simp add: windows_ok_def)
  also have "\<dots> = filter ?I (filter (within_window now window) (prune now (window_of ws key)))"
    unfolding prune_eq filter_filter using time fits inside
    by (intro filter_cong refl) (auto simp: within_window_iff)
  finally show ?thesis by (simp only: length_filter_le)
qed

lemma respected_commit:
  assumes "respected len limits hist" "windows_ok c ws hist" "now \<le> c" "c \<le> now + delay" "len \<le> window" "len + delay \<le> HOUR"
    and "bounded_by limits config" "check_windows config key now wall ws = (r, ws')" "rr_allowed r"
  shows "respected len limits (hist @ [(key, now)])"
proof -
  have "fst (rate_verdict config now (prune now (window_of ws key)))" using check_windows_effect(2) [OF assms(8)] assms(9) by simp
  then obtain r' where "rate_verdict config now (prune now (window_of ws key)) = (True, r')"
    by (cases "rate_verdict config now (prune now (window_of ws key))") auto
  moreover have "length (window_of ws key) < 2 ^ 32" using assms(2) unfolding windows_ok_def by blast
  ultimately have "length (filter (within_window now window) (prune now (window_of ws key))) < unat (limit config)"
    by (rule admits)
  moreover have "unat (limit config) \<le> unat (limit limits)" using limit_bounded [OF assms(7)] by (simp add: word_le_nat_alt)
  ultimately have "length (filter (\<lambda>t. a \<le> t \<and> t \<le> a + len) (log_of hist key)) < unat (limit limits)"
    if "a \<le> now" "now \<le> a + len" for a
    using interval_counted [OF assms(2-6) that, of key] by linarith
  then show ?thesis using assms(1) by (auto simp: respected_def Suc_le_eq)
qed

lemma respected_reach:
  "limiter_reach delay limits s \<Longrightarrow> len \<le> window \<Longrightarrow> len + delay \<le> HOUR \<Longrightarrow> respected len limits (sys_log s)"
proof (induction rule: limiter_reach.induct)
  case (step s s')
  note inv = limiter_reach_inv [OF step(1)]
  from step(2) show ?case
  proof (cases rule: limiter_step.cases)
    case (commit config key now wall r ws)
    then have "now \<le> sys_clock s" "sys_clock s \<le> now + delay" "bounded_by limits config"
      using inv by (force simp: limiter_inv_def tasks_ok_def)+
    then show ?thesis
      using respected_commit [OF step.IH [OF step.prems] _ _ _ step.prems _ commit(3)] inv commit(1) step.IH [OF step.prems]
      by (auto simp: limiter_inv_def)
  qed (use step in auto)
qed (simp add: respected_def)

end

interpretation burst: limit_window BURST burst_limit
  by unfold_locales (erule rate_verdict_admits(1), erule prune_length, simp add: bounded_by_def)

interpretation minute: limit_window MINUTE max_per_minute
  by unfold_locales (erule rate_verdict_admits(2), erule prune_length, simp add: bounded_by_def)

interpretation hour: limit_window HOUR max_per_hour
proof
  fix config now ts r
  assume "rate_verdict config now (prune now ts) = (True, r)" "length ts < 2 ^ 32"
  then have "length (prune now ts) < unat (max_per_hour config)" by (intro rate_verdict_admits(3) prune_length)
  then show "length (filter (within_window now HOUR) (prune now ts)) < unat (max_per_hour config)"
    by (simp add: prune_def)
qed (simp add: bounded_by_def)

text \<open>
  C31. The limits hold whatever the interleaving. Let \<open>delay\<close> be the longest time a call waits between
  reading the clock and taking the lock, and \<open>limits\<close> the largest limits ever configured. Then in every
  reachable state no interval of at most five seconds, at most a minute or at most an hour contains
  more admitted requests of a key than the burst, minute or hour limit, provided the interval and the
  delay together are at most an hour. So the burst and minute limits hold in full unless a call waits
  for the lock for the best part of an hour, and the hour limit holds in every interval shorter than
  an hour by the delay. Calls may take the lock in another order than they read the clock, and
  cleaning may run between them.
\<close>

theorem rate_limits_hold:
  assumes "limiter_reach delay limits s" "len + delay \<le> HOUR"
  shows "(len \<le> BURST \<longrightarrow>
       length (filter (\<lambda>t. a \<le> t \<and> t \<le> a + len) (log_of (sys_log s) key)) \<le> unat (burst_limit limits)) \<and>
    (len \<le> MINUTE \<longrightarrow>
       length (filter (\<lambda>t. a \<le> t \<and> t \<le> a + len) (log_of (sys_log s) key)) \<le> unat (max_per_minute limits)) \<and>
    length (filter (\<lambda>t. a \<le> t \<and> t \<le> a + len) (log_of (sys_log s) key)) \<le> unat (max_per_hour limits)"
  using burst.respected_reach [OF assms(1) _ assms(2)] minute.respected_reach [OF assms(1) _ assms(2)]
    hour.respected_reach [OF assms(1) _ assms(2)] assms(2)
  unfolding burst.respected_def minute.respected_def hour.respected_def by auto

definition demo_limits :: rate_limit_config where
  "demo_limits = \<lparr>max_per_minute = 2, max_per_hour = 3, burst_limit = 1\<rparr>"

definition demo_system :: "limiter_task list \<Rightarrow> windows \<Rightarrow> (string \<times> instant) list \<Rightarrow> limiter_system" where
  "demo_system tasks ws hist =
     \<lparr>sys_limiter = \<lparr>rl_windows = ws, rl_config = demo_limits\<rparr>, sys_clock = 7, sys_tasks = tasks, sys_log = hist\<rparr>"

lemma demo_reach: "limiter_reach 0 demo_limits (demo_system [] [(''a:t'', [7])] [(''a:t'', 7)])"
proof -
  have 0: "limiter_reach 0 demo_limits (demo_system [] [] [])"
    using limiter_reach.init [of demo_limits demo_limits 0 7] by (simp add: demo_system_def new_limiter_def bounded_by_def)
  have 1: "limiter_reach 0 demo_limits (demo_system [Started demo_limits ''a:t''] [] [])"
    using limiter_reach.step [OF 0 limiter_step.call [of 0 demo_limits _ "''a''" "Some ''t''"]]
    by (simp add: demo_system_def make_key_def)
  have 2: "limiter_reach 0 demo_limits (demo_system [Timed demo_limits ''a:t'' 7] [] [])"
    using limiter_reach.step [OF 1 limiter_step.read_clock [of demo_limits "''a:t''"]] by (simp add: demo_system_def)
  have c: "check_windows demo_limits ''a:t'' 7 0 [] =
      (\<lparr>rr_allowed = True, rr_remaining = 1, rr_reset_at = 60, rr_retry_after_secs = None\<rparr>, [(''a:t'', [7])])"
    by (simp add: check_windows_def rate_verdict_def count_in_def prune_def window_of_def demo_limits_def saturating_sub_def word_le_nat_alt)
  have "limiter_step 0 demo_limits (demo_system [Timed demo_limits ''a:t'' 7] [] []) (demo_system [] [(''a:t'', [7])] [(''a:t'', 7)])"
    using limiter_step.commit [where s = "demo_system [Timed demo_limits ''a:t'' 7] [] []" and config = demo_limits
      and key = "''a:t''" and now = 7 and wall = 0 and delay = 0 and limits = demo_limits] c
    by (simp add: demo_system_def)
  with 2 show ?thesis by (rule limiter_reach.step)
qed

theorem rate_limits_hold_witness:
  "length (filter (\<lambda>t. 7 \<le> t \<and> t \<le> 7 + BURST) (log_of [(''a:t'', 7)] ''a:t'')) \<le> unat (burst_limit demo_limits)
     \<and> length (filter (\<lambda>t. 7 \<le> t \<and> t \<le> 7 + HOUR) (log_of [(''a:t'', 7)] ''a:t'')) \<le> unat (max_per_hour demo_limits)"
  using rate_limits_hold [OF demo_reach, of BURST 7 "''a:t''"] rate_limits_hold [OF demo_reach, of HOUR 7 "''a:t''"] window_lengths(3)
  by (simp add: demo_system_def)

section \<open>Retrying\<close>

lemma oldest_in: "ts \<noteq> [] \<Longrightarrow> oldest now ts \<in> set ts"
proof -
  have "fold min ys x \<in> insert x (set ys)" for x :: instant and ys
  proof (induction ys arbitrary: x)
    case (Cons y ys)
    have "fold min ys (min y x) \<in> insert (min y x) (set ys)" by (rule Cons.IH)
    moreover have "min y x = y \<or> min y x = x" by (simp add: min_def)
    ultimately show ?case by auto
  qed simp
  then show "ts \<noteq> [] \<Longrightarrow> ?thesis" by (cases ts) (auto simp: oldest_def)
qed

lemma retry_after_leaves:
  assumes "old \<le> now" "now \<le> old + w" "w \<le> HOUR" "now + secs (unat (retry_after now w old)) \<le> now'"
  shows "\<not> within_window now' w old"
proof -
  let ?wait = "w - (now - old)"
  have "?wait \<le> 3600 * 1000000000" using assms(3) unfolding HOUR_def secs_def by linarith
  then have "?wait div 1000000000 \<le> 3600" using div_le_mono [of ?wait "3600 * 1000000000" 1000000000] by simp
  then have "?wait div 1000000000 < 2 ^ 32 - 1" by simp
  then have "unat (retry_after now w old) = ?wait div 1000000000 + 1"
    using assms(1,2) by (simp add: retry_after_def checked_sub_def unat_add_lem [THEN iffD1] unsigned_of_nat take_bit_nat_eq_self)
  moreover have "?wait < (?wait div 1000000000 + 1) * 1000000000"
    using dividend_less_div_times [of 1000000000 ?wait] by (simp add: algebra_simps)
  ultimately have "now + ?wait < now'" using assms(4) unfolding secs_def by linarith
  then show ?thesis using assms(1,2) by (simp add: within_window_iff)
qed

lemma retry_frees:
  assumes "filter (within_window now w) ts \<noteq> []" "w \<le> HOUR" "\<forall>t \<in> set ts. t \<le> now"
    and "now + secs (unat (retry_after now w (oldest now (filter (within_window now w) ts)))) \<le> now'"
  shows "length (filter (within_window now' w) ts) < length (filter (within_window now w) ts)"
proof -
  let ?xs = "filter (within_window now w) ts"
  have o: "oldest now ?xs \<in> set ?xs" by (rule oldest_in [OF assms(1)])
  then have "oldest now ?xs \<le> now" "now \<le> oldest now ?xs + w" using assms(3) by (auto simp: within_window_iff)
  then have "\<not> within_window now' w (oldest now ?xs)" by (rule retry_after_leaves [OF _ _ assms(2,4)])
  then have "length (filter (within_window now' w) ?xs) < length ?xs" using o by (intro length_filter_less)
  moreover have "filter (within_window now' w) ?xs = filter (within_window now' w) ts"
    using assms(4) by (intro filter_weaken) (auto simp: within_window_iff)
  ultimately show ?thesis by simp
qed

lemma refused_window:
  assumes "rate_verdict config now ts = (False, r)" "length ts < 2 ^ 32" "filter (within_window now HOUR) ts = ts"
  shows "\<exists>(w, lim) \<in> set [(BURST, burst_limit config), (MINUTE, max_per_minute config), (HOUR, max_per_hour config)].
    w \<le> HOUR \<and> unat lim \<le> length (filter (within_window now w) ts) \<and>
    r = Some (retry_after now w (oldest now (filter (within_window now w) ts)))"
  using assms(1) window_lengths
  by (auto simp: rate_verdict_def word_le_nat_alt count_in_unat [OF assms(2)] length_unat [OF assms(2)] assms(3) split: if_splits)

text \<open>A limit of zero, which the configuration endpoint accepts, refuses every call however long it waits.\<close>

lemma zero_limit_refuses:
  "check_windows config key now wall ws = (r, ws') \<Longrightarrow>
     burst_limit config = 0 \<or> max_per_minute config = 0 \<or> max_per_hour config = 0 \<Longrightarrow> \<not> rr_allowed r"
  by (auto dest!: check_windows_effect(2) simp: rate_verdict_def split: if_splits)

text \<open>
  C32. A refusal says when to come back. For a key whose limits are all positive, whose window holds
  no timestamp later than the call's own clock reading and fewer than \<open>2 ^ 32\<close> of them,
  \<open>retry_after_secs\<close> is present, and for the window that refused the call, every instant at least that
  many seconds later sees strictly fewer of the recorded requests than now, so that waiting as told
  makes progress.
\<close>

theorem retry_after_makes_progress:
  assumes check: "check_windows config key now wall ws = (r, ws')" "\<not> rr_allowed r"
    and past: "\<forall>t \<in> set (window_of ws key). t \<le> now" "length (window_of ws key) < 2 ^ 32"
    and limits: "0 < burst_limit config" "0 < max_per_minute config" "0 < max_per_hour config"
  shows "\<exists>(w, lim) \<in> set [(BURST, burst_limit config), (MINUTE, max_per_minute config), (HOUR, max_per_hour config)].
    \<exists>d. rr_retry_after_secs r = Some d \<and> unat lim \<le> length (filter (within_window now w) (window_of ws' key)) \<and>
      (\<forall>now' \<ge> now + secs (unat d).
         length (filter (within_window now' w) (window_of ws' key)) < length (filter (within_window now w) (window_of ws' key)))"
proof -
  let ?ts = "prune now (window_of ws key)"
  note eff = check_windows_effect [OF check(1)]
  have ts: "window_of ws' key = ?ts" using eff(1) check(2) by simp
  have v: "rate_verdict config now ?ts = (False, rr_retry_after_secs r)" using eff(2,3) check(2) by (simp add: prod_eq_iff)
  have "filter (within_window now HOUR) ?ts = ?ts" by (simp add: prune_def)
  then obtain w lim where w: "(w, lim) \<in> set [(BURST, burst_limit config), (MINUTE, max_per_minute config), (HOUR, max_per_hour config)]"
    "w \<le> HOUR" "unat lim \<le> length (filter (within_window now w) ?ts)"
    "rr_retry_after_secs r = Some (retry_after now w (oldest now (filter (within_window now w) ?ts)))"
    using refused_window [OF v prune_length [OF past(2)]] by fast
  have "0 < unat lim" using w(1) limits by (auto simp: word_less_nat_alt)
  then have "filter (within_window now w) ?ts \<noteq> []" using w(3) by auto
  moreover have "\<forall>t \<in> set ?ts. t \<le> now" using past(1) by (simp add: prune_def)
  ultimately have "length (filter (within_window now' w) ?ts) < length (filter (within_window now w) ?ts)"
    if "now + secs (unat (retry_after now w (oldest now (filter (within_window now w) ?ts)))) \<le> now'" for now'
    using retry_frees [OF _ w(2)] that by blast
  then show ?thesis using w(1,3,4) unfolding ts by (intro bexI [OF _ w(1)]) simp
qed

lemma demo_refused:
  "check_windows demo_limits ''a:t'' 8 0 [(''a:t'', [7])] =
     (\<lparr>rr_allowed = False, rr_remaining = 1, rr_reset_at = 60, rr_retry_after_secs = Some 5\<rparr>, [(''a:t'', [7])])"
  by (simp add: check_windows_def rate_verdict_def count_in_def prune_def window_of_def demo_limits_def saturating_sub_def
      word_le_nat_alt within_window_iff BURST_def MINUTE_def HOUR_def secs_def retry_after_def oldest_def checked_sub_def)

theorem retry_after_makes_progress_witness:
  "\<exists>w lim. (w, lim) \<in> set [(BURST, burst_limit demo_limits), (MINUTE, max_per_minute demo_limits), (HOUR, max_per_hour demo_limits)] \<and>
     unat lim \<le> length (filter (within_window 8 w) [7]) \<and>
     length (filter (within_window (8 + secs 5) w) [7]) < length (filter (within_window 8 w) [7])"
proof -
  have 1: "0 < burst_limit demo_limits" "0 < max_per_minute demo_limits" "0 < max_per_hour demo_limits"
    "\<forall>t \<in> set (window_of [(''a:t'', [7])] ''a:t''). t \<le> 8" "length (window_of [(''a:t'', [7])] ''a:t'') < 2 ^ 32"
    by (simp_all add: demo_limits_def window_of_def)
  have 2: "window_of [(''a:t'', [7])] ''a:t'' = [7]" by (simp add: window_of_def)
  obtain w lim and d :: u32 where
    "(w, lim) \<in> set [(BURST, burst_limit demo_limits), (MINUTE, max_per_minute demo_limits), (HOUR, max_per_hour demo_limits)]"
    "Some 5 = Some d" "unat lim \<le> length (filter (within_window 8 w) [7])"
    "\<forall>now' \<ge> 8 + secs (unat d). length (filter (within_window now' w) [7]) < length (filter (within_window 8 w) [7])"
    using retry_after_makes_progress [OF demo_refused _ 1(4,5,1,2,3)]
    by (simp only: rate_limit_result.simps 2) fastforce
  then show ?thesis by (intro exI [of _ w] exI [of _ lim]) simp
qed

section \<open>Cleaning up and reporting\<close>

lemma prune_prune: "now0 \<le> now \<Longrightarrow> prune now (prune now0 ts) = prune now ts"
  unfolding prune_eq by (rule filter_weaken) linarith

lemma count_in_prune: "now0 \<le> now \<Longrightarrow> w \<le> HOUR \<Longrightarrow> count_in now w (prune now0 ts) = count_in now w ts"
proof -
  assume "now0 \<le> now" "w \<le> HOUR"
  then have "filter (within_window now w) (prune now0 ts) = filter (within_window now w) ts"
    unfolding prune_eq by (intro filter_weaken) (auto simp: within_window_iff)
  then show ?thesis by (simp add: count_in_def)
qed

lemma status_counts_cleanup:
  "now0 \<le> now \<Longrightarrow> status_counts now agent (cleanup_windows now0 ws) acc = status_counts now agent ws acc"
proof (induction ws arbitrary: acc)
  case (Cons x ws)
  obtain k ts m h b where x: "x = (k, ts)" "acc = (m, h, b)" by (cases x; cases acc) auto
  have none: "count_in now w ts = 0" if "prune now0 ts = []" "w \<le> HOUR" for w
    using count_in_prune [OF Cons.prems that(2), of ts] that(1) by (simp add: count_in_def)
  show ?case
    using Cons.IH [OF Cons.prems] none window_lengths count_in_prune [OF Cons.prems]
    by (auto simp: x cleanup_windows_def)
qed (simp add: cleanup_windows_def)

text \<open>
  C33. Cleaning up is invisible: whenever it runs, every later rate check gives the answer it would
  have given, and every later status report shows the same numbers.
\<close>

theorem cleanup_changes_no_answer:
  assumes "distinct (map fst (rl_windows rl))" "now0 \<le> now"
  shows "fst (check_rate agent tool now wall (cleanup now0 rl)) = fst (check_rate agent tool now wall rl) \<and>
    status agent' now (cleanup now0 rl) = status agent' now rl"
  using assms
  by (simp add: check_rate_def check_windows_def cleanup_def window_of_cleanup prune_prune status_def
      status_counts_cleanup Let_def split: prod.splits)

theorem cleanup_changes_no_answer_witness:
  "fst (check_rate ''a'' (Some ''t'') 9 0 (cleanup 8 \<lparr>rl_windows = [(''a:t'', [7])], rl_config = demo_limits\<rparr>)) =
   fst (check_rate ''a'' (Some ''t'') 9 0 \<lparr>rl_windows = [(''a:t'', [7])], rl_config = demo_limits\<rparr>)"
  using cleanup_changes_no_answer [of "\<lparr>rl_windows = [(''a:t'', [7])], rl_config = demo_limits\<rparr>" 8 9 "''a''" "Some ''t''" 0 "''a''"]
  by simp

lemma status_counts_acc:
  "m \<le> fst (status_counts now agent ws (m, h, b))" "h \<le> fst (snd (status_counts now agent ws (m, h, b)))"
  "b \<le> snd (snd (status_counts now agent ws (m, h, b)))"
  by (induction now agent ws "(m, h, b)" arbitrary: m h b rule: status_counts.induct)
     (auto intro: order_trans [OF max.cobounded1])

lemma status_counts_entry:
  "(key, ts) \<in> set ws \<Longrightarrow> key_belongs_to key agent \<Longrightarrow>
   count_in now MINUTE ts \<le> fst (status_counts now agent ws acc) \<and>
   count_in now HOUR ts \<le> fst (snd (status_counts now agent ws acc)) \<and>
   count_in now BURST ts \<le> snd (snd (status_counts now agent ws acc))"
proof (induction ws arbitrary: acc)
  case (Cons x ws)
  obtain m h b where acc: "acc = (m, h, b)" by (cases acc) auto
  show ?case
  proof (cases "x = (key, ts)")
    case True
    let ?m = "max m (count_in now MINUTE ts)" and ?h = "max h (count_in now HOUR ts)" and ?b = "max b (count_in now BURST ts)"
    have "status_counts now agent (x # ws) acc = status_counts now agent ws (?m, ?h, ?b)"
      using True Cons.prems(2) by (simp add: acc)
    then show ?thesis
      using status_counts_acc [where ws = ws and now = now and agent = agent and m = ?m and h = ?h and b = ?b] by simp
  next
    case False
    then have "(key, ts) \<in> set ws" using Cons.prems(1) by auto
    then show ?thesis using Cons.IH [OF _ Cons.prems(2)] by (cases x) (simp add: acc)
  qed
qed simp

lemma make_key_belongs: "key_belongs_to (make_key agent tool) agent"
  by (auto simp: key_belongs_to_def make_key_def split: option.splits)

text \<open>
  The status report sees a refusal coming: when a call of an agent is refused, the status of the
  agent at that instant shows at least one counter at or above its limit.
\<close>

theorem status_shows_refusal:
  assumes "\<not> rr_allowed (fst (check_rate agent tool now wall rl))"
  shows "burst_limit (rs_config (status agent now rl)) \<le> rs_requests_last_5_seconds (status agent now rl) \<or>
    max_per_minute (rs_config (status agent now rl)) \<le> rs_requests_last_minute (status agent now rl) \<or>
    max_per_hour (rs_config (status agent now rl)) \<le> rs_requests_last_hour (status agent now rl)"
proof -
  let ?ts = "window_of (rl_windows rl) (make_key agent tool)" and ?c = "rl_config rl"
  have hour: "of_nat (length (prune now ?ts)) = count_in now HOUR ?ts" by (simp add: count_in_def prune_def)
  have over: "burst_limit ?c \<le> count_in now BURST ?ts \<or> max_per_minute ?c \<le> count_in now MINUTE ?ts \<or>
      max_per_hour ?c \<le> count_in now HOUR ?ts"
    using assms window_lengths
    by (auto simp: check_rate_def check_windows_def rate_verdict_def Let_def count_in_prune hour split: prod.splits if_splits)
  show ?thesis
  proof (cases "map_of (rl_windows rl) (make_key agent tool)")
    case None
    then have "?ts = []" by (simp add: window_of_def)
    then show ?thesis using over by (auto simp: count_in_def status_def split: prod.splits)
  next
    case (Some ts)
    then have "?ts = ts" "(make_key agent tool, ts) \<in> set (rl_windows rl)" by (auto simp: window_of_def dest: map_of_SomeD)
    then show ?thesis
      using over status_counts_entry [OF _ make_key_belongs, of agent tool ts "rl_windows rl" now "(0, 0, 0)"]
      by (auto simp: status_def split: prod.splits intro: order_trans)
  qed
qed

theorem status_shows_refusal_witness:
  "burst_limit demo_limits \<le> rs_requests_last_5_seconds (status ''a'' 8 \<lparr>rl_windows = [(''a:t'', [7])], rl_config = demo_limits\<rparr>) \<or>
   max_per_minute demo_limits \<le> rs_requests_last_minute (status ''a'' 8 \<lparr>rl_windows = [(''a:t'', [7])], rl_config = demo_limits\<rparr>) \<or>
   max_per_hour demo_limits \<le> rs_requests_last_hour (status ''a'' 8 \<lparr>rl_windows = [(''a:t'', [7])], rl_config = demo_limits\<rparr>)"
proof -
  let ?rl = "\<lparr>rl_windows = [(''a:t'', [7])], rl_config = demo_limits\<rparr>"
  have "\<not> rr_allowed (fst (check_rate ''a'' (Some ''t'') 8 0 ?rl))"
    using demo_refused by (simp add: check_rate_def make_key_def)
  moreover have "rs_config (status ''a'' 8 ?rl) = demo_limits" by (simp add: status_def split: prod.splits)
  ultimately show ?thesis using status_shows_refusal [of "''a''" "Some ''t''" 8 0 ?rl] by simp
qed

text \<open>A key of the agent \<open>a:b\<close> counts towards the status of the agent \<open>a\<close>, and the two share windows.\<close>

lemma status_counts_other_agent:
  "key_belongs_to (make_key ''a:b'' (Some tool)) ''a''" "make_key ''a:b'' (Some ''c'') = make_key ''a'' (Some ''b:c'')"
  by (simp_all add: key_belongs_to_def make_key_def)

end
