(* ===== verification/Dictum_Overlay.thy ===== *)
theory Dictum_Overlay
  imports Dictum_Parser Governance_Types Receipt_Logger
begin

text \<open>
  The live policy overlay of \<open>crates/iaga-sentinel-core/src/pipeline/dictum_overlay.rs\<close> and its use in
  \<open>execute_pipeline.rs\<close>: loading a Dictum file, refusing paths the host never populates, building
  the context, and merging the verdict with the decision of the risk engine. File access, the
  token automaton, serialization of the program and the printing of doubles are parameters.
\<close>

section \<open>Errors and the context schema\<close>

datatype overlay_error =
    OverlayIo string
  | OverlayCompile string dictum_error
  | OverlayPolicyHash string
  | UnknownContextPath string string

definition CONTEXT_SCHEMA :: "(string \<times> string list option) list" where
  "CONTEXT_SCHEMA =
     [(''agent'', Some [''id'', ''framework'']),
      (''action'', Some [''kind'', ''tool_name'', ''payload'']),
      (''workspace'', Some [''id'', ''allowlist'']),
      (''risk'', Some [''score'', ''decision'']),
      (''ml'', None),
      (''usage'', Some [''session_cost_usd'']),
      (''budget'', Some [''limit''])]"

definition CONDITIONAL_ROOTS :: "string list" where
  "CONDITIONAL_ROOTS = [''ml'', ''usage'', ''budget'']"

text \<open>One path: refused, or the conditional roots referenced so far.\<close>

definition validate_path :: "string \<Rightarrow> string list \<Rightarrow> string list \<Rightarrow> overlay_error + string list" where
  "validate_path path_str used segs =
     (case segs of
        [] \<Rightarrow> Inr used
      | r # rest \<Rightarrow>
          (case map_of CONTEXT_SCHEMA r of
             None \<Rightarrow> Inl (UnknownContextPath path_str (join_with ''.'' segs))
           | Some leaves \<Rightarrow>
               (let used' = (if r \<in> set CONDITIONAL_ROOTS \<and> r \<notin> set used then used @ [r] else used) in
                case (leaves, rest) of
                  (Some allowed, second # deeper) \<Rightarrow>
                    if second \<notin> set allowed then Inl (UnknownContextPath path_str (join_with ''.'' segs))
                    else if \<not> (r = ''action'' \<and> second = ''payload'') \<and> deeper \<noteq> []
                    then Inl (UnknownContextPath path_str (join_with ''.'' segs))
                    else Inr used'
                | _ \<Rightarrow> Inr used')))"

fun validate_paths :: "string \<Rightarrow> string list \<Rightarrow> string list list \<Rightarrow> overlay_error + string list" where
  "validate_paths path_str used [] = Inr used"
| "validate_paths path_str used (segs # rest) =
     rbind (validate_path path_str used segs) (\<lambda>used'. validate_paths path_str used' rest)"

definition validate_context_paths :: "dictum_program \<Rightarrow> string \<Rightarrow> overlay_error + string list" where
  "validate_context_paths prog path_str = validate_paths path_str [] (collect_paths prog)"

section \<open>Loading\<close>

record dictum_overlay =
  ov_program :: dictum_program
  ov_source_path :: string
  ov_policy_hash :: string

text \<open>\<open>program_to_vec\<close> is the derived serialization of a program; it may fail.\<close>

definition compute_policy_hash :: "dictum_lib \<Rightarrow> (dictum_program \<Rightarrow> bytes option) \<Rightarrow> dictum_program \<Rightarrow> string option" where
  "compute_policy_hash l program_to_vec prog = map_option (\<lambda>bs. lib_hex l (lib_sha256 l bs)) (program_to_vec prog)"

definition load_overlay ::
  "dictum_lib \<Rightarrow> (dictum_program \<Rightarrow> bytes option) \<Rightarrow> (string \<Rightarrow> (lexeme \<times> nat \<times> nat) list) \<Rightarrow> (string \<Rightarrow> string option)
   \<Rightarrow> string \<Rightarrow> (overlay_error + dictum_overlay) option" where
  "load_overlay l program_to_vec lexer read_to_string path =
     tbind (Some (of_option (OverlayIo path) (read_to_string path))) (\<lambda>src.
     tbind (map_option (\<lambda>r. case r of Inl e \<Rightarrow> Inl (OverlayCompile path e) | Inr prog \<Rightarrow> Inr prog) (compile lexer src)) (\<lambda>prog.
     tbind (Some (validate_context_paths prog path)) (\<lambda>_.
     tbind (Some (of_option (OverlayPolicyHash path) (compute_policy_hash l program_to_vec prog))) (\<lambda>h.
       Some (Inr \<lparr>ov_program = prog, ov_source_path = path, ov_policy_hash = h\<rparr>)))))"

definition policy_count :: "dictum_overlay \<Rightarrow> nat" where
  "policy_count ov = length (policies (ov_program ov))"

section \<open>Evaluating and merging\<close>

definition overlay_evaluate :: "dictum_lib \<Rightarrow> dictum_overlay \<Rightarrow> json \<Rightarrow> eval_trace" where
  "overlay_evaluate l ov ctx = evaluate_program_traced l (ov_program ov) ctx"

fun verdict_decision :: "dverdict \<Rightarrow> governance_decision" where
  "verdict_decision DAllow = GAllow"
| "verdict_decision DReview = GReview"
| "verdict_decision DBlock = GBlock"

definition stricter :: "governance_decision \<Rightarrow> governance_decision \<Rightarrow> governance_decision" where
  "stricter a b = (if decision_rank b \<le> decision_rank a then a else b)"

definition merge_decisions :: "governance_decision \<Rightarrow> dverdict \<Rightarrow> governance_decision" where
  "merge_decisions yaml dictum = stricter yaml (verdict_decision dictum)"

text \<open>The \<open>Display\<close> form of a value; \<open>show_f64\<close> prints a double.\<close>

definition show_i64 :: "i64 \<Rightarrow> string" where
  "show_i64 n = (if sint n < 0 then ''-'' @ show_nat (nat (- sint n)) else show_nat (nat (sint n)))"

fun show_value :: "(f64 \<Rightarrow> string) \<Rightarrow> dvalue \<Rightarrow> string" where
  "show_value show_f64 VNull = ''null''"
| "show_value show_f64 (VBool b) = (if b then ''true'' else ''false'')"
| "show_value show_f64 (VInt n) = show_i64 n"
| "show_value show_f64 (VFloat x) = show_f64 x"
| "show_value show_f64 (VStr s) = [CHR 0x22] @ s @ [CHR 0x22]"
| "show_value show_f64 (VList xs) = ''['' @ join_with '', '' (map (show_value show_f64) xs) @ '']''"

definition evidence_sha256 :: "dictum_lib \<Rightarrow> (f64 \<Rightarrow> string) \<Rightarrow> dvalue \<Rightarrow> string" where
  "evidence_sha256 l show_f64 v = lib_hex l (lib_sha256 l (as_bytes (show_value show_f64 v)))"

section \<open>The context\<close>

text \<open>\<open>json!\<close> of a double that is not finite is \<open>null\<close>.\<close>

definition ser_f64 :: "f64 \<Rightarrow> json" where
  "ser_f64 x = (case x of Fin _ \<Rightarrow> JNumber (Float x) | _ \<Rightarrow> JNull)"

definition build_overlay_context ::
  "inspect_request \<Rightarrow> u32 \<Rightarrow> governance_decision \<Rightarrow> string option \<Rightarrow> string list \<Rightarrow> json option \<Rightarrow> f64 option \<Rightarrow> f64 option \<Rightarrow> json" where
  "build_overlay_context request score yaml_decision workspace_id allowlist scores session_cost budget_limit =
     (let workspace_json = to_value_object
            [(''id'', JString (case workspace_id of Some w \<Rightarrow> w | None \<Rightarrow> [])),
             (''allowlist'', JArray (map JString allowlist))];
          base =
            [(''agent'', to_value_object [(''id'', JString (ir_agent_id request)), (''framework'', JString (ir_framework request))]),
             (''action'', to_value_object
                [(''kind'', ser_action_type (ad_action_type (ir_action request))),
                 (''tool_name'', JString (ad_tool_name (ir_action request))),
                 (''payload'', to_value_object (ad_payload (ir_action request)))]),
             (''workspace'', workspace_json),
             (''risk'', to_value_object [(''score'', ser_u32 score), (''decision'', ser_decision yaml_decision)])];
          ml = (case scores of Some v \<Rightarrow> [(''ml'', v)] | None \<Rightarrow> []);
          usage = (case session_cost of Some c \<Rightarrow> [(''usage'', JObject [(''session_cost_usd'', ser_f64 c)])] | None \<Rightarrow> []);
          budget = (case budget_limit of Some b \<Rightarrow> [(''budget'', JObject [(''limit'', ser_f64 b)])] | None \<Rightarrow> [])
      in to_value_object (base @ ml @ usage @ budget))"

section \<open>The overlay in the pipeline\<close>

definition fired_cause :: "policy_fired \<Rightarrow> string" where
  "fired_cause f = ''dictum['' @ pf_policy_name f @ '']: '' @ (case pf_reason f of Some r \<Rightarrow> r | None \<Rightarrow> ''fired'')"

text \<open>The decision, the causes pushed, and the trace handed to the receipt logger.\<close>

definition apply_overlay ::
  "dictum_lib \<Rightarrow> (f64 \<Rightarrow> string) \<Rightarrow> dictum_overlay option \<Rightarrow> json \<Rightarrow> governance_decision
   \<Rightarrow> governance_decision \<times> string list \<times> dictum_trace_data option" where
  "apply_overlay l show_f64 overlay ctx decision =
     (case overlay of
        None \<Rightarrow> (decision, [], None)
      | Some ov \<Rightarrow>
          (let trace = overlay_evaluate l ov ctx;
               data = \<lparr>dt_policies_evaluated = et_policies_evaluated trace, dt_policies_fired = et_policies_fired trace,
                 dt_evidence_sha256 = Option.bind (et_fired trace) (\<lambda>f. map_option (evidence_sha256 l show_f64) (pf_evidence f))\<rparr>
           in case et_fired trace of
                Some f \<Rightarrow> (merge_decisions decision (pf_verdict f), [fired_cause f], Some data)
              | None \<Rightarrow> (decision, [], Some data)))"

end
