(* ===== verification/Policy_Eval.thy ===== *)
theory Policy_Eval
  imports Governance_Types
begin

text \<open>
  The workspace policy check of \<open>crates/iaga-sentinel-core/src/modules/policy/evaluate_policy.rs\<close>:
  protocol, tool registration, human review, the decision floor of the tool, agent approval,
  baseline, and the three tiers of the egress allowlist. A finding is one message of the source
  with the values it prints.
\<close>

section \<open>Findings\<close>

datatype policy_finding =
    ProtocolNotAllowed protocol_kind string
  | ToolNotRegistered string
  | ActionTypeNotAllowed string action_type
  | RequiresHumanReview string
  | PinnedToBlock string
  | CappedAtReview string
  | AgentNotApproved string string
  | OutsideBaseline action_type string
  | DestinationOutside string string
  | NoDeclaredDestination string "string list"
  | UndeclaredHost string string bool
  | RequestMatched

record policy_evaluation =
  pe_findings :: "policy_finding list"
  pe_minimum_decision :: governance_decision

section \<open>Hosts\<close>

definition host_of :: "string \<Rightarrow> string" where
  "host_of s =
     (let after_scheme = (case split_scheme s of Some r \<Rightarrow> r | None \<Rightarrow> s);
          authority = takeWhile (\<lambda>ch. ch \<notin> set ''/?#'') after_scheme;
          hostport = (case rsplit_once (CHR ''@'') authority of Some (_, h) \<Rightarrow> h | None \<Rightarrow> authority);
          host = (if prefix ''['' hostport
            then (case split_once (CHR '']'') (drop 1 hostport) of
                Some (h6, _) \<Rightarrow> ''['' @ h6 @ '']''
              | None \<Rightarrow> hostport)
            else (case split_once (CHR '':'') hostport of Some (h, _) \<Rightarrow> h | None \<Rightarrow> hostport))
      in to_ascii_lowercase host)"

definition host_is_allowed :: "string \<Rightarrow> workspace_policy \<Rightarrow> bool" where
  "host_is_allowed host wp = list_ex (\<lambda>d. eq_ignore_ascii_case d host) (wp_allowed_domains wp)"

definition CONTENT_KEYS :: "string list" where
  "CONTENT_KEYS = [''body'', ''content'', ''data'', ''form'', ''input'', ''json'', ''message'', ''messages'',
     ''note'', ''prompt'', ''query'', ''text'']"

definition looks_like_a_host :: "string \<Rightarrow> bool" where
  "looks_like_a_host value =
     (let authority = takeWhile (\<lambda>ch. ch \<notin> set ''/?#'') value;
          candidate = (case rsplit_once (CHR ''@'') authority of Some (_, h) \<Rightarrow> h | None \<Rightarrow> authority);
          bare = (case split_once (CHR '':'') candidate of Some (h, _) \<Rightarrow> h | None \<Rightarrow> candidate) in
      if bare = [] \<or> length (split_whitespace value) \<noteq> 1 then False
      else eq_ignore_ascii_case bare ''localhost''
        \<or> prefix ''['' candidate
        \<or> (CHR ''.'' \<in> set bare \<and> \<not> prefix ''.'' bare \<and> \<not> suffix ''.'' bare
            \<and> list_all (\<lambda>ch. is_ascii_alphanumeric ch \<or> ch = CHR ''.'' \<or> ch = CHR ''-'') bare))"

section \<open>Destinations in a payload\<close>

definition first_present_key :: "fields \<Rightarrow> string list \<Rightarrow> string option" where
  "first_present_key payload keys =
     (case List.map_filter (str_field payload) keys of s # _ \<Rightarrow> Some s | [] \<Rightarrow> None)"

definition present_keys :: "fields \<Rightarrow> string list \<Rightarrow> string list" where
  "present_keys payload keys = List.map_filter (str_field payload) keys"

definition extract_destination :: "fields \<Rightarrow> string option" where
  "extract_destination payload = first_present_key payload [''destination'', ''url'', ''endpoint'', ''href'']"

text \<open>
  The text behind the last white space or quote before the scheme: \<open>cur\<close> is what has been read
  since the last such character.
\<close>

function rewind :: "string \<Rightarrow> string \<Rightarrow> string" where
  "rewind cur [] = cur"
| "rewind cur (x # xs) =
     (case white_space_at (x # xs) of
        Some w \<Rightarrow> rewind [] (drop (length w - 1) xs)
      | None \<Rightarrow> if x = CHR 0x22 \<or> x = CHR 0x27 then rewind [] xs else rewind (cur @ [x]) xs)"
  by pat_completeness auto
termination by (relation "measure (\<lambda>(cur, s). length s)") auto

text \<open>The host the sweep reads under one key, if it reads one.\<close>

definition swept_host :: "string \<Rightarrow> string \<Rightarrow> string option" where
  "swept_host key value =
     (case str_find ''://'' value of
        None \<Rightarrow>
          if list_ex (\<lambda>k. eq_ignore_ascii_case k key) DEFAULT_EGRESS_DESTINATION_FIELDS \<and> looks_like_a_host value
          then Some (host_of value) else None
      | Some i \<Rightarrow> Some (host_of (first_word (rewind [] (take i value) @ drop i value))))"

definition skipped_key :: "string list \<Rightarrow> string \<Rightarrow> bool" where
  "skipped_key declared key \<longleftrightarrow> to_ascii_lowercase key \<in> set CONTENT_KEYS
     \<or> list_ex (\<lambda>d. eq_ignore_ascii_case d key) declared"

fun scan_keys :: "fields \<Rightarrow> string list \<Rightarrow> (string \<Rightarrow> bool) \<Rightarrow> string list \<Rightarrow> (string \<times> string) option" where
  "scan_keys payload declared is_allowed [] = None"
| "scan_keys payload declared is_allowed (key # keys) =
     (if skipped_key declared key then scan_keys payload declared is_allowed keys
      else case str_field payload key of
          None \<Rightarrow> scan_keys payload declared is_allowed keys
        | Some value \<Rightarrow>
            (case swept_host key value of
               Some host \<Rightarrow>
                 if host \<noteq> [] \<and> \<not> is_allowed host then Some (key, host)
                 else scan_keys payload declared is_allowed keys
             | None \<Rightarrow> scan_keys payload declared is_allowed keys))"

definition scan_undeclared_hosts :: "fields \<Rightarrow> string list \<Rightarrow> (string \<Rightarrow> bool) \<Rightarrow> (string \<times> string) option" where
  "scan_undeclared_hosts payload declared is_allowed =
     scan_keys payload declared is_allowed (sort (map fst payload))"

section \<open>The checks in order\<close>

text \<open>The mutable \<open>findings\<close> and \<open>minimum_decision\<close> are one pair, updated by each check in turn.\<close>

type_synonym policy_acc = "policy_finding list \<times> governance_decision"

definition check_protocol :: "workspace_policy \<Rightarrow> protocol_kind \<Rightarrow> policy_acc \<Rightarrow> policy_acc" where
  "check_protocol wp protocol = (\<lambda>(fs, d).
     if protocol \<notin> set (wp_allowed_protocols wp)
     then (fs @ [ProtocolNotAllowed protocol (wp_workspace_id wp)], GBlock) else (fs, d))"

definition check_tool_type :: "inspect_request \<Rightarrow> tool_policy \<Rightarrow> policy_acc \<Rightarrow> policy_acc" where
  "check_tool_type input tp = (\<lambda>(fs, d).
     if ad_action_type (ir_action input) \<notin> set (tp_allowed_action_types tp)
     then (fs @ [ActionTypeNotAllowed (ad_tool_name (ir_action input)) (ad_action_type (ir_action input))], GBlock)
     else (fs, d))"

definition check_tool_review :: "inspect_request \<Rightarrow> tool_policy \<Rightarrow> policy_acc \<Rightarrow> policy_acc" where
  "check_tool_review input tp = (\<lambda>(fs, d).
     if tp_requires_human_review tp \<and> d \<noteq> GBlock
     then (fs @ [RequiresHumanReview (ad_tool_name (ir_action input))], GReview) else (fs, d))"

definition check_tool_floor :: "inspect_request \<Rightarrow> tool_policy \<Rightarrow> policy_acc \<Rightarrow> policy_acc" where
  "check_tool_floor input tp = (\<lambda>(fs, d).
     if d < tp_max_decision tp
     then (fs @ [if tp_max_decision tp = GBlock then PinnedToBlock (ad_tool_name (ir_action input))
                 else CappedAtReview (ad_tool_name (ir_action input))], tp_max_decision tp)
     else (fs, d))"

definition check_tool :: "inspect_request \<Rightarrow> tool_policy option \<Rightarrow> policy_acc \<Rightarrow> policy_acc" where
  "check_tool input tool = (\<lambda>(fs, d).
     (case tool of
        None \<Rightarrow> (fs @ [ToolNotRegistered (ad_tool_name (ir_action input))], GBlock)
      | Some tp \<Rightarrow> check_tool_floor input tp (check_tool_review input tp (check_tool_type input tp (fs, d)))))"

definition check_approved :: "inspect_request \<Rightarrow> agent_profile \<Rightarrow> policy_acc \<Rightarrow> policy_acc" where
  "check_approved input profile = (\<lambda>(fs, d).
     if ad_tool_name (ir_action input) \<notin> set (ap_approved_tools profile)
     then (fs @ [AgentNotApproved (ap_agent_id profile) (ad_tool_name (ir_action input))], GBlock) else (fs, d))"

definition check_baseline :: "inspect_request \<Rightarrow> agent_profile \<Rightarrow> policy_acc \<Rightarrow> policy_acc" where
  "check_baseline input profile = (\<lambda>(fs, d).
     if ad_action_type (ir_action input) \<notin> set (ap_baseline_action_types profile)
     then (fs @ [OutsideBaseline (ad_action_type (ir_action input)) (ap_agent_id profile)],
           if d = GAllow then GReview else d)
     else (fs, d))"

definition declared_fields :: "tool_policy option \<Rightarrow> string list" where
  "declared_fields tool = (case tool of Some tp \<Rightarrow> tp_destination_fields tp | None \<Rightarrow> [])"

definition destinations_of :: "fields \<Rightarrow> string list \<Rightarrow> string list" where
  "destinations_of payload declared =
     (if declared = [] then (case extract_destination payload of Some s \<Rightarrow> [s] | None \<Rightarrow> [])
      else present_keys payload declared)"

definition check_destinations :: "workspace_policy \<Rightarrow> string list \<Rightarrow> policy_acc \<Rightarrow> policy_acc" where
  "check_destinations wp destinations = (\<lambda>(fs, d).
     (let offending = filter (\<lambda>(_, host). \<not> host_is_allowed host wp) (map (\<lambda>x. (x, host_of x)) destinations) in
      (fs @ map (\<lambda>(x, host). DestinationOutside x host) offending,
       if offending \<noteq> [] then GBlock else d)))"

definition check_declared :: "inspect_request \<Rightarrow> string list \<Rightarrow> string list \<Rightarrow> policy_acc \<Rightarrow> policy_acc" where
  "check_declared input declared destinations = (\<lambda>(fs, d).
     if destinations = [] \<and> declared \<noteq> []
     then (fs @ [NoDeclaredDestination (ad_tool_name (ir_action input)) declared], GBlock) else (fs, d))"

definition check_sweep :: "inspect_request \<Rightarrow> workspace_policy \<Rightarrow> string list \<Rightarrow> policy_acc \<Rightarrow> policy_acc" where
  "check_sweep input wp declared = (\<lambda>(fs, d).
     if ad_action_type (ir_action input) = Http then
       (case scan_undeclared_hosts (ad_payload (ir_action input)) declared (\<lambda>h. host_is_allowed h wp) of
          Some (field, host) \<Rightarrow>
            (let escalating = (d = GAllow) in
             (fs @ [UndeclaredHost field host escalating], if escalating then GReview else d))
        | None \<Rightarrow> (fs, d))
     else (fs, d))"

definition evaluate_policy ::
  "inspect_request \<Rightarrow> agent_profile \<Rightarrow> workspace_policy \<Rightarrow> protocol_kind \<Rightarrow> policy_evaluation" where
  "evaluate_policy input profile wp protocol =
     (let tool = find (\<lambda>t. tp_tool_name t = ad_tool_name (ir_action input)) (wp_tools wp);
          declared = declared_fields tool;
          destinations = destinations_of (ad_payload (ir_action input)) declared;
          acc = check_protocol wp protocol ([], GAllow);
          acc = check_tool input tool acc;
          acc = check_approved input profile acc;
          acc = check_baseline input profile acc;
          acc = check_destinations wp destinations acc;
          acc = check_declared input declared destinations acc;
          acc = check_sweep input wp declared acc;
          (fs, d) = acc
      in \<lparr>pe_findings = (if fs = [] then [RequestMatched] else fs), pe_minimum_decision = d\<rparr>)"

end
