(* ===== verification/Policy_Properties.thy ===== *)
theory Policy_Properties
  imports Policy_Eval Dictum_Eval
begin

text \<open>
  What the workspace policy check guarantees. Every check of the source is a \<open>policy_rule\<close>: it
  raises the decision to its own demand, keeps the findings of the checks before it, and leaves a
  finding whenever the decision is more than \<open>Allow\<close>. Rules compose, so the decision of the whole
  evaluation is the strictest demand, and an allowed request satisfies each of them.
\<close>

section \<open>Decisions\<close>

lemma max_decision [simp]:
  "max GAllow d = d" "max d GAllow = d" "max GBlock d = GBlock" "max d GBlock = GBlock"
  by (cases d; simp add: max_def less_eq_governance_decision_def)+

lemma max_GAllow_iff [simp]: "max a b = GAllow \<longleftrightarrow> a = GAllow \<and> b = (GAllow :: governance_decision)"
  by (cases a; cases b) (auto simp: max_def less_eq_governance_decision_def)

lemma max_GBlock_iff [simp]: "max a b = GBlock \<longleftrightarrow> a = GBlock \<or> b = (GBlock :: governance_decision)"
  by (cases a; cases b) (auto simp: max_def less_eq_governance_decision_def)

lemma foldr_max_GAllow [simp]: "foldr max ds GAllow = GAllow \<longleftrightarrow> (\<forall>d \<in> set ds. d = GAllow)"
  by (induction ds) auto

lemma foldr_max_GBlock [simp]: "foldr max ds GAllow = GBlock \<longleftrightarrow> GBlock \<in> set ds"
  by (induction ds) auto

definition needs :: "bool \<Rightarrow> governance_decision \<Rightarrow> governance_decision" where
  "needs c d = (if c then d else GAllow)"

lemma needs_GAllow [simp]: "needs c d = GAllow \<longleftrightarrow> \<not> c \<or> d = GAllow"
  by (simp add: needs_def)

lemma needs_GBlock [simp]:
  "needs c d = GBlock \<longleftrightarrow> c \<and> d = GBlock" "GBlock = needs c d \<longleftrightarrow> c \<and> d = GBlock"
  by (auto simp: needs_def)

section \<open>The contract of one check\<close>

text \<open>
  A finding is present exactly when the decision is not \<open>Allow\<close>, and none of them is the one that
  reports a match.
\<close>

definition explained :: "policy_acc \<Rightarrow> bool" where
  "explained acc \<longleftrightarrow> (fst acc = [] \<longleftrightarrow> snd acc = GAllow) \<and> RequestMatched \<notin> set (fst acc)"

locale policy_rule =
  fixes chk :: "policy_acc \<Rightarrow> policy_acc"
    and demand :: governance_decision
  assumes decides: "snd (chk acc) = max (snd acc) demand"
    and explains: "explained acc \<Longrightarrow> explained (chk acc)"
    and extends: "prefix (fst acc) (fst (chk acc))"
begin

lemma never_softer: "snd acc \<le> snd (chk acc)"
  by (simp add: decides)

lemma meets_demand: "demand \<le> snd (chk acc)"
  by (simp add: decides)

lemma allow_iff: "snd (chk acc) = GAllow \<longleftrightarrow> snd acc = GAllow \<and> demand = GAllow"
  by (simp add: decides)

lemma keeps_findings: "set (fst acc) \<subseteq> set (fst (chk acc))"
  using extends set_mono_prefix by blast

end

lemma policy_rule_comp:
  assumes "policy_rule f a" "policy_rule g b"
  shows "policy_rule (\<lambda>acc. g (f acc)) (max a b)"
proof
  fix acc
  show "snd (g (f acc)) = max (snd acc) (max a b)"
    using policy_rule.decides [OF assms(1), of acc] policy_rule.decides [OF assms(2), of "f acc"]
    by (simp add: max.assoc)
  show "explained acc \<Longrightarrow> explained (g (f acc))"
    by (intro policy_rule.explains [OF assms(2)] policy_rule.explains [OF assms(1)])
  show "prefix (fst acc) (fst (g (f acc)))"
    using policy_rule.extends [OF assms(1), of acc] policy_rule.extends [OF assms(2), of "f acc"]
    by (rule prefix_order.trans)
qed

lemma policy_rule_id: "policy_rule (\<lambda>acc. acc) GAllow"
  by standard auto

section \<open>The checks keep the contract\<close>

lemma decision_less [simp]:
  "(d < GAllow) = False" "(GBlock < d) = False" "GAllow < d \<longleftrightarrow> d \<noteq> GAllow" "d < GBlock \<longleftrightarrow> d \<noteq> GBlock"
  by (cases d; simp add: less_governance_decision_def)+

interpretation protocol_rule: policy_rule
  "check_protocol wp protocol" "needs (protocol \<notin> set (wp_allowed_protocols wp)) GBlock" for wp protocol
  by unfold_locales (auto simp: check_protocol_def needs_def explained_def split: prod.splits)

interpretation tool_type_rule: policy_rule
  "check_tool_type input tp"
  "needs (ad_action_type (ir_action input) \<notin> set (tp_allowed_action_types tp)) GBlock" for input tp
  by unfold_locales (auto simp: check_tool_type_def needs_def explained_def split: prod.splits)

lemma max_GReview: "max d GReview = (if d = GBlock then GBlock else GReview)"
  by (cases d) (auto simp: max_def less_eq_governance_decision_def)

interpretation tool_review_rule: policy_rule
  "check_tool_review input tp" "needs (tp_requires_human_review tp) GReview" for input tp
  by unfold_locales (auto simp: check_tool_review_def needs_def explained_def max_GReview split: prod.splits)

interpretation tool_floor_rule: policy_rule "check_tool_floor input tp" "tp_max_decision tp" for input tp
  by unfold_locales
     (auto simp: check_tool_floor_def explained_def max_def not_le split: prod.splits)

definition tool_demand :: "inspect_request \<Rightarrow> tool_policy option \<Rightarrow> governance_decision" where
  "tool_demand input tool =
     (case tool of
        None \<Rightarrow> GBlock
      | Some tp \<Rightarrow> max (max (needs (ad_action_type (ir_action input) \<notin> set (tp_allowed_action_types tp)) GBlock)
                        (needs (tp_requires_human_review tp) GReview)) (tp_max_decision tp))"

interpretation tool_rule: policy_rule "check_tool input tool" "tool_demand input tool" for input tool
proof (cases tool)
  case None
  show "policy_rule (check_tool input tool) (tool_demand input tool)"
    unfolding None by unfold_locales (auto simp: check_tool_def tool_demand_def explained_def)
next
  case (Some tp)
  have "check_tool input tool = (\<lambda>acc. check_tool_floor input tp (check_tool_review input tp (check_tool_type input tp acc)))"
    by (simp add: check_tool_def Some fun_eq_iff)
  then show "policy_rule (check_tool input tool) (tool_demand input tool)"
    using policy_rule_comp [OF policy_rule_comp [OF tool_type_rule.policy_rule_axioms tool_review_rule.policy_rule_axioms]
      tool_floor_rule.policy_rule_axioms, of input tp input tp input tp]
    by (simp add: tool_demand_def Some)
qed

interpretation approved_rule: policy_rule
  "check_approved input profile"
  "needs (ad_tool_name (ir_action input) \<notin> set (ap_approved_tools profile)) GBlock" for input profile
  by unfold_locales (auto simp: check_approved_def needs_def explained_def split: prod.splits)

interpretation baseline_rule: policy_rule
  "check_baseline input profile"
  "needs (ad_action_type (ir_action input) \<notin> set (ap_baseline_action_types profile)) GReview" for input profile
proof
  fix acc
  show "snd (check_baseline input profile acc) = max (snd acc)
      (needs (ad_action_type (ir_action input) \<notin> set (ap_baseline_action_types profile)) GReview)"
    by (cases "snd acc"; cases acc) (auto simp: check_baseline_def needs_def max_GReview)
qed (auto simp: check_baseline_def explained_def split: prod.splits)

interpretation destination_rule: policy_rule
  "check_destinations wp destinations"
  "needs (list_ex (\<lambda>x. \<not> host_is_allowed (host_of x) wp) destinations) GBlock" for wp destinations
  by unfold_locales
     (auto simp: check_destinations_def needs_def explained_def Let_def filter_empty_conv list_ex_iff split: prod.splits)

interpretation declared_rule: policy_rule
  "check_declared input declared destinations" "needs (destinations = [] \<and> declared \<noteq> []) GBlock"
  for input declared destinations
  by unfold_locales (auto simp: check_declared_def needs_def explained_def split: prod.splits)

definition sweep_hits :: "inspect_request \<Rightarrow> workspace_policy \<Rightarrow> string list \<Rightarrow> bool" where
  "sweep_hits input wp declared \<longleftrightarrow> ad_action_type (ir_action input) = Http
     \<and> scan_undeclared_hosts (ad_payload (ir_action input)) declared (\<lambda>h. host_is_allowed h wp) \<noteq> None"

interpretation sweep_rule: policy_rule
  "check_sweep input wp declared" "needs (sweep_hits input wp declared) GReview" for input wp declared
proof
  fix acc
  show "snd (check_sweep input wp declared acc) = max (snd acc) (needs (sweep_hits input wp declared) GReview)"
    by (cases "snd acc"; cases acc)
       (auto simp: check_sweep_def sweep_hits_def needs_def max_GReview Let_def split: option.splits)
qed (auto simp: check_sweep_def explained_def Let_def split: prod.splits option.splits if_splits)

section \<open>The whole evaluation\<close>

definition tool_of :: "inspect_request \<Rightarrow> workspace_policy \<Rightarrow> tool_policy option" where
  "tool_of input wp = find (\<lambda>t. tp_tool_name t = ad_tool_name (ir_action input)) (wp_tools wp)"

definition request_destinations :: "inspect_request \<Rightarrow> workspace_policy \<Rightarrow> string list" where
  "request_destinations input wp =
     destinations_of (ad_payload (ir_action input)) (declared_fields (tool_of input wp))"

text \<open>One demand per rule of the policy, in no particular order.\<close>

definition policy_demands ::
  "inspect_request \<Rightarrow> agent_profile \<Rightarrow> workspace_policy \<Rightarrow> protocol_kind \<Rightarrow> governance_decision list" where
  "policy_demands input profile wp protocol =
     [needs (protocol \<notin> set (wp_allowed_protocols wp)) GBlock,
      tool_demand input (tool_of input wp),
      needs (ad_tool_name (ir_action input) \<notin> set (ap_approved_tools profile)) GBlock,
      needs (ad_action_type (ir_action input) \<notin> set (ap_baseline_action_types profile)) GReview,
      needs (list_ex (\<lambda>x. \<not> host_is_allowed (host_of x) wp) (request_destinations input wp)) GBlock,
      needs (request_destinations input wp = [] \<and> declared_fields (tool_of input wp) \<noteq> []) GBlock,
      needs (sweep_hits input wp (declared_fields (tool_of input wp))) GReview]"

definition run_checks ::
  "inspect_request \<Rightarrow> agent_profile \<Rightarrow> workspace_policy \<Rightarrow> protocol_kind \<Rightarrow> policy_acc \<Rightarrow> policy_acc" where
  "run_checks input profile wp protocol acc =
     check_sweep input wp (declared_fields (tool_of input wp))
      (check_declared input (declared_fields (tool_of input wp)) (request_destinations input wp)
       (check_destinations wp (request_destinations input wp)
        (check_baseline input profile
         (check_approved input profile
          (check_tool input (tool_of input wp) (check_protocol wp protocol acc))))))"

lemma evaluate_policy_run:
  "pe_minimum_decision (evaluate_policy input profile wp protocol) = snd (run_checks input profile wp protocol ([], GAllow))"
  "pe_findings (evaluate_policy input profile wp protocol) =
     (case fst (run_checks input profile wp protocol ([], GAllow)) of [] \<Rightarrow> [RequestMatched] | fs \<Rightarrow> fs)"
  by (simp_all add: evaluate_policy_def run_checks_def tool_of_def request_destinations_def Let_def
      split: prod.splits list.splits)

lemma run_checks_rule:
  "policy_rule (run_checks input profile wp protocol) (foldr max (policy_demands input profile wp protocol) GAllow)"
proof -
  have "policy_rule (\<lambda>acc. run_checks input profile wp protocol acc)
     (max (max (max (max (max (max
        (needs (protocol \<notin> set (wp_allowed_protocols wp)) GBlock)
        (tool_demand input (tool_of input wp)))
        (needs (ad_tool_name (ir_action input) \<notin> set (ap_approved_tools profile)) GBlock))
        (needs (ad_action_type (ir_action input) \<notin> set (ap_baseline_action_types profile)) GReview))
        (needs (list_ex (\<lambda>x. \<not> host_is_allowed (host_of x) wp) (request_destinations input wp)) GBlock))
        (needs (request_destinations input wp = [] \<and> declared_fields (tool_of input wp) \<noteq> []) GBlock))
        (needs (sweep_hits input wp (declared_fields (tool_of input wp))) GReview))"
    unfolding run_checks_def
    by (rule policy_rule_comp [OF policy_rule_comp [OF policy_rule_comp [OF policy_rule_comp [OF policy_rule_comp [OF
      policy_rule_comp [OF protocol_rule.policy_rule_axioms tool_rule.policy_rule_axioms]
      approved_rule.policy_rule_axioms] baseline_rule.policy_rule_axioms] destination_rule.policy_rule_axioms]
      declared_rule.policy_rule_axioms] sweep_rule.policy_rule_axioms])
  then show ?thesis by (simp only: policy_demands_def foldr_Cons foldr_Nil o_apply id_apply max.assoc max_decision)
qed

interpretation evaluation: policy_rule
  "run_checks input profile wp protocol" "foldr max (policy_demands input profile wp protocol) GAllow"
  for input profile wp protocol
  by (rule run_checks_rule)

lemma policy_decision:
  "pe_minimum_decision (evaluate_policy input profile wp protocol) = foldr max (policy_demands input profile wp protocol) GAllow"
  by (simp add: evaluate_policy_run evaluation.decides)

lemma policy_matched_iff:
  "pe_findings (evaluate_policy input profile wp protocol) = [RequestMatched] \<longleftrightarrow>
   pe_minimum_decision (evaluate_policy input profile wp protocol) = GAllow"
  using evaluation.explains [of "([], GAllow)" input profile wp protocol]
  by (auto simp: evaluate_policy_run explained_def split: list.splits)

lemma policy_allow:
  assumes "pe_minimum_decision (evaluate_policy input profile wp protocol) = GAllow"
  shows "\<not> sweep_hits input wp (declared_fields (tool_of input wp))"
    and "\<forall>x \<in> set (request_destinations input wp). host_is_allowed (host_of x) wp"
  using assms unfolding policy_decision foldr_max_GAllow
  by (simp_all add: policy_demands_def list_ex_iff)

lemma policy_not_block:
  assumes "pe_minimum_decision (evaluate_policy input profile wp protocol) \<noteq> GBlock"
  shows "\<forall>x \<in> set (request_destinations input wp). host_is_allowed (host_of x) wp"
    and "declared_fields (tool_of input wp) = [] \<or> request_destinations input wp \<noteq> []"
  using assms unfolding policy_decision foldr_max_GBlock
  by (auto simp: policy_demands_def list_ex_iff)

text \<open>
  C27. Order does not matter and nothing softens: the decision of the evaluation is the strictest
  of the demands of the individual rules (protocol, tool registration, action type, human review,
  the floor of the tool, agent approval, baseline, allowlist, missing declared destination,
  undeclared host), although the code computes it by successive assignments that read the
  decision so far. The report says that the request matched exactly when the decision is \<open>Allow\<close>.
\<close>

theorem decision_is_strictest_demand:
  "pe_minimum_decision (evaluate_policy input profile wp protocol) =
     foldr max (policy_demands input profile wp protocol) GAllow \<and>
   (pe_findings (evaluate_policy input profile wp protocol) = [RequestMatched] \<longleftrightarrow>
    pe_minimum_decision (evaluate_policy input profile wp protocol) = GAllow)"
  using policy_decision policy_matched_iff by blast

section \<open>Declared destinations\<close>

text \<open>
  C28. A tool that declares its destination fields is fail-closed: unless the request is blocked,
  the payload carries at least one declared field as a string, and every declared field it
  carries as a string names an allowed host. A decoy under one declared name cannot shield another
  string; a declared field that is not a string is not read (\<open>non_string_field_is_unread\<close>).
\<close>

theorem declared_destinations_enforced:
  assumes "find (\<lambda>t. tp_tool_name t = ad_tool_name (ir_action input)) (wp_tools wp) = Some tp"
    and "tp_destination_fields tp \<noteq> []"
    and "pe_minimum_decision (evaluate_policy input profile wp protocol) \<noteq> GBlock"
  shows "(\<exists>k \<in> set (tp_destination_fields tp). \<exists>s. map_of (ad_payload (ir_action input)) k = Some (JString s)) \<and>
    (\<forall>k \<in> set (tp_destination_fields tp). \<forall>s. map_of (ad_payload (ir_action input)) k = Some (JString s) \<longrightarrow>
       list_ex (\<lambda>d. eq_ignore_ascii_case d (host_of s)) (wp_allowed_domains wp))"
proof -
  have declared: "declared_fields (tool_of input wp) = tp_destination_fields tp"
    using assms(1) by (simp add: declared_fields_def tool_of_def)
  then have ds: "request_destinations input wp =
      List.map_filter (str_field (ad_payload (ir_action input))) (tp_destination_fields tp)"
    using assms(2) by (simp add: request_destinations_def destinations_of_def present_keys_def)
  have mem: "s \<in> set (request_destinations input wp) \<longleftrightarrow>
      (\<exists>k \<in> set (tp_destination_fields tp). map_of (ad_payload (ir_action input)) k = Some (JString s))" for s
    by (force simp: ds List.map_filter_def str_field_Some [symmetric])
  show ?thesis
  proof (intro conjI ballI allI impI)
    have "request_destinations input wp \<noteq> []" using policy_not_block(2) [OF assms(3)] declared assms(2) by simp
    then obtain s where "s \<in> set (request_destinations input wp)" by (cases "request_destinations input wp") auto
    then show "\<exists>k \<in> set (tp_destination_fields tp). \<exists>s. map_of (ad_payload (ir_action input)) k = Some (JString s)"
      using mem by blast
  next
    fix k s assume "k \<in> set (tp_destination_fields tp)" "map_of (ad_payload (ir_action input)) k = Some (JString s)"
    then have "s \<in> set (request_destinations input wp)" using mem by blast
    then show "list_ex (\<lambda>d. eq_ignore_ascii_case d (host_of s)) (wp_allowed_domains wp)"
      using policy_not_block(1) [OF assms(3)] by (simp add: host_is_allowed_def)
  qed
qed

definition demo_request :: "string \<Rightarrow> fields \<Rightarrow> inspect_request" where
  "demo_request tool payload =
     \<lparr>ir_agent_id = ''a'', ir_tenant_id = None, ir_workspace_id = None, ir_framework = ''f'', ir_protocol = None,
      ir_action = \<lparr>ad_action_type = Http, ad_tool_name = tool, ad_payload = payload\<rparr>,
      ir_requested_secrets = None, ir_metadata = None, ir_usage = None\<rparr>"

definition demo_profile :: agent_profile where
  "demo_profile = \<lparr>ap_agent_id = ''a'', ap_tenant_id = None, ap_workspace_id = ''w'', ap_framework = ''f'', ap_role = Builder,
     ap_approved_tools = [''http.fetch''], ap_approved_secrets = [], ap_baseline_action_types = [Http], ap_tool_trust = Fin 0\<rparr>"

definition demo_tool :: tool_policy where
  "demo_tool = \<lparr>tp_tool_name = ''http.fetch'', tp_allowed_action_types = [Http], tp_max_decision = GAllow,
     tp_requires_human_review = False, tp_destination_fields = [''url'']\<rparr>"

definition demo_workspace :: workspace_policy where
  "demo_workspace = \<lparr>wp_workspace_id = ''w'', wp_tenant_id = None, wp_allowed_protocols = [Mcp], wp_tools = [demo_tool],
     wp_allowed_domains = [''api.github.com''], wp_threshold_block = 70, wp_threshold_review = 35\<rparr>"

text \<open>A destination inside an array passes beside a harmless one: both fields are declared, only the string is read.\<close>

lemma non_string_field_is_unread:
  "pe_minimum_decision (evaluate_policy
     (demo_request ''http.fetch'' [(''url'', JString ''https://api.github.com/x''), (''target'', JArray [JString ''https://evil.example/''])])
     demo_profile (demo_workspace\<lparr>wp_tools := [demo_tool\<lparr>tp_destination_fields := [''url'', ''target'']\<rparr>]\<rparr>) Mcp) = GAllow"
  by code_simp

theorem declared_destinations_enforced_witness:
  "list_ex (\<lambda>d. eq_ignore_ascii_case d (host_of ''https://API.github.com/x'')) (wp_allowed_domains demo_workspace)"
proof -
  let ?r = "demo_request ''http.fetch'' [(''url'', JString ''https://API.github.com/x'')]"
  have 1: "find (\<lambda>t. tp_tool_name t = ad_tool_name (ir_action ?r)) (wp_tools demo_workspace) = Some demo_tool"
    "tp_destination_fields demo_tool = [''url'']"
    by code_simp+
  have 2: "pe_minimum_decision (evaluate_policy ?r demo_profile demo_workspace Mcp) \<noteq> GBlock" by code_simp
  have 3: "map_of (ad_payload (ir_action ?r)) ''url'' = Some (JString ''https://API.github.com/x'')" by code_simp
  show ?thesis using declared_destinations_enforced [OF 1(1) _ 2] 1(2) 3 by auto
qed

section \<open>The sweep\<close>

lemma scan_keys_None:
  "scan_keys payload declared ok keys = None \<longleftrightarrow>
   (\<forall>key \<in> set keys. skipped_key declared key \<or>
      (\<forall>v host. str_field payload key = Some v \<longrightarrow> swept_host key v = Some host \<longrightarrow> host = [] \<or> ok host))"
  by (induction keys) (auto split: option.splits)

lemma host_of_extract_host: "host_of s = extract_host s"
proof -
  have "(if prefix ''['' hp then (case split_once (CHR '']'') (drop 1 hp) of Some (h6, _) \<Rightarrow> ''['' @ h6 @ '']'' | None \<Rightarrow> hp)
      else (case split_once (CHR '':'') hp of Some (h, _) \<Rightarrow> h | None \<Rightarrow> hp)) =
    (case hp of ch # rest \<Rightarrow>
        if ch = CHR ''['' then (case split_once (CHR '']'') rest of Some (h6, _) \<Rightarrow> ''['' @ h6 @ '']'' | None \<Rightarrow> hp)
        else (case split_once (CHR '':'') hp of Some (h, _) \<Rightarrow> h | None \<Rightarrow> hp)
      | [] \<Rightarrow> hp)" for hp
    by (cases hp) (auto simp: split_once_def split: option.splits)
  then show ?thesis unfolding host_of_def extract_host_def Let_def by presburger
qed

lemma rewind_plain:
  "\<forall>ch \<in> set s. visible ch \<and> ch \<noteq> CHR 0x22 \<and> ch \<noteq> CHR 0x27 \<Longrightarrow> rewind cur s = cur @ s"
  by (induction s arbitrary: cur) (auto simp: white_space_at_visible)

text \<open>Text in front of a URL: printable ASCII and blanks without a colon, set off by a blank or a quote.\<close>

definition text_before :: "string \<Rightarrow> bool" where
  "text_before lead \<longleftrightarrow> (\<forall>ch \<in> set lead. (visible ch \<or> ch = CHR '' '') \<and> ch \<noteq> CHR '':'') \<and>
     (lead = [] \<or> last lead \<in> {CHR '' '', CHR 0x22, CHR 0x27})"

lemma find_only:
  assumes "\<forall>x \<in> set xs. P x \<longrightarrow> x = y" "y \<in> set xs" "P y"
  shows "find P xs = Some y"
proof (cases "find P xs")
  case (Some z)
  then have "P z" "z \<in> set xs" by (auto simp: find_Some_iff)
  with assms(1) Some show ?thesis by blast
qed (use assms(2,3) in \<open>simp add: find_None_iff\<close>)

lemma blank_invisible: "\<not> visible (CHR '' '')"
  by (simp add: visible_def)

lemma white_space_at_blank: "white_space_at (CHR '' '' # xs) = Some '' ''"
proof -
  have "list_all (\<lambda>w. w = '' '' \<or> w \<noteq> [] \<and> hd w \<noteq> CHR '' '') white_spaces" by code_simp
  then have "\<forall>w \<in> set white_spaces. prefix w (CHR '' '' # xs) \<longrightarrow> w = '' ''"
    by (auto simp: list_all_iff prefix_Cons)
  moreover have "'' '' \<in> set white_spaces" by code_simp
  moreover have "prefix '' '' (CHR '' '' # xs)" by (simp add: prefix_Cons)
  ultimately show ?thesis unfolding white_space_at_def by (rule find_only)
qed

lemma rewind_text_before:
  assumes "text_before lead" "\<forall>ch \<in> set s. visible ch \<and> ch \<noteq> CHR 0x22 \<and> ch \<noteq> CHR 0x27"
  shows "rewind cur (lead @ s) = (if lead = [] then cur else []) @ s"
  using assms(1)
proof (induction lead arbitrary: cur)
  case Nil
  show ?case using rewind_plain [OF assms(2)] by simp
next
  case (Cons x lead)
  then have "text_before lead" by (auto simp: text_before_def split: if_splits)
  moreover have "visible x \<or> x = CHR '' ''" "lead = [] \<Longrightarrow> x \<in> {CHR '' '', CHR 0x22, CHR 0x27}"
    using Cons.prems by (auto simp: text_before_def)
  ultimately show ?case using Cons.IH by (auto simp: white_space_at_blank white_space_at_visible blank_invisible)
qed

lemma split_words_lead:
  "\<forall>ch \<in> set p. visible ch \<Longrightarrow> \<exists>r' ws. prefix r' r \<and> (cur @ p @ r' = [] \<or> split_words cur (p @ r) = (cur @ p @ r') # ws)"
proof (induction p arbitrary: cur)
  case Nil
  show ?case
  proof (induction r arbitrary: cur)
    case (Cons x r)
    show ?case
    proof (cases "white_space_at (x # r)")
      case None
      with Cons.IH [of "cur @ [x]"] obtain r' ws where "prefix r' r" "split_words cur (x # r) = (cur @ [x] @ r') # ws" by auto
      then show ?thesis by (intro exI [of _ "x # r'"] exI [of _ ws]) simp
    qed (auto intro: exI [of _ "[]"])
  qed auto
next
  case (Cons x p)
  then obtain r' ws where "prefix r' r" "split_words (cur @ [x]) (p @ r) = ((cur @ [x]) @ p @ r') # ws"
    using Cons.IH [of "cur @ [x]"] by auto
  then show ?case using Cons.prems by (auto simp: white_space_at_visible)
qed

lemma first_word_lead:
  assumes "\<forall>ch \<in> set p. visible ch" "p \<noteq> []"
  obtains r' where "prefix r' r" "first_word (p @ r) = p @ r'"
  using split_words_lead [OF assms(1), of r "[]"] assms(2) that by (auto simp: first_word_def split_whitespace_def)

text \<open>A URL with a host, and optionally user information, a port and whatever follows a slash, question mark or hash.\<close>

definition url_parts :: "string \<Rightarrow> string \<Rightarrow> string \<Rightarrow> string \<Rightarrow> string \<Rightarrow> bool" where
  "url_parts scheme userinfo host port rest \<longleftrightarrow>
     (\<forall>ch \<in> set (scheme @ userinfo @ host @ port). visible ch) \<and> set scheme \<inter> {CHR '':'', CHR 0x22, CHR 0x27} = {} \<and>
     (userinfo = [] \<or> last userinfo = CHR ''@'' \<and> set (butlast userinfo) \<inter> set ''/?#'' = {}) \<and>
     set host \<inter> set ''/?#@:'' = {} \<and> host \<noteq> [] \<and> hd host \<noteq> CHR ''['' \<and>
     (port = [] \<or> hd port = CHR '':'' \<and> set (tl port) \<inter> set ''/?#@'' = {}) \<and>
     (rest = [] \<or> hd rest \<in> set ''/?#'')"

lemma url_parts_host:
  assumes "url_parts scheme userinfo host port rest" "CHR '':'' \<notin> set lead"
  shows "host_of (lead @ scheme @ ''://'' @ userinfo @ host @ port @ rest) = to_ascii_lowercase host"
  unfolding host_of_extract_host append_assoc [of lead, symmetric]
proof (rule extract_host_url)
  note parts = assms(1) [unfolded url_parts_def]
  show "CHR '':'' \<notin> set (lead @ scheme)" using parts assms(2) by auto
  show "set host \<inter> set ''/?#@:'' = {}" "host \<noteq> []" "hd host \<noteq> CHR ''[''"
    "rest = [] \<or> hd rest \<in> set ''/?#''"
    by (simp_all only: parts not_False_eq_True)
  show "userinfo = [] \<or> (\<exists>u. userinfo = u @ ''@'' \<and> set u \<inter> set ''/?#'' = {})"
  proof (cases userinfo rule: rev_cases)
    case (snoc u x)
    with parts have "x = CHR ''@''" "set u \<inter> set ''/?#'' = {}" by auto
    with snoc show ?thesis by blast
  qed simp
  show "port = [] \<or> (\<exists>p. port = CHR '':'' # p \<and> set p \<inter> set ''/?#@'' = {})"
    using parts by (cases port) auto
qed

lemma url_parts_cut: "url_parts scheme userinfo host port rest \<Longrightarrow> prefix rest' rest \<Longrightarrow> url_parts scheme userinfo host port rest'"
  by (auto simp: url_parts_def prefix_def hd_append split: if_splits)

lemma swept_host_url:
  assumes "url_parts scheme userinfo host port rest" "text_before lead"
  shows "swept_host key (lead @ scheme @ ''://'' @ userinfo @ host @ port @ rest) = Some (to_ascii_lowercase host)"
proof -
  let ?front = "scheme @ ''://'' @ userinfo @ host @ port"
  have f: "str_find ''://'' ((lead @ scheme) @ ''://'' @ userinfo @ host @ port @ rest) = Some (length (lead @ scheme))"
    using assms by (intro str_find_scheme) (auto simp: url_parts_def text_before_def)
  have r: "rewind [] (lead @ scheme) = scheme"
    using assms rewind_text_before [of lead scheme "[]"] by (auto simp: url_parts_def)
  have "\<forall>ch \<in> set ?front. visible ch" using assms(1) by (auto simp: url_parts_def visible_def)
  then obtain rest' where w: "prefix rest' rest" "first_word (?front @ rest) = ?front @ rest'" by (rule first_word_lead) auto
  from url_parts_host [OF url_parts_cut [OF assms(1) w(1)], of "[]"] f r w(2) show ?thesis by (simp add: swept_host_def)
qed

text \<open>Only the first URL of a string is read: a second one passes.\<close>

lemma second_url_is_unread:
  "pe_minimum_decision (evaluate_policy
     (demo_request ''http.fetch'' [(''url'', JString ''https://api.github.com/x''), (''mirrors'', JString ''https://api.github.com/ https://evil.example/'')])
     demo_profile demo_workspace Mcp) = GAllow"
  by code_simp

text \<open>
  C29. Allowed means allowlisted, for the first URL of each top-level string: when an HTTP action is
  allowed and a top-level string of its payload consists of text without a colon (printable ASCII and
  blanks, ending in a blank or a quote; possibly empty) followed by a URL, then the host of that URL
  is on the allowlist of the workspace: whatever the name of the field, with or without user
  information and port, and whatever follows the host after a slash, question mark or hash. The
  fields excepted are those the code names as content, and those that differ from a declared field by
  ASCII case only; the URLs after the first are not read (\<open>second_url_is_unread\<close>).
\<close>

theorem allowed_urls_on_allowlist:
  assumes "pe_minimum_decision (evaluate_policy input profile wp protocol) = GAllow"
    and "ad_action_type (ir_action input) = Http"
    and "map_of (ad_payload (ir_action input)) key = Some (JString (lead @ scheme @ ''://'' @ userinfo @ host @ port @ rest))"
    and "text_before lead" "url_parts scheme userinfo host port rest"
    and "key \<in> set (declared_fields (tool_of input wp)) \<or>
      \<not> list_ex (\<lambda>d. eq_ignore_ascii_case d key) (declared_fields (tool_of input wp)) \<and> to_ascii_lowercase key \<notin> set CONTENT_KEYS"
  shows "list_ex (\<lambda>d. eq_ignore_ascii_case d host) (wp_allowed_domains wp)"
proof -
  let ?url = "lead @ scheme @ ''://'' @ userinfo @ host @ port @ rest" and ?declared = "declared_fields (tool_of input wp)"
  have val: "str_field (ad_payload (ir_action input)) key = Some ?url" using assms(3) by (simp add: str_field_Some)
  have "host_is_allowed (to_ascii_lowercase host) wp"
  proof (cases "key \<in> set ?declared")
    case True
    then have "?url \<in> set (request_destinations input wp)"
      using val by (force simp: request_destinations_def destinations_of_def present_keys_def List.map_filter_def)
    then show ?thesis using policy_allow(2) [OF assms(1)] url_parts_host [OF assms(5), of lead] assms(4) by (fastforce simp: text_before_def)
  next
    case False
    then have "\<not> skipped_key ?declared key" using assms(6) by (simp add: skipped_key_def)
    moreover have "key \<in> set (map fst (ad_payload (ir_action input)))"
      using map_of_SomeD [OF assms(3)] by force
    ultimately show ?thesis
      using policy_allow(1) [OF assms(1)] assms(2,5) val swept_host_url [OF assms(5,4), of key]
      by (auto simp: sweep_hits_def scan_undeclared_hosts_def scan_keys_None url_parts_def)
  qed
  then show ?thesis by (simp add: host_is_allowed_def eq_ignore_ascii_case_def)
qed

theorem allowed_urls_on_allowlist_witness:
  "list_ex (\<lambda>d. eq_ignore_ascii_case d ''API.github.com'') (wp_allowed_domains demo_workspace)"
proof -
  let ?r = "demo_request ''http.fetch'' [(''url'', JString ''https://API.github.com/x''), (''callback'', JString ''see https://u@API.github.com:443/y z'')]"
  have 1: "pe_minimum_decision (evaluate_policy ?r demo_profile demo_workspace Mcp) = GAllow" by code_simp
  have 2: "ad_action_type (ir_action ?r) = Http" by code_simp
  have 3: "map_of (ad_payload (ir_action ?r)) ''callback'' = Some (JString (''see '' @ ''https'' @ ''://'' @ ''u@'' @ ''API.github.com'' @ '':443'' @ ''/y z''))"
    by code_simp
  have 4: "url_parts ''https'' ''u@'' ''API.github.com'' '':443'' ''/y z''" by code_simp
  have 6: "text_before ''see ''" by code_simp
  have 5: "\<not> list_ex (\<lambda>d. eq_ignore_ascii_case d ''callback'') (declared_fields (tool_of ?r demo_workspace)) \<and>
      to_ascii_lowercase ''callback'' \<notin> set CONTENT_KEYS"
    by code_simp
  show ?thesis by (rule allowed_urls_on_allowlist [OF 1 2 3 6 4 disjI2 [OF 5]])
qed

section \<open>Fields that differ by case\<close>

lemma scan_keys_skip:
  "skipped_key declared k \<Longrightarrow> scan_keys payload declared ok (insort k keys) = scan_keys payload declared ok keys"
  by (induction keys) (auto split: option.splits)

lemma scan_keys_payload:
  "(\<And>k. k \<in> set keys \<Longrightarrow> \<not> skipped_key declared k \<Longrightarrow> str_field payload k = str_field payload' k) \<Longrightarrow>
   scan_keys payload declared ok keys = scan_keys payload' declared ok keys"
  by (induction keys) (auto split: option.splits)

lemma str_field_other: "k \<noteq> k' \<Longrightarrow> str_field ((k', v) # payload) k = str_field payload k"
  by (simp add: str_field_def)

lemma scan_skipped_field:
  assumes "skipped_key declared key"
  shows "scan_undeclared_hosts ((key, v) # payload) declared ok = scan_undeclared_hosts payload declared ok"
proof -
  have "scan_keys ((key, v) # payload) declared ok (sort (map fst payload)) = scan_keys payload declared ok (sort (map fst payload))"
  proof (rule scan_keys_payload)
    fix k assume "\<not> skipped_key declared k"
    then have "k \<noteq> key" using assms by auto
    then show "str_field ((key, v) # payload) k = str_field payload k" by (rule str_field_other)
  qed
  then show ?thesis using assms by (simp add: scan_undeclared_hosts_def scan_keys_skip)
qed

text \<open>
  C30. A field whose name differs from a declared destination field by ASCII case only is read by
  no tier: whatever value it carries, the evaluation of the request is the same as without it.
  The declared fields are read by exact name, while the sweep skips names that match a declared
  one up to case.
\<close>

theorem case_variant_field_is_unread:
  assumes "tool_of input wp = Some tp" "d \<in> set (tp_destination_fields tp)"
    and "eq_ignore_ascii_case d key" "key \<notin> set (tp_destination_fields tp)"
  shows "evaluate_policy (input\<lparr>ir_action := (ir_action input)\<lparr>ad_payload := (key, v) # ad_payload (ir_action input)\<rparr>\<rparr>)
      profile wp protocol = evaluate_policy input profile wp protocol"
proof -
  let ?p = "ad_payload (ir_action input)" and ?ds = "tp_destination_fields tp"
  have tool: "find (\<lambda>t. tp_tool_name t = ad_tool_name (ir_action input)) (wp_tools wp) = Some tp"
    using assms(1) by (simp add: tool_of_def)
  have "List.map_filter (str_field ((key, v) # ?p)) ks = List.map_filter (str_field ?p) ks" if "key \<notin> set ks" for ks
    using that by (induction ks) (auto simp: str_field_other split: option.splits)
  then have dests: "destinations_of ((key, v) # ?p) ?ds = destinations_of ?p ?ds"
    using assms(2,4) by (auto simp: destinations_of_def present_keys_def)
  have "skipped_key ?ds key" using assms(2,3) by (auto simp: skipped_key_def list_ex_iff)
  then have scan: "scan_undeclared_hosts ((key, v) # ?p) ?ds ok = scan_undeclared_hosts ?p ?ds ok" for ok
    by (rule scan_skipped_field)
  define input' where "input' = input\<lparr>ir_action := (ir_action input)\<lparr>ad_payload := (key, v) # ?p\<rparr>\<rparr>"
  have act: "ad_tool_name (ir_action input') = ad_tool_name (ir_action input)"
    "ad_action_type (ir_action input') = ad_action_type (ir_action input)" "ad_payload (ir_action input') = (key, v) # ?p"
    by (simp_all add: input'_def)
  have same: "check_tool input' = check_tool input" "check_approved input' = check_approved input"
    "check_baseline input' = check_baseline input" "check_declared input' = check_declared input"
    unfolding check_tool_def check_tool_type_def check_tool_review_def check_tool_floor_def check_approved_def
      check_baseline_def check_declared_def act
    by (rule refl)+
  have "check_sweep input' wp ?ds = check_sweep input wp ?ds" unfolding check_sweep_def act scan by (rule refl)
  then have "evaluate_policy input' profile wp protocol = evaluate_policy input profile wp protocol"
    unfolding evaluate_policy_def act tool by (simp add: same declared_fields_def dests Let_def)
  then show ?thesis by (simp add: input'_def)
qed

theorem case_variant_field_is_unread_witness:
  "evaluate_policy (demo_request ''http.fetch'' [(''URL'', JString ''https://evil.example/''), (''url'', JString ''https://api.github.com/'')])
     demo_profile demo_workspace Mcp = \<lparr>pe_findings = [RequestMatched], pe_minimum_decision = GAllow\<rparr>"
proof -
  let ?r = "demo_request ''http.fetch'' [(''url'', JString ''https://api.github.com/'')]"
  have "tool_of ?r demo_workspace = Some demo_tool" "''url'' \<in> set (tp_destination_fields demo_tool)"
    "eq_ignore_ascii_case ''url'' ''URL''" "''URL'' \<notin> set (tp_destination_fields demo_tool)"
    by code_simp+
  note same = case_variant_field_is_unread [OF this, of "JString ''https://evil.example/''" demo_profile Mcp]
  have "evaluate_policy ?r demo_profile demo_workspace Mcp = \<lparr>pe_findings = [RequestMatched], pe_minimum_decision = GAllow\<rparr>"
    by code_simp
  with same show ?thesis by (simp add: demo_request_def)
qed

end
