(* ===== verification/Overlay_Properties.thy ===== *)
theory Overlay_Properties
  imports Dictum_Overlay Dictum_Cost Policy_Properties
begin

text \<open>
  What the live overlay guarantees: it can only tighten a decision, loading always returns, and the
  paths it accepts at start-up are exactly those a request can populate.
\<close>

section \<open>Merging\<close>

lemma stricter_max: "stricter a b = max a b"
  by (simp add: stricter_def max_def less_eq_governance_decision_def)

text \<open>The verdict of the first policy that fires, an evaluation error counting as firing for a restricting policy.\<close>

definition overlay_demand :: "dictum_lib \<Rightarrow> json \<Rightarrow> dictum_overlay option \<Rightarrow> governance_decision" where
  "overlay_demand l ctx overlay =
     (case overlay of
        None \<Rightarrow> GAllow
      | Some ov \<Rightarrow> (case find (guard_fires l ctx) (policies (ov_program ov)) of
            None \<Rightarrow> GAllow
          | Some p \<Rightarrow> verdict_decision (act_verdict (pol_action p))))"

lemma traced_fired:
  "map_option pf_verdict (et_fired (evaluate_program_traced l prog ctx)) =
   map_option (\<lambda>p. act_verdict (pol_action p)) (find (guard_fires l ctx) (policies prog))"
proof (cases "find (guard_fires l ctx) (policies prog)")
  case (Some p)
  then obtain pre post where p: "guard_fires l ctx p" and eq: "evaluate_program_traced l prog ctx =
      trace_policies l ctx (of_nat (length pre)) (\<exists>q \<in> set pre. guard_errs l ctx q) (p # post)"
    by (rule traced_split)
  obtain f where "et_fired (evaluate_program_traced l prog ctx) = Some f" "pf_verdict f = act_verdict (pol_action p)"
    unfolding eq using trace_policies_fires [OF p] by blast
  then show ?thesis by (simp add: Some)
qed (simp add: traced_none)

lemma apply_overlay_merges:
  "fst (apply_overlay l show_f64 overlay ctx decision) = max decision (overlay_demand l ctx overlay) \<and>
   (fst (snd (apply_overlay l show_f64 overlay ctx decision)) \<noteq> [] \<longleftrightarrow>
    (\<exists>ov p. overlay = Some ov \<and> find (guard_fires l ctx) (policies (ov_program ov)) = Some p))"
proof (cases overlay)
  case (Some ov)
  note fired = traced_fired [of l "ov_program ov" ctx]
  show ?thesis
  proof (cases "find (guard_fires l ctx) (policies (ov_program ov))")
    case None
    with fired have "et_fired (evaluate_program_traced l (ov_program ov) ctx) = None" by simp
    with None Some show ?thesis by (simp add: apply_overlay_def overlay_evaluate_def overlay_demand_def Let_def)
  next
    case p: (Some p)
    with fired obtain f where "et_fired (evaluate_program_traced l (ov_program ov) ctx) = Some f"
      "pf_verdict f = act_verdict (pol_action p)" by auto
    with p Some show ?thesis
      by (simp add: apply_overlay_def overlay_evaluate_def overlay_demand_def merge_decisions_def stricter_max Let_def)
  qed
qed (simp add: apply_overlay_def overlay_demand_def)

text \<open>
  C35. The overlay can only tighten: with or without an overlay, the merged decision is the stricter of
  the decision so far and the verdict of the first policy that fires (a review or block policy
  whose condition fails to evaluate fires as well). In particular the decision never softens, and
  a cause is reported exactly when a policy fired.
\<close>

theorem overlay_only_tightens:
  "fst (apply_overlay l show_f64 overlay ctx decision) = max decision (overlay_demand l ctx overlay) \<and>
   decision \<le> fst (apply_overlay l show_f64 overlay ctx decision) \<and>
   (fst (snd (apply_overlay l show_f64 overlay ctx decision)) \<noteq> [] \<longleftrightarrow>
    (\<exists>ov p. overlay = Some ov \<and> find (guard_fires l ctx) (policies (ov_program ov)) = Some p))"
  using apply_overlay_merges [of l show_f64 overlay ctx decision] by simp

lemma load_overlay_returns: "\<exists>r. load_overlay l program_to_vec lexer read path = Some r"
proof -
  have "\<exists>r. parse lexer src = Some r" for src
    using parse_tokens_returns by (cases "tokenize lexer src") (auto simp: parse_def)
  then have "\<exists>r. compile lexer src = Some r" for src
    by (simp add: compile_def tbind_def) (metis (mono_tags, lifting) old.sum.exhaust option.simps(5) sum.case)
  then show ?thesis
    by (auto simp: load_overlay_def tbind_def split: option.splits sum.splits) (metis option.distinct(1))
qed

section \<open>Context paths\<close>

fun path_present :: "json \<Rightarrow> string list \<Rightarrow> bool" where
  "path_present cur [] = True"
| "path_present cur (s # segs) =
     (case cur of JObject m \<Rightarrow> (case map_of m s of Some nxt \<Rightarrow> path_present nxt segs | None \<Rightarrow> False) | _ \<Rightarrow> False)"

lemma map_of_sort_key: "map_of (sort_key fst fs) k = map_of fs (k :: string)"
proof -
  have only: "map_of xs k = map_of (filter (\<lambda>x. fst x = k) xs) k" for xs :: "(string \<times> 'a) list"
    by (induction xs) auto
  have "map_of (sort_key fst fs) k = map_of (filter (\<lambda>x. fst x = k) (sort_key fst fs)) k" by (rule only)
  also have "\<dots> = map_of (filter (\<lambda>x. fst x = k) fs) k" by (simp only: sort_key_stable)
  finally show ?thesis by (simp only: only [symmetric])
qed

declare path_present.simps(2) [simp del]

lemma path_present_steps [simp]:
  "path_present (JObject m) (s # segs) = (case map_of m s of Some nxt \<Rightarrow> path_present nxt segs | None \<Rightarrow> False)"
  "path_present (JString x) (s # segs) = False" "path_present (JArray xs) (s # segs) = False"
  "path_present (JNumber n) (s # segs) = False" "path_present JNull (s # segs) = False"
  by (simp_all add: path_present.simps(2))

lemma path_present_object [simp]:
  "path_present (to_value_object fs) (s # segs) = (case map_of fs s of Some nxt \<Rightarrow> path_present nxt segs | None \<Rightarrow> False)"
  by (simp add: to_value_object_def map_of_sort_key path_present.simps(2))

text \<open>The paths one validation step lets through.\<close>

definition path_ok :: "string list \<Rightarrow> bool" where
  "path_ok segs =
     (case segs of
        [] \<Rightarrow> True
      | r # rest \<Rightarrow>
          (case map_of CONTEXT_SCHEMA r of
             None \<Rightarrow> False
           | Some None \<Rightarrow> True
           | Some (Some allowed) \<Rightarrow>
               (case rest of [] \<Rightarrow> True
                | second # deeper \<Rightarrow> second \<in> set allowed \<and> (r = ''action'' \<and> second = ''payload'' \<or> deeper = []))))"

lemma validate_path_ok: "is_ok (validate_path file used segs) = path_ok segs"
  by (auto simp: validate_path_def path_ok_def Let_def split: list.splits option.splits)

lemma validate_paths_ok: "is_ok (validate_paths file used paths) = list_all path_ok paths"
proof (induction paths arbitrary: used)
  case (Cons segs rest)
  show ?case
    using Cons.IH validate_path_ok [of "file" "used" segs] by (cases "validate_path file used segs") auto
qed simp

fun nested :: "string list \<Rightarrow> json" where
  "nested [] = JNull"
| "nested (s # segs) = JObject [(s, nested segs)]"

lemma nested_present [simp]: "path_present (nested segs) segs"
  by (induction segs) auto

lemmas context_simps = build_overlay_context_def Let_def ser_f64_def

text \<open>A context with every optional root, a given payload and given scores.\<close>

definition rich_context :: "fields \<Rightarrow> json \<Rightarrow> json" where
  "rich_context payload scores = build_overlay_context (demo_request ''t'' payload) 0 GAllow None [] (Some scores) (Some (Fin 0)) (Some (Fin 0))"

lemma map_of_schema:
  "map_of CONTEXT_SCHEMA r = Some leaves \<longleftrightarrow>
     r = ''agent'' \<and> leaves = Some [''id'', ''framework''] \<or>
     r = ''action'' \<and> leaves = Some [''kind'', ''tool_name'', ''payload''] \<or>
     r = ''workspace'' \<and> leaves = Some [''id'', ''allowlist''] \<or>
     r = ''risk'' \<and> leaves = Some [''score'', ''decision''] \<or>
     r = ''ml'' \<and> leaves = None \<or>
     r = ''usage'' \<and> leaves = Some [''session_cost_usd''] \<or>
     r = ''budget'' \<and> leaves = Some [''limit'']"
proof -
  have "distinct (map fst CONTEXT_SCHEMA)" by (simp add: CONTEXT_SCHEMA_def)
  then have "map_of CONTEXT_SCHEMA r = Some leaves \<longleftrightarrow> (r, leaves) \<in> set CONTEXT_SCHEMA" by (rule map_of_eq_Some_iff)
  then show ?thesis by (simp only: CONTEXT_SCHEMA_def list.set insert_iff empty_iff prod.inject simp_thms)
qed

lemma path_ok_present:
  assumes "path_ok segs"
  shows "\<exists>payload scores. path_present (rich_context payload scores) segs"
proof (cases segs)
  case (Cons r rest)
  have ml: "path_present (rich_context [] (nested rest)) (''ml'' # rest)"
    by (simp add: rich_context_def context_simps)
  have payload: "path_present (rich_context (case deeper of [] \<Rightarrow> [] | s # ss \<Rightarrow> [(s, nested ss)]) JNull) (''action'' # ''payload'' # deeper)" for deeper
    by (cases deeper) (simp_all add: rich_context_def context_simps demo_request_def)
  have known: "path_present (rich_context [] JNull) [r]" if "map_of CONTEXT_SCHEMA r = Some leaves" for leaves
    using that unfolding map_of_schema by (elim disjE conjE) (simp_all add: rich_context_def context_simps)
  have leaf: "path_present (rich_context [] JNull) [r, second]"
    if "map_of CONTEXT_SCHEMA r = Some (Some allowed)" "second \<in> set allowed" for second allowed
    using that unfolding map_of_schema
    by (elim disjE conjE) (simp_all add: rich_context_def context_simps split: if_splits, blast+)
  obtain leaves where leaves: "map_of CONTEXT_SCHEMA r = Some leaves"
    using assms Cons by (cases "map_of CONTEXT_SCHEMA r") (simp_all add: path_ok_def)
  show ?thesis
  proof (cases rest)
    case Nil
    then show ?thesis using known [OF leaves] Cons by blast
  next
    case rest: (Cons second deeper)
    show ?thesis
    proof (cases leaves)
      case None
      with leaves have "r = ''ml''" unfolding map_of_schema by (elim disjE conjE) simp_all
      then show ?thesis using ml Cons by blast
    next
      case (Some allowed)
      with assms Cons rest leaves have "second \<in> set allowed" "r = ''action'' \<and> second = ''payload'' \<or> deeper = []"
        by (simp_all add: path_ok_def)
      then show ?thesis using leaf leaves Some payload Cons rest by blast
    qed
  qed
qed simp

lemma scalar_steps [simp]:
  "path_present (ser_action_type a) (s # segs) = False" "path_present (ser_decision d) (s # segs) = False"
  "path_present (ser_u32 w) (s # segs) = False" "path_present (ser_f64 x) (s # segs) = False"
proof -
  show "path_present (ser_action_type a) (s # segs) = False" by (cases a) simp_all
  show "path_present (ser_decision d) (s # segs) = False" by (cases d) simp_all
qed (simp_all add: ser_u32_def ser_f64_def split: f64.splits)

lemma path_ok_leaf:
  assumes "map_of CONTEXT_SCHEMA r = Some (Some (map fst fs))"
    and "\<And>s v. (s, v) \<in> set fs \<Longrightarrow> r = ''action'' \<and> s = ''payload'' \<or> (\<forall>x xs. \<not> path_present v (x # xs))"
    and "path_present (to_value_object fs) rest"
  shows "path_ok (r # rest)"
proof (cases rest)
  case (Cons second deeper)
  with assms(3) obtain v where v: "map_of fs second = Some v" "path_present v deeper" by (auto split: option.splits)
  then have mem: "(second, v) \<in> set fs" by (auto dest: map_of_SomeD)
  moreover have "r = ''action'' \<and> second = ''payload'' \<or> deeper = []"
    using assms(2) [OF mem] v(2) by (cases deeper) auto
  moreover have "second \<in> set (map fst fs)" using mem by force
  ultimately show ?thesis using assms(1) Cons by (simp add: path_ok_def)
qed (use assms(1) in \<open>simp add: path_ok_def\<close>)

text \<open>The fields of a context, root by root.\<close>

definition context_roots ::
  "inspect_request \<Rightarrow> u32 \<Rightarrow> governance_decision \<Rightarrow> string option \<Rightarrow> string list \<Rightarrow> json option \<Rightarrow> f64 option \<Rightarrow> f64 option \<Rightarrow> (string \<times> json) list" where
  "context_roots request score decision workspace allowlist scores cost limit =
      [(''agent'', to_value_object [(''id'', JString (ir_agent_id request)), (''framework'', JString (ir_framework request))]),
       (''action'', to_value_object
          [(''kind'', ser_action_type (ad_action_type (ir_action request))),
           (''tool_name'', JString (ad_tool_name (ir_action request))),
           (''payload'', to_value_object (ad_payload (ir_action request)))]),
       (''workspace'', to_value_object
          [(''id'', JString (case workspace of Some w \<Rightarrow> w | None \<Rightarrow> [])), (''allowlist'', JArray (map JString allowlist))]),
       (''risk'', to_value_object [(''score'', ser_u32 score), (''decision'', ser_decision decision)])]
      @ (case scores of Some v \<Rightarrow> [(''ml'', v)] | None \<Rightarrow> [])
      @ (case cost of Some c \<Rightarrow> [(''usage'', to_value_object [(''session_cost_usd'', ser_f64 c)])] | None \<Rightarrow> [])
      @ (case limit of Some b \<Rightarrow> [(''budget'', to_value_object [(''limit'', ser_f64 b)])] | None \<Rightarrow> [])"

lemma build_context_roots:
  "build_overlay_context request score decision workspace allowlist scores cost limit =
   to_value_object (context_roots request score decision workspace allowlist scores cost limit)"
proof -
  have "to_value_object [kv] = JObject [kv]" for kv by (simp add: to_value_object_def)
  then show ?thesis by (simp add: build_overlay_context_def context_roots_def Let_def cong: option.case_cong)
qed

lemma root_ok:
  "path_present (to_value_object [(''id'', JString a), (''framework'', JString b)]) rest \<Longrightarrow> path_ok (''agent'' # rest)"
  "path_present (to_value_object [(''kind'', ser_action_type k), (''tool_name'', JString a), (''payload'', p)]) rest \<Longrightarrow> path_ok (''action'' # rest)"
  "path_present (to_value_object [(''id'', JString a), (''allowlist'', JArray xs)]) rest \<Longrightarrow> path_ok (''workspace'' # rest)"
  "path_present (to_value_object [(''score'', ser_u32 w), (''decision'', ser_decision d)]) rest \<Longrightarrow> path_ok (''risk'' # rest)"
  "path_ok (''ml'' # rest)"
  "path_present (to_value_object [(''session_cost_usd'', ser_f64 x)]) rest \<Longrightarrow> path_ok (''usage'' # rest)"
  "path_present (to_value_object [(''limit'', ser_f64 x)]) rest \<Longrightarrow> path_ok (''budget'' # rest)"
  by (erule path_ok_leaf [rotated 2], simp add: CONTEXT_SCHEMA_def, force simp del: path_present_object)
     (erule path_ok_leaf [rotated 2], simp add: CONTEXT_SCHEMA_def, force simp del: path_present_object
      | simp add: path_ok_def CONTEXT_SCHEMA_def)+

lemma context_root_ok:
  "list_all (\<lambda>(r, v). path_present v rest \<longrightarrow> path_ok (r # rest))
     (context_roots request score decision workspace allowlist scores cost limit)"
  unfolding context_roots_def by (simp add: root_ok split: option.split)

lemma present_path_ok:
  assumes "path_present (build_overlay_context request score decision workspace allowlist scores cost limit) segs"
  shows "path_ok segs"
proof (cases segs)
  case (Cons r rest)
  then obtain v where "map_of (context_roots request score decision workspace allowlist scores cost limit) r = Some v" "path_present v rest"
    using assms by (auto simp: build_context_roots split: option.splits)
  then show ?thesis
    unfolding Cons using context_root_ok [of rest request score decision workspace allowlist scores cost limit]
    by (auto simp: list_all_iff dest: map_of_SomeD)
qed (simp add: path_ok_def)

lemma always_present:
  assumes "map_of CONTEXT_SCHEMA r = Some (Some allowed)" "second \<in> set allowed" "r \<notin> set CONDITIONAL_ROOTS"
  shows "path_present (build_overlay_context request score decision workspace allowlist scores cost limit) [r, second]"
proof -
  have "r = ''agent'' \<and> second \<in> {''id'', ''framework''} \<or> r = ''action'' \<and> second \<in> {''kind'', ''tool_name'', ''payload''} \<or>
      r = ''workspace'' \<and> second \<in> {''id'', ''allowlist''} \<or> r = ''risk'' \<and> second \<in> {''score'', ''decision''}"
    using assms unfolding map_of_schema CONDITIONAL_ROOTS_def by (elim disjE conjE) simp_all
  then show ?thesis unfolding build_context_roots context_roots_def by (elim disjE conjE insertE) simp_all
qed

text \<open>
  C36. Start-up validation of context paths is exact: a program is accepted if and only if each of its
  paths is populated by some request, so no accepted path can be a typo that reads \<open>null\<close> for ever,
  and no path a request could populate is refused. A path of length two below a root that is not
  conditional is populated by every request.
\<close>

theorem context_paths_exact:
  "(is_ok (validate_context_paths prog file) \<longleftrightarrow>
     list_all (\<lambda>path. \<exists>request score decision workspace allowlist scores cost limit.
        path_present (build_overlay_context request score decision workspace allowlist scores cost limit) path) (collect_paths prog)) \<and>
   (is_ok (validate_context_paths prog file) \<longrightarrow> [r, second] \<in> set (collect_paths prog) \<longrightarrow> r \<notin> set CONDITIONAL_ROOTS \<longrightarrow>
     path_present (build_overlay_context request score decision workspace allowlist scores cost limit) [r, second])"
proof -
  have ok: "is_ok (validate_context_paths prog file) = list_all path_ok (collect_paths prog)"
    by (simp add: validate_context_paths_def validate_paths_ok)
  have "path_ok path \<longleftrightarrow> (\<exists>request score decision workspace allowlist scores cost limit.
      path_present (build_overlay_context request score decision workspace allowlist scores cost limit) path)" for path
    using path_ok_present [of path] present_path_ok unfolding rich_context_def by blast
  moreover have "path_present (build_overlay_context request score decision workspace allowlist scores cost limit) [r, second]"
    if "path_ok [r, second]" "r \<notin> set CONDITIONAL_ROOTS"
  proof -
    from that(1) obtain leaves where leaves: "map_of CONTEXT_SCHEMA r = Some leaves"
      by (cases "map_of CONTEXT_SCHEMA r") (simp_all add: path_ok_def)
    with that(2) obtain allowed where "leaves = Some allowed"
      unfolding map_of_schema CONDITIONAL_ROOTS_def by (elim disjE conjE) simp_all
    with leaves that show ?thesis by (intro always_present [of r allowed]) (simp_all add: path_ok_def)
  qed
  ultimately show ?thesis unfolding ok by (auto simp: list_all_iff)
qed

definition demo_path_program :: dictum_program where
  "demo_path_program = \<lparr>policies = [\<lparr>pol_name = ''p'', pol_when = Binary BLt (Lit (LInt 50)) (Path [''risk'', ''score'']),
     pol_action = \<lparr>act_verdict = DReview, act_reason = None, act_evidence = None\<rparr>\<rparr>]\<rparr>"

theorem context_paths_exact_witness:
  "path_present (build_overlay_context (demo_request ''t'' []) 7 GAllow None [] None None None) [''risk'', ''score'']"
proof -
  have "is_ok (validate_context_paths demo_path_program ''f'')" by code_simp
  moreover have "[''risk'', ''score''] \<in> set (collect_paths demo_path_program)" "''risk'' \<notin> set CONDITIONAL_ROOTS" by code_simp+
  ultimately show ?thesis
    using context_paths_exact [of demo_path_program "''f''" "''risk''" "''score''"] by blast
qed

end
