(* ===== verification/Policy_Hash.thy ===== *)
theory Policy_Hash
  imports Policy_Properties "HOL-Library.Multiset"
begin

text \<open>
  The digest of a workspace policy that receipts carry when no overlay is loaded
  (\<open>crates/iaga-sentinel-core/src/pipeline/policy_hash.rs\<close>), with the serialization of
  \<open>WorkspacePolicy\<close> it rests on, and what equal digests mean. Printing JSON, SHA-256 and hexadecimal
  encoding are parameters.
\<close>

section \<open>Serialization\<close>

fun ser_protocol :: "protocol_kind \<Rightarrow> json" where
  "ser_protocol Mcp = JString ''mcp''"
| "ser_protocol Acp = JString ''acp''"
| "ser_protocol A2a = JString ''a2a''"
| "ser_protocol HttpFunction = JString ''http-function''"
| "ser_protocol UnknownProtocol = JString ''unknown''"

definition tool_policy_json :: "tool_policy \<Rightarrow> json" where
  "tool_policy_json t = JObject
     (ser_field ''toolName'' (JString (tp_tool_name t)) @
      ser_field ''allowedActionTypes'' (JArray (map ser_action_type (tp_allowed_action_types t))) @
      ser_field ''maxDecision'' (ser_decision (tp_max_decision t)) @
      ser_field ''requiresHumanReview'' (JBool (tp_requires_human_review t)) @
      ser_skip_empty ''destinationFields'' JString (tp_destination_fields t))"

definition workspace_policy_json :: "workspace_policy \<Rightarrow> json" where
  "workspace_policy_json p = JObject
     (ser_field ''workspaceId'' (JString (wp_workspace_id p)) @
      ser_field ''tenantId'' (ser_option JString (wp_tenant_id p)) @
      ser_field ''allowedProtocols'' (JArray (map ser_protocol (wp_allowed_protocols p))) @
      ser_field ''tools'' (JArray (map tool_policy_json (wp_tools p))) @
      ser_field ''allowedDomains'' (JArray (map JString (wp_allowed_domains p))) @
      ser_field ''thresholdBlock'' (ser_u32 (wp_threshold_block p)) @
      ser_field ''thresholdReview'' (ser_u32 (wp_threshold_review p)))"

section \<open>The digest\<close>

text \<open>The \<open>Debug\<close> names the lists are sorted by.\<close>

fun debug_protocol :: "protocol_kind \<Rightarrow> string" where
  "debug_protocol Mcp = ''Mcp''"
| "debug_protocol Acp = ''Acp''"
| "debug_protocol A2a = ''A2a''"
| "debug_protocol HttpFunction = ''HttpFunction''"
| "debug_protocol UnknownProtocol = ''Unknown''"

fun debug_action_type :: "action_type \<Rightarrow> string" where
  "debug_action_type Shell = ''Shell''"
| "debug_action_type FileRead = ''FileRead''"
| "debug_action_type FileWrite = ''FileWrite''"
| "debug_action_type Http = ''Http''"
| "debug_action_type DbQuery = ''DbQuery''"
| "debug_action_type Email = ''Email''"
| "debug_action_type Custom = ''Custom''"

definition canonical_tool :: "tool_policy \<Rightarrow> tool_policy" where
  "canonical_tool t = t\<lparr>tp_allowed_action_types := sort_key debug_action_type (tp_allowed_action_types t),
     tp_destination_fields := sort (tp_destination_fields t)\<rparr>"

definition canonical_policy :: "workspace_policy \<Rightarrow> workspace_policy" where
  "canonical_policy p = p\<lparr>wp_allowed_domains := sort (wp_allowed_domains p),
     wp_allowed_protocols := sort_key debug_protocol (wp_allowed_protocols p),
     wp_tools := map canonical_tool (sort_key tp_tool_name (wp_tools p))\<rparr>"

record digest_lib =
  dl_to_vec :: "json \<Rightarrow> bytes"
  dl_sha256 :: "bytes \<Rightarrow> bytes"
  dl_hex :: "bytes \<Rightarrow> string"

definition workspace_policy_hash :: "digest_lib \<Rightarrow> workspace_policy \<Rightarrow> string" where
  "workspace_policy_hash l policy = dl_hex l (dl_sha256 l (dl_to_vec l (workspace_policy_json (canonical_policy policy))))"

section \<open>The canonical form governs alike\<close>

lemma find_filter: "find P xs = (case filter P xs of [] \<Rightarrow> None | x # _ \<Rightarrow> Some x)"
  by (induction xs) auto

lemma find_sort_key: "find (\<lambda>x. f x = k) (sort_key f xs) = find (\<lambda>x. f x = k) xs"
  by (simp add: find_filter sort_key_stable)

lemma find_map: "find P (map f xs) = map_option f (find (\<lambda>x. P (f x)) xs)"
  by (induction xs) auto

lemma tool_of_canonical: "tool_of input (canonical_policy wp) = map_option canonical_tool (tool_of input wp)"
  by (simp add: tool_of_def canonical_policy_def find_map canonical_tool_def find_sort_key)

lemma tool_demand_canonical: "tool_demand input (map_option canonical_tool tool) = tool_demand input tool"
  by (simp add: tool_demand_def canonical_tool_def split: option.splits)

lemma declared_canonical: "declared_fields (map_option canonical_tool tool) = sort (declared_fields tool)"
  by (simp add: declared_fields_def canonical_tool_def split: option.splits)

lemma host_allowed_canonical [simp]: "host_is_allowed h (canonical_policy wp) = host_is_allowed h wp"
  by (simp add: host_is_allowed_def canonical_policy_def list_ex_iff)

lemma sort_eq_Nil [simp]: "sort xs = [] \<longleftrightarrow> xs = []"
  by (metis length_0_conv length_sort)

lemma set_destinations_sort: "set (destinations_of payload (sort ds)) = set (destinations_of payload ds)"
  by (auto simp: destinations_of_def present_keys_def List.map_filter_def)

lemma skipped_key_sort [simp]: "skipped_key (sort ds) = skipped_key ds"
  by (simp add: fun_eq_iff skipped_key_def list_ex_iff)

lemma scan_keys_sort: "scan_keys payload (sort ds) ok keys = scan_keys payload ds ok keys"
  by (induction keys) (auto split: option.splits)

lemma policy_demands_canonical:
  "policy_demands input profile (canonical_policy wp) protocol = policy_demands input profile wp protocol"
proof -
  have ds: "set (request_destinations input (canonical_policy wp)) = set (request_destinations input wp)"
    by (simp add: request_destinations_def tool_of_canonical declared_canonical set_destinations_sort)
  then have "request_destinations input (canonical_policy wp) = [] \<longleftrightarrow> request_destinations input wp = []"
    by (metis set_empty)
  moreover have "list_ex (\<lambda>x. \<not> host_is_allowed (host_of x) wp) (request_destinations input (canonical_policy wp)) =
      list_ex (\<lambda>x. \<not> host_is_allowed (host_of x) wp) (request_destinations input wp)"
    using ds by (simp add: list_ex_iff)
  moreover have "sweep_hits input (canonical_policy wp) (sort ds) = sweep_hits input wp ds" for ds
    by (simp add: sweep_hits_def scan_undeclared_hosts_def scan_keys_sort)
  moreover have "set (wp_allowed_protocols (canonical_policy wp)) = set (wp_allowed_protocols wp)"
    by (simp add: canonical_policy_def)
  ultimately show ?thesis
    by (simp add: policy_demands_def tool_of_canonical tool_demand_canonical declared_canonical)
qed

section \<open>Serialization loses nothing\<close>

lemma inj_ser: "inj ser_action_type" "inj ser_protocol" "inj ser_decision" "inj JString"
proof -
  show "inj ser_action_type" by (rule injI, case_tac x; case_tac y) simp_all
  show "inj ser_protocol" by (rule injI, case_tac x; case_tac y) simp_all
  show "inj ser_decision" by (rule injI, case_tac x; case_tac y) simp_all
qed (simp add: inj_def)

lemma ser_u32_inj: "ser_u32 v = ser_u32 w \<longleftrightarrow> v = w"
  by (metis de_u32_ser option.inject)

lemma tool_policy_json_inj: "tool_policy_json s = tool_policy_json t \<Longrightarrow> s = t"
  by (rule tool_policy.equality)
     (auto simp: tool_policy_json_def ser_field_def ser_skip_empty_def inj_map_eq_map inj_ser inj_eq [OF inj_ser(3)]
       split: if_splits)

lemma workspace_policy_json_inj: "workspace_policy_json p = workspace_policy_json q \<Longrightarrow> p = q"
proof (rule workspace_policy.equality)
  assume eq: "workspace_policy_json p = workspace_policy_json q"
  have "inj tool_policy_json" by (rule injI) (rule tool_policy_json_inj)
  with eq show "wp_tools p = wp_tools q"
    by (simp add: workspace_policy_json_def ser_field_def inj_map_eq_map)
  from eq show "wp_tenant_id p = wp_tenant_id q"
    by (simp add: workspace_policy_json_def ser_field_def ser_option_def split: option.splits)
qed (auto simp: workspace_policy_json_def ser_field_def inj_map_eq_map inj_ser ser_u32_inj)

section \<open>What a digest binds\<close>

definition policy_bytes :: "digest_lib \<Rightarrow> workspace_policy \<Rightarrow> bytes" where
  "policy_bytes l p = dl_to_vec l (workspace_policy_json (canonical_policy p))"

text \<open>
  C37. Receipts with the same policy digest were governed alike: when the digests of two workspace
  policies agree, and the library functions did not collide on them, every request of every agent
  gets the same decision under both.
\<close>

theorem policy_hash_binds_decision:
  assumes "workspace_policy_hash l p = workspace_policy_hash l q"
    and "\<not> collides (dl_to_vec l) (workspace_policy_json (canonical_policy p)) (workspace_policy_json (canonical_policy q))"
    and "\<not> collides (dl_sha256 l) (policy_bytes l p) (policy_bytes l q)"
    and "\<not> collides (dl_hex l) (dl_sha256 l (policy_bytes l p)) (dl_sha256 l (policy_bytes l q))"
  shows "pe_minimum_decision (evaluate_policy input profile p protocol) = pe_minimum_decision (evaluate_policy input profile q protocol)"
proof -
  have "policy_bytes l p = policy_bytes l q"
    using assms(1,3,4) by (auto simp: workspace_policy_hash_def policy_bytes_def collides_def)
  then have "canonical_policy p = canonical_policy q"
    using assms(2) by (intro workspace_policy_json_inj) (auto simp: policy_bytes_def collides_def)
  then show ?thesis using policy_demands_canonical unfolding policy_decision by metis
qed

lemma sort_key_mset:
  assumes "inj_on f (set xs)" "mset xs = mset ys"
  shows "sort_key f xs = sort_key f ys"
proof (rule properties_for_sort_key)
  show "mset (sort_key f ys) = mset xs" using assms(2) by simp
  show "sorted (map f (sort_key f ys))" by simp
  have eq: "set xs = set ys" using assms(2) by (rule mset_eq_setD)
  fix k assume "k \<in> set (sort_key f ys)"
  then have k: "k \<in> set xs" by (simp add: eq)
  have only: "filter (\<lambda>x. f k = f x) zs = replicate (count (mset zs) k) k" if "set zs \<subseteq> set xs" for zs
    using that
  proof (induction zs)
    case (Cons z zs)
    then have "f k = f z \<longleftrightarrow> k = z" using assms(1) k by (auto dest: inj_onD)
    with Cons show ?case by auto
  qed simp
  show "filter (\<lambda>x. f k = f x) (sort_key f ys) = filter (\<lambda>x. f k = f x) xs"
    using only [of "sort_key f ys"] only [of xs] assms(2) eq by simp
qed

lemma inj_debug: "inj debug_protocol" "inj debug_action_type"
proof -
  show "inj debug_protocol" by (rule injI, case_tac x; case_tac y) simp_all
  show "inj debug_action_type" by (rule injI, case_tac x; case_tac y) simp_all
qed

text \<open>
  The digest does not depend on the order of the lists: two policies that agree up to the order
  of their domains, their protocols and their tools (each tool registered once) have the same
  digest.
\<close>

theorem policy_hash_ignores_order:
  assumes "mset (wp_allowed_domains p) = mset (wp_allowed_domains q)"
    and "mset (wp_allowed_protocols p) = mset (wp_allowed_protocols q)"
    and "mset (wp_tools p) = mset (wp_tools q)" "distinct (map tp_tool_name (wp_tools p))"
    and "p = q\<lparr>wp_allowed_domains := wp_allowed_domains p, wp_allowed_protocols := wp_allowed_protocols p, wp_tools := wp_tools p\<rparr>"
  shows "workspace_policy_hash l p = workspace_policy_hash l q"
proof -
  have "sort (wp_allowed_domains p) = sort (wp_allowed_domains q)" using assms(1) by (intro sort_key_mset) simp_all
  moreover have "sort_key debug_protocol (wp_allowed_protocols p) = sort_key debug_protocol (wp_allowed_protocols q)"
    using assms(2) inj_debug(1) by (intro sort_key_mset) (auto intro: inj_on_subset)
  moreover have "sort_key tp_tool_name (wp_tools p) = sort_key tp_tool_name (wp_tools q)"
    using assms(3,4) by (intro sort_key_mset) (simp_all add: distinct_map)
  ultimately have "canonical_policy p = canonical_policy q"
    using assms(5) by (cases p; cases q) (simp add: canonical_policy_def)
  then show ?thesis by (simp add: workspace_policy_hash_def)
qed

definition demo_workspace_sorted :: workspace_policy where
  "demo_workspace_sorted = demo_workspace\<lparr>wp_allowed_domains := [''b.org'', ''a.org''], wp_allowed_protocols := [Mcp, Acp]\<rparr>"

definition demo_workspace_shuffled :: workspace_policy where
  "demo_workspace_shuffled = demo_workspace\<lparr>wp_allowed_domains := [''a.org'', ''b.org''], wp_allowed_protocols := [Acp, Mcp]\<rparr>"

theorem policy_hash_ignores_order_witness:
  "workspace_policy_hash \<lparr>dl_to_vec = \<lambda>_. [], dl_sha256 = \<lambda>_. [], dl_hex = \<lambda>_. []\<rparr> demo_workspace_sorted =
   workspace_policy_hash \<lparr>dl_to_vec = \<lambda>_. [], dl_sha256 = \<lambda>_. [], dl_hex = \<lambda>_. []\<rparr> demo_workspace_shuffled"
  by (rule policy_hash_ignores_order)
     (simp_all add: demo_workspace_sorted_def demo_workspace_shuffled_def demo_workspace_def)

theorem policy_hash_binds_decision_witness:
  "pe_minimum_decision (evaluate_policy (demo_request ''http.fetch'' []) demo_profile demo_workspace_sorted Acp) =
   pe_minimum_decision (evaluate_policy (demo_request ''http.fetch'' []) demo_profile demo_workspace_shuffled Acp)"
proof -
  have "canonical_policy demo_workspace_sorted = canonical_policy demo_workspace_shuffled" by code_simp
  then show ?thesis
    by (intro policy_hash_binds_decision [of "\<lparr>dl_to_vec = \<lambda>_. [], dl_sha256 = \<lambda>_. [], dl_hex = \<lambda>_. []\<rparr>"])
       (simp_all add: workspace_policy_hash_def collides_def policy_bytes_def)
qed

end
