(* ===== verification/Taint_Tracker.thy ===== *)
theory Taint_Tracker
  imports Policy_Eval "HOL-Library.AList"
begin

text \<open>
  Taint tracking across the actions of a session
  (\<open>crates/iaga-sentinel-core/src/modules/taint/taint_tracker.rs\<close>): labels at the source, the stores
  that accumulate them per session and per agent, and the policies that forbid labels at a sink.
  A \<open>HashSet\<close> of labels is a set, a store an association list, an \<open>Instant\<close> a number. Parsing JSON,
  the Unicode case table and the credential regular expressions are parameters.
\<close>

section \<open>Labels and sinks\<close>

definition UNTRUSTED_USER :: string where "UNTRUSTED_USER = ''untrusted_user''"
definition EXTERNAL_TOOL :: string where "EXTERNAL_TOOL = ''external_tool''"
definition LOCAL_FS :: string where "LOCAL_FS = ''local_fs''"
definition SECRET :: string where "SECRET = ''secret''"
definition INTERNAL_API :: string where "INTERNAL_API = ''internal_api''"
definition SHELL_OUTPUT :: string where "SHELL_OUTPUT = ''shell_output''"
definition DB_RESULT :: string where "DB_RESULT = ''db_result''"
definition NETWORK_RESPONSE :: string where "NETWORK_RESPONSE = ''network_response''"
definition TOOL_RESPONSE_ACTION :: string where "TOOL_RESPONSE_ACTION = ''tool_response''"

lemmas taint_label_defs = UNTRUSTED_USER_def EXTERNAL_TOOL_def LOCAL_FS_def SECRET_def INTERNAL_API_def
  SHELL_OUTPUT_def DB_RESULT_def NETWORK_RESPONSE_def TOOL_RESPONSE_ACTION_def

datatype sink_type = NetworkEgressSink | FileWriteSink | ShellExecSink | DbWriteSink | EmailSendSink | LogOutputSink | ToolResponseSink

fun show_sink :: "sink_type \<Rightarrow> string" where
  "show_sink NetworkEgressSink = ''network_egress''"
| "show_sink FileWriteSink = ''file_write''"
| "show_sink ShellExecSink = ''shell_exec''"
| "show_sink DbWriteSink = ''db_write''"
| "show_sink EmailSendSink = ''email_send''"
| "show_sink LogOutputSink = ''log_output''"
| "show_sink ToolResponseSink = ''tool_response''"

record taint_policy =
  tpol_sink :: sink_type
  tpol_forbidden :: "string list"
  tpol_severity :: string
  tpol_description :: string

definition default_policies :: "taint_policy list" where
  "default_policies =
     [\<lparr>tpol_sink = NetworkEgressSink, tpol_forbidden = [LOCAL_FS, SECRET, INTERNAL_API, DB_RESULT], tpol_severity = ''critical'',
       tpol_description = ''Sensitive data must not flow to external network''\<rparr>,
      \<lparr>tpol_sink = EmailSendSink, tpol_forbidden = [SECRET, INTERNAL_API], tpol_severity = ''critical'',
       tpol_description = ''Secrets and internal data must not be sent via email''\<rparr>,
      \<lparr>tpol_sink = ShellExecSink, tpol_forbidden = [UNTRUSTED_USER, EXTERNAL_TOOL], tpol_severity = ''high'',
       tpol_description = ''Untrusted input must not be used in shell commands''\<rparr>,
      \<lparr>tpol_sink = DbWriteSink, tpol_forbidden = [UNTRUSTED_USER], tpol_severity = ''high'',
       tpol_description = ''Untrusted user input must not flow to database writes''\<rparr>,
      \<lparr>tpol_sink = FileWriteSink, tpol_forbidden = [UNTRUSTED_USER], tpol_severity = ''medium'',
       tpol_description = ''Untrusted user input in file writes requires sanitization''\<rparr>,
      \<lparr>tpol_sink = LogOutputSink, tpol_forbidden = [SECRET], tpol_severity = ''high'',
       tpol_description = ''Secrets must never appear in log output''\<rparr>,
      \<lparr>tpol_sink = ToolResponseSink, tpol_forbidden = [SECRET], tpol_severity = ''high'',
       tpol_description = ''Tool response carries secret material''\<rparr>]"

record taint_violation =
  tv_description :: string
  tv_severity :: string
  tv_violating_taints :: "string list"
  tv_blocked :: bool

record taint_analysis_result =
  ta_source_taints :: "string list"
  ta_sink_type :: "string option"
  ta_accumulated_labels :: "string set"
  ta_violations :: "taint_violation list"
  ta_blocked :: bool
  ta_exfiltration_detected :: bool
  ta_summary :: string

section \<open>Stores\<close>

record timestamped_taint =
  tt_labels :: "string set"
  tt_last_updated :: nat

type_synonym taint_store = "(string \<times> timestamped_taint) list"

definition get_session_taint :: "taint_store \<Rightarrow> string \<Rightarrow> string set" where
  "get_session_taint store session_id = (case map_of store session_id of Some t \<Rightarrow> tt_labels t | None \<Rightarrow> {})"

definition update_session_taint :: "nat \<Rightarrow> string \<Rightarrow> string set \<Rightarrow> taint_store \<Rightarrow> taint_store" where
  "update_session_taint now session_id labels store =
     AList.update session_id \<lparr>tt_labels = get_session_taint store session_id \<union> labels, tt_last_updated = now\<rparr> store"

text \<open>The removed entries are counted; \<open>duration_since\<close> saturates at zero.\<close>

definition prune_stale_taints :: "nat \<Rightarrow> nat \<Rightarrow> taint_store \<Rightarrow> nat \<times> taint_store" where
  "prune_stale_taints now ttl store =
     (let kept = filter (\<lambda>(_, v). now - tt_last_updated v < ttl) store in (length store - length kept, kept))"

definition hydrate_session_taint :: "nat \<Rightarrow> string \<Rightarrow> string set \<Rightarrow> taint_store \<Rightarrow> taint_store" where
  "hydrate_session_taint now session_id labels store =
     AList.update session_id \<lparr>tt_labels = labels, tt_last_updated = now\<rparr> store"

definition get_agent_taint :: "nat \<Rightarrow> taint_store \<Rightarrow> string \<Rightarrow> nat \<Rightarrow> string set" where
  "get_agent_taint now store agent_id window =
     (case map_of store agent_id of
        Some t \<Rightarrow> if now - tt_last_updated t < window then tt_labels t else {}
      | None \<Rightarrow> {})"

definition update_agent_taint :: "nat \<Rightarrow> string \<Rightarrow> string set \<Rightarrow> taint_store \<Rightarrow> taint_store" where
  "update_agent_taint now agent_id labels store =
     (if labels = {} then store else update_session_taint now agent_id labels store)"

definition BODY_BEARING_KEYS :: "string list" where
  "BODY_BEARING_KEYS = [''body'', ''data'', ''content'', ''payload'', ''json'', ''form'', ''files'']"

definition carries_content :: "json \<Rightarrow> bool" where
  "carries_content v =
     (case v of
        JNull \<Rightarrow> False
      | JString s \<Rightarrow> str_trim s \<noteq> []
      | JArray xs \<Rightarrow> xs \<noteq> []
      | JObject m \<Rightarrow> m \<noteq> []
      | _ \<Rightarrow> True)"

definition action_carries_body :: "fields \<Rightarrow> bool" where
  "action_carries_body payload =
     list_ex (\<lambda>k. case map_of payload k of Some v \<Rightarrow> carries_content v | None \<Rightarrow> False) BODY_BEARING_KEYS"

definition cross_session_inheritable :: "string set \<Rightarrow> fields \<Rightarrow> string set" where
  "cross_session_inheritable agent_labels payload =
     (if \<not> action_carries_body payload then {} else Set.filter (\<lambda>l. l = SECRET) agent_labels)"

text \<open>The basis of the correlation, reported beside a verdict.\<close>

record taint_correlation_scope =
  ts_basis :: string
  ts_session_id_source :: string
  ts_aggregated_by_agent :: bool
  ts_agent_window_secs :: "nat option"
  ts_caveat :: string

definition describe :: "bool \<Rightarrow> nat option \<Rightarrow> taint_correlation_scope" where
  "describe session_id_was_declared agent_window =
     \<lparr>ts_basis = (if agent_window \<noteq> None then ''session+agent'' else ''session''),
      ts_session_id_source =
        (if session_id_was_declared then ''client-declared metadata.sessionId'' else ''defaulted to agentId (no sessionId supplied)''),
      ts_aggregated_by_agent = (agent_window \<noteq> None), ts_agent_window_secs = agent_window,
      ts_caveat =
        (if agent_window \<noteq> None then
           ''Multi-step correlation spans this agent'' @ [CHR 0x27] @ ''s sessions within the window. '' @
           ''Both sessionId and agentId are client-declared, so a caller that rotates '' @
           ''BOTH still presents as unrelated activity. Only the `secret` label '' @
           ''crosses a session boundary, and only into a request carrying a body. '' @
           ''The aggregation store is in-memory and per-process: it resets on restart '' @
           ''and does not span replicas, so behind more than one instance this '' @
           ''correlation is best-effort rather than guaranteed.''
         else
           ''Multi-step correlation is limited to the client-declared sessionId. '' @
           ''A caller that rotates its sessionId between steps is not correlated '' @
           ''across them, and this verdict does not cover that.'')\<rparr>"

section \<open>Sources\<close>

record taint_lib =
  tl_lower :: "string \<Rightarrow> string"
  tl_from_str :: "string \<Rightarrow> json option"
  tl_credential_patterns :: "(string \<Rightarrow> bool) list"

definition contains_any :: "string list \<Rightarrow> string \<Rightarrow> bool" where
  "contains_any patterns text = list_ex (\<lambda>p. sublist p text) patterns"

definition is_secret_path :: "taint_lib \<Rightarrow> string \<Rightarrow> bool" where
  "is_secret_path l text =
     contains_any
       [''.env'', ''.ssh'', ''.aws'', ''credentials'', ''.gnupg'', ''.npmrc'', ''.pypirc'', ''.netrc'', ''secret'', ''token'',
        ''passwd'', ''shadow'', ''.pem'', ''.key'', ''.p12'', ''vault'', ''.kube/config'']
       (lowercase (tl_lower l) text)"

definition url_authority_has_password :: "string \<Rightarrow> bool" where
  "url_authority_has_password after_scheme =
     (let authority = takeWhile (\<lambda>ch. ch \<notin> set ''/?# '' \<and> ch \<notin> {CHR 0x22, CHR 0x27, CHR 0x0A, CHR 0x09}) after_scheme in
      case rsplit_once (CHR ''@'') authority of
        Some (userinfo, host) \<Rightarrow> host \<noteq> [] \<and> CHR '':'' \<in> set userinfo
      | None \<Rightarrow> False)"

fun contains_url_credentials :: "string \<Rightarrow> bool" where
  "contains_url_credentials [] = False"
| "contains_url_credentials (x # xs) =
     (prefix ''://'' (x # xs) \<and> url_authority_has_password (drop 3 (x # xs)) \<or> contains_url_credentials xs)"

definition contains_openai_like_key :: "string \<Rightarrow> bool" where
  "contains_openai_like_key text =
     list_ex (\<lambda>tok. prefix ''sk-'' tok \<and> 20 \<le> length tok)
       (split_on (\<lambda>ch. \<not> (is_ascii_alphanumeric ch \<or> ch = CHR ''-'')) [] text)"

definition contains_known_credential :: "taint_lib \<Rightarrow> string \<Rightarrow> bool" where
  "contains_known_credential l text = list_ex (\<lambda>re. re text) (tl_credential_patterns l)"

definition has_secret_content :: "taint_lib \<Rightarrow> string \<Rightarrow> bool" where
  "has_secret_content l text =
     (let lower = lowercase (tl_lower l) text in
      contains_any
        [''api_key'', ''api-key'', ''api_secret'', ''access_token'', ''access-token'', ''private_key'', ''private-key'',
         ''-----begin'', ''secretref://'', ''bearer '', ''ghp_'', ''aws_secret'', ''password''] lower
      \<or> contains_openai_like_key lower \<or> contains_url_credentials text \<or> contains_known_credential l text)"

fun collect_destinations :: "json \<Rightarrow> bool \<Rightarrow> string list"
  and collect_items :: "json list \<Rightarrow> bool \<Rightarrow> string list"
  and collect_fields :: "(string \<times> json) list \<Rightarrow> string list" where
  "collect_destinations (JString s) named = (if named then [s] else [])"
| "collect_destinations (JArray xs) named = collect_items xs named"
| "collect_destinations (JObject m) named = collect_fields m"
| "collect_destinations JNull named = []"
| "collect_destinations (JBool b) named = []"
| "collect_destinations (JNumber n) named = []"
| "collect_items [] named = []"
| "collect_items (v # vs) named = collect_destinations v named @ collect_items vs named"
| "collect_fields [] = []"
| "collect_fields ((key, child) # m) =
     collect_destinations child (list_ex (\<lambda>d. eq_ignore_ascii_case d key) DEFAULT_EGRESS_DESTINATION_FIELDS) @ collect_fields m"

definition destination_candidates :: "taint_lib \<Rightarrow> string \<Rightarrow> string list" where
  "destination_candidates l payload_str =
     (case tl_from_str l payload_str of
        Some (JObject m) \<Rightarrow> collect_destinations (JObject m) False
      | Some (JArray xs) \<Rightarrow> collect_destinations (JArray xs) False
      | _ \<Rightarrow> [payload_str])"

definition is_internal_host :: "string \<Rightarrow> bool" where
  "is_internal_host destination =
     (let host = host_of destination in
      if host = [] then False
      else host = ''localhost'' \<or> suffix ''.localhost'' host \<or> prefix ''127.'' host \<or> prefix ''10.'' host
        \<or> prefix ''192.168.'' host \<or> suffix ''.internal'' host \<or> suffix ''.local'' host \<or> suffix ''.corp'' host)"

definition is_internal_url :: "taint_lib \<Rightarrow> string \<Rightarrow> bool" where
  "is_internal_url l text = list_ex is_internal_host (destination_candidates l text)"

definition classify_source :: "taint_lib \<Rightarrow> string \<Rightarrow> string \<Rightarrow> string \<Rightarrow> string list" where
  "classify_source l action_type tool_name payload_str =
     (let labels =
        (if action_type = ''file_read'' then LOCAL_FS # (if is_secret_path l payload_str then [SECRET] else [])
         else if action_type = ''db_query'' then [DB_RESULT]
         else if action_type = ''http'' then
           [NETWORK_RESPONSE, if is_internal_url l payload_str then INTERNAL_API else EXTERNAL_TOOL]
         else if action_type = ''shell'' then [SHELL_OUTPUT]
         else if action_type = ''custom'' then [EXTERNAL_TOOL]
         else [])
      in if has_secret_content l payload_str \<and> SECRET \<notin> set labels then labels @ [SECRET] else labels)"

section \<open>Sinks and the analysis\<close>

definition classify_sink :: "taint_lib \<Rightarrow> string \<Rightarrow> string \<Rightarrow> sink_type option" where
  "classify_sink l action_type tool_name =
     (if action_type = ''http'' then Some NetworkEgressSink
      else if action_type = TOOL_RESPONSE_ACTION then Some ToolResponseSink
      else if action_type = ''email'' then Some EmailSendSink
      else if action_type = ''file_write'' then Some FileWriteSink
      else if action_type = ''shell'' then Some ShellExecSink
      else if action_type = ''db_query'' then
        (if contains_any [''write'', ''insert'', ''update'', ''delete'', ''drop'', ''alter''] (lowercase (tl_lower l) tool_name)
         then Some DbWriteSink else None)
      else None)"

definition policy_violation :: "string set \<Rightarrow> taint_policy \<Rightarrow> taint_violation option" where
  "policy_violation accumulated pol =
     (let violating = filter (\<lambda>t. t \<in> accumulated) (tpol_forbidden pol) in
      if violating = [] then None
      else Some \<lparr>tv_description = tpol_description pol, tv_severity = tpol_severity pol, tv_violating_taints = violating,
        tv_blocked = (tpol_severity pol = ''critical'' \<or> tpol_severity pol = ''high'')\<rparr>)"

definition taint_violations :: "sink_type option \<Rightarrow> string set \<Rightarrow> taint_violation list" where
  "taint_violations sink accumulated =
     (case sink of
        None \<Rightarrow> []
      | Some sk \<Rightarrow> List.map_filter (policy_violation accumulated) (filter (\<lambda>p. tpol_sink p = sk) default_policies))"

text \<open>The arrow of the summary is the UTF-8 encoding of U+2192.\<close>

definition taint_summary :: "string set \<Rightarrow> string option \<Rightarrow> taint_violation list \<Rightarrow> bool \<Rightarrow> bool \<Rightarrow> string" where
  "taint_summary accumulated sink_str violations blocked exfiltration =
     ''taints: ['' @ join_with '', '' (sorted_list_of_set accumulated) @ '']''
     @ (case sink_str of Some s \<Rightarrow> '' '' @ [CHR 0xE2, CHR 0x86, CHR 0x92] @ '' sink: '' @ s | None \<Rightarrow> [])
     @ (if violations \<noteq> [] then '' | '' @ show_nat (length violations) @ '' violation(s)'' else [])
     @ (if blocked then '' | BLOCKED'' else [])
     @ (if exfiltration then '' | EXFILTRATION DETECTED'' else [])"

definition analyze_taint :: "taint_lib \<Rightarrow> string \<Rightarrow> string \<Rightarrow> string \<Rightarrow> string set \<Rightarrow> taint_analysis_result" where
  "analyze_taint l action_type tool_name payload_str inherited =
     (let source_taints = classify_source l action_type tool_name payload_str;
          accumulated = inherited \<union> set source_taints;
          sink = classify_sink l action_type tool_name;
          violations = taint_violations sink accumulated;
          blocked = list_ex tv_blocked violations;
          exfiltration = list_ex (\<lambda>v. sublist ''network'' (tv_description v) \<or> sublist ''email'' (tv_description v)) violations;
          sink_str = map_option show_sink sink
      in \<lparr>ta_source_taints = source_taints, ta_sink_type = sink_str, ta_accumulated_labels = accumulated, ta_violations = violations,
          ta_blocked = blocked, ta_exfiltration_detected = exfiltration,
          ta_summary = taint_summary accumulated sink_str violations blocked exfiltration\<rparr>)"

section \<open>What the analysis decides\<close>

lemma analyze_accumulates: "ta_accumulated_labels (analyze_taint l a t p inh) = inh \<union> set (classify_source l a t p)"
  by (simp add: analyze_taint_def Let_def)

lemma http_blocked_iff:
  "ta_blocked (analyze_taint l ''http'' t p inh) \<longleftrightarrow>
     {LOCAL_FS, SECRET, INTERNAL_API, DB_RESULT} \<inter> (inh \<union> set (classify_source l ''http'' t p)) \<noteq> {}"
  by (auto simp: analyze_taint_def Let_def classify_sink_def taint_violations_def default_policies_def
      List.map_filter_def policy_violation_def)

lemma email_blocked_iff:
  "ta_blocked (analyze_taint l ''email'' t p inh) \<longleftrightarrow>
     {SECRET, INTERNAL_API} \<inter> (inh \<union> set (classify_source l ''email'' t p)) \<noteq> {}"
  by (auto simp: analyze_taint_def Let_def classify_sink_def taint_violations_def default_policies_def
      List.map_filter_def policy_violation_def TOOL_RESPONSE_ACTION_def)

lemma file_read_labels: "LOCAL_FS \<in> set (classify_source l ''file_read'' t p)"
  by (simp add: classify_source_def Let_def)

lemma file_read_secret: "is_secret_path l p \<Longrightarrow> SECRET \<in> set (classify_source l ''file_read'' t p)"
  by (simp add: classify_source_def Let_def)

section \<open>The stores accumulate\<close>

lemma get_update [simp]:
  "get_session_taint (update_session_taint now sid labels store) s =
     (if s = sid then get_session_taint store s \<union> labels else get_session_taint store s)"
  by (simp add: get_session_taint_def update_session_taint_def update_conv')

lemma get_update_mono: "get_session_taint store s \<subseteq> get_session_taint (update_session_taint now sid labels store) s"
  by auto

end
