(* ===== verification/Session_Dag.thy ===== *)
theory Session_Dag
  imports Governance_Types "HOL-Library.AList"
begin

text \<open>
  The session graph of \<open>crates/iaga-sentinel-core/src/modules/session_graph/session_dag.rs\<close>: one graph
  of tool calls per session, a finite automaton over the kinds of action, attack signatures matched
  against the whole history, strikes with a cooldown, and structural anomaly scores. The clock is a
  sequence of readings in the order the code takes them; SHA-256 with hexadecimal output is a
  parameter.
\<close>

section \<open>Data\<close>

record tool_call_node =
  tc_id :: string
  tc_agent_id :: string
  tc_tool_name :: string
  tc_action_type :: string
  tc_timestamp :: u64
  tc_taint_labels :: "string set"
  tc_risk_score :: u32

record data_flow_edge =
  ed_from :: string
  ed_to :: string
  ed_data_keys :: "string list"
  ed_taint_propagated :: "string set"

datatype fsa_state = FIdle | FReading | FProcessing | FWriting | FNetworkEgress | FBlocked

fun show_fsa :: "fsa_state \<Rightarrow> string" where
  "show_fsa FIdle = ''idle''"
| "show_fsa FReading = ''reading''"
| "show_fsa FProcessing = ''processing''"
| "show_fsa FWriting = ''writing''"
| "show_fsa FNetworkEgress = ''network_egress''"
| "show_fsa FBlocked = ''blocked''"

record session_dag =
  sd_session_id :: string
  sd_agent_id :: string
  sd_nodes :: "tool_call_node list"
  sd_edges :: "data_flow_edge list"
  sd_created_at :: u64
  sd_last_activity :: u64
  sd_state :: fsa_state
  sd_blocked :: bool
  sd_block_reason :: "string option"
  sd_blocked_at :: u64
  sd_block_count :: u32

record attack_signature =
  sig_name :: string
  sig_severity :: string
  sig_pattern :: "string list"
  sig_required_taints :: "string list option"

record attack_match =
  am_name :: string
  am_severity :: string
  am_confidence :: f64
  am_matched_nodes :: "string list"
  am_agents :: "string list"

definition attack_signatures :: "attack_signature list" where
  "attack_signatures =
     [\<lparr>sig_name = ''data_exfiltration'', sig_severity = ''critical'', sig_pattern = [''file_read'', ''http''],
       sig_required_taints = Some [''local_fs'', ''secret'']\<rparr>,
      \<lparr>sig_name = ''secret_exfiltration_email'', sig_severity = ''critical'', sig_pattern = [''file_read'', ''email''],
       sig_required_taints = Some [''secret'']\<rparr>,
      \<lparr>sig_name = ''lateral_movement'', sig_severity = ''high'', sig_pattern = [''db_query'', ''http''],
       sig_required_taints = Some [''internal_api'']\<rparr>,
      \<lparr>sig_name = ''db_dump_exfiltration'', sig_severity = ''critical'', sig_pattern = [''db_query'', ''file_write'', ''http''],
       sig_required_taints = None\<rparr>,
      \<lparr>sig_name = ''privilege_escalation_chain'', sig_severity = ''high'', sig_pattern = [''shell'', ''file_read'', ''shell''],
       sig_required_taints = None\<rparr>]"

definition default_transitions :: "(fsa_state \<times> string \<times> fsa_state) list" where
  "default_transitions =
     [(FIdle, ''file_read'', FReading), (FIdle, ''db_query'', FReading), (FIdle, ''http'', FNetworkEgress),
      (FIdle, ''shell'', FProcessing), (FIdle, ''custom'', FProcessing), (FIdle, ''email'', FNetworkEgress),
      (FIdle, ''file_write'', FWriting),
      (FReading, ''file_read'', FReading), (FReading, ''db_query'', FReading), (FReading, ''custom'', FProcessing),
      (FReading, ''shell'', FProcessing), (FReading, ''file_write'', FWriting),
      (FProcessing, ''file_read'', FReading), (FProcessing, ''file_write'', FWriting), (FProcessing, ''custom'', FProcessing),
      (FProcessing, ''shell'', FProcessing), (FProcessing, ''db_query'', FReading), (FProcessing, ''http'', FNetworkEgress),
      (FWriting, ''file_read'', FReading), (FWriting, ''custom'', FProcessing), (FWriting, ''file_write'', FWriting),
      (FNetworkEgress, ''file_read'', FReading), (FNetworkEgress, ''custom'', FProcessing),
      (FNetworkEgress, ''http'', FNetworkEgress), (FNetworkEgress, ''shell'', FProcessing)]"

section \<open>Transitions and signatures\<close>

definition check_transition :: "fsa_state \<Rightarrow> string \<Rightarrow> string set \<Rightarrow> bool \<times> fsa_state" where
  "check_transition current action_type taints =
     (if current = FBlocked then (False, FBlocked)
      else if current = FReading \<and> (action_type = ''http'' \<or> action_type = ''email'') then
        (if list_ex (\<lambda>s. s \<in> taints) [''local_fs'', ''secret'', ''internal_api''] then (False, FBlocked) else (True, FNetworkEgress))
      else case find (\<lambda>(from, action, _). from = current \<and> action = action_type) default_transitions of
          Some (_, _, to) \<Rightarrow> (True, to)
        | None \<Rightarrow> (False, FBlocked))"

text \<open>The greedy scan for a pattern from one start: the matched calls, when the pattern is complete.\<close>

fun scan_pattern :: "string list \<Rightarrow> tool_call_node list \<Rightarrow> tool_call_node list option" where
  "scan_pattern [] ns = Some []"
| "scan_pattern (p # ps) [] = None"
| "scan_pattern (p # ps) (n # ns) =
     (if tc_action_type n = p then map_option (Cons n) (scan_pattern ps ns) else scan_pattern (p # ps) ns)"

definition taints_suffice :: "string list option \<Rightarrow> tool_call_node list \<Rightarrow> bool" where
  "taints_suffice required ns =
     (case required of None \<Rightarrow> True | Some req \<Rightarrow> list_ex (\<lambda>t. list_ex (\<lambda>n. t \<in> tc_taint_labels n) ns) req)"

definition match_from :: "attack_signature \<Rightarrow> tool_call_node list \<Rightarrow> nat \<Rightarrow> tool_call_node list option" where
  "match_from sig ns start =
     (case scan_pattern (sig_pattern sig) (drop start ns) of
        Some matched \<Rightarrow> if taints_suffice (sig_required_taints sig) matched then Some matched else None
      | None \<Rightarrow> None)"

text \<open>The two doubles that \<open>0.7 + 0.2\<close> and \<open>0.7 + 0.1\<close> round to.\<close>

definition confidence :: "string \<Rightarrow> f64" where
  "confidence severity =
     Fin (if severity = ''critical'' then 8106479329266892 / 9007199254740992 else 7205759403792793 / 9007199254740992)"

definition match_signature :: "tool_call_node list \<Rightarrow> attack_signature \<Rightarrow> attack_match option" where
  "match_signature ns sig =
     (if length ns < length (sig_pattern sig) then None
      else case List.map_filter (match_from sig ns) [0 ..< length ns - length (sig_pattern sig) + 1] of
          [] \<Rightarrow> None
        | matched # _ \<Rightarrow> Some \<lparr>am_name = sig_name sig, am_severity = sig_severity sig, am_confidence = confidence (sig_severity sig),
            am_matched_nodes = map tc_id matched,
            am_agents = filter (\<lambda>a. a \<noteq> []) (remdups_adj (sort (map tc_agent_id matched)))\<rparr>)"

definition match_attack_signatures :: "session_dag \<Rightarrow> attack_match list" where
  "match_attack_signatures s = List.map_filter (match_signature (sd_nodes s)) attack_signatures"

definition collect_recent_timestamps :: "session_dag \<Rightarrow> nat \<Rightarrow> u64 list" where
  "collect_recent_timestamps s limit = map tc_timestamp (drop (length (sd_nodes s) - limit) (sd_nodes s))"

section \<open>Anomalies\<close>

datatype anomaly_reason =
    PermanentlyBlocked u32 string
  | InCooldown u64 string
  | HighToolDiversity nat
  | HighTaintAccumulation "string list"
  | ExtremelyDeepSession nat
  | DeepSession nat
  | CollectionEgressArc nat string
  | FanInBeforeEgress nat
  | StagedBeforeEgress string
  | NetworkDeliveredExecution
  | PriorBlockHistory u32 u32
  | BurstCalls nat
  | ElevatedFrequency nat

definition is_read_action :: "string \<Rightarrow> bool" where
  "is_read_action a \<longleftrightarrow> a = ''file_read'' \<or> a = ''db_query''"

definition is_egress_action :: "string \<Rightarrow> bool" where
  "is_egress_action a \<longleftrightarrow> a = ''http'' \<or> a = ''email''"

definition is_staging_action :: "string \<Rightarrow> bool" where
  "is_staging_action a \<longleftrightarrow> a = ''shell'' \<or> a = ''custom'' \<or> a = ''file_write''"

text \<open>One weighted signal: its points and its reason, when it holds.\<close>

definition signal :: "bool \<Rightarrow> u32 \<Rightarrow> anomaly_reason \<Rightarrow> (u32 \<times> anomaly_reason) list" where
  "signal c points why = (if c then [(points, why)] else [])"

definition arc_signals :: "tool_call_node list \<Rightarrow> (u32 \<times> anomaly_reason) list" where
  "arc_signals ns =
     (case rev ns of
        [] \<Rightarrow> []
      | last_node # before \<Rightarrow>
          (let prior = take 4 before;
               reads = filter (\<lambda>n. is_read_action (tc_action_type n)) prior;
               read_steps = length reads;
               distinct_tools = card (set (map tc_tool_name reads));
               staged = list_ex (\<lambda>n. is_staging_action (tc_action_type n)) prior in
           (if is_egress_action (tc_action_type last_node) then
              signal (2 \<le> read_steps) 35 (CollectionEgressArc read_steps (tc_action_type last_node)) @
              signal (2 \<le> distinct_tools) 15 (FanInBeforeEgress distinct_tools) @
              signal (1 \<le> read_steps \<and> staged) 20 (StagedBeforeEgress (tc_action_type last_node))
            else []) @
           signal (tc_action_type last_node = ''shell'' \<and> list_ex (\<lambda>n. tc_action_type n = ''http'') prior) 25 NetworkDeliveredExecution))"

definition structural_signals :: "session_dag \<Rightarrow> (u32 \<times> anomaly_reason) list" where
  "structural_signals s =
     (let ns = sd_nodes s; tools = card (set (map tc_tool_name ns)); taints = \<Union> (set (map tc_taint_labels ns)) in
      signal (10 < tools) 20 (HighToolDiversity tools) @
      signal (4 \<le> card taints) 25 (HighTaintAccumulation (sorted_list_of_set taints)) @
      (if 50 < length ns then signal True 30 (ExtremelyDeepSession (length ns))
       else signal (25 < length ns) 15 (DeepSession (length ns))) @
      arc_signals ns)"

definition saturating_u64_sub :: "u64 \<Rightarrow> u64 \<Rightarrow> u64" where
  "saturating_u64_sub a b = (if a \<le> b then 0 else a - b)"

definition advisory_signals :: "u64 \<Rightarrow> session_dag \<Rightarrow> (u32 \<times> anomaly_reason) list" where
  "advisory_signals now s =
     (let penalty = min (sd_block_count s * 15) 45;
          recent = length (filter (\<lambda>n. saturating_u64_sub now (tc_timestamp n) < 10000) (sd_nodes s)) in
      signal (0 < sd_block_count s) penalty (PriorBlockHistory (sd_block_count s) penalty) @
      (if 15 < recent then signal True 30 (BurstCalls recent)
       else signal (8 < recent) 15 (ElevatedFrequency recent)))"

definition total_score :: "(u32 \<times> anomaly_reason) list \<Rightarrow> u32" where
  "total_score signals = min (sum_list (map fst signals)) 100"

definition detect_anomalies ::
  "u64 \<Rightarrow> session_dag \<Rightarrow> u32 \<times> anomaly_reason list \<times> u32 \<times> anomaly_reason list" where
  "detect_anomalies now s =
     (let str = structural_signals s; adv = advisory_signals now s
      in (total_score str, map snd str, total_score adv, map snd adv))"

section \<open>The session store\<close>

text \<open>
  The limits are read from the environment once. One call of \<open>add_tool_call_to_session\<close> reads the
  wall clock at most nine times; the readings need not increase.
\<close>

record session_config =
  MAX_SESSIONS :: nat
  SESSION_TTL_MS :: u64
  BLOCK_COOLDOWN_MS :: u64
  MAX_BLOCK_COUNT :: u32

definition default_session_config :: session_config where
  "default_session_config =
     \<lparr>MAX_SESSIONS = 10000, SESSION_TTL_MS = 1800000, BLOCK_COOLDOWN_MS = 60000, MAX_BLOCK_COUNT = 3\<rparr>"

record clock_readings =
  at_evict :: u64
  at_created :: u64
  at_opened :: u64
  at_activity :: u64
  at_cooldown :: u64
  at_node :: u64
  at_refusal :: u64
  at_attack :: u64
  at_anomaly :: u64

type_synonym dag_store = "(string \<times> session_dag) list"

definition get_session :: "dag_store \<Rightarrow> string \<Rightarrow> session_dag option" where
  "get_session store session_id = map_of store session_id"

definition hydrate_session :: "session_dag \<Rightarrow> dag_store \<Rightarrow> dag_store" where
  "hydrate_session session store = AList.update (sd_session_id session) session store"

definition retain_recent :: "u64 \<Rightarrow> u64 \<Rightarrow> dag_store \<Rightarrow> dag_store" where
  "retain_recent now ttl store = filter (\<lambda>(_, s). saturating_u64_sub now (sd_last_activity s) < ttl) store"

definition prune_stale_sessions :: "u64 \<Rightarrow> u64 \<Rightarrow> dag_store \<Rightarrow> nat \<times> dag_store" where
  "prune_stale_sessions now ttl_ms store =
     (let kept = retain_recent now ttl_ms store in (length store - length kept, kept))"

record session_analysis_result =
  sr_node_id :: string
  sr_session_id :: string
  sr_transition_allowed :: bool
  sr_previous_state :: string
  sr_new_state :: string
  sr_attacks_detected :: "attack_match list"
  sr_anomaly_score :: u32
  sr_anomaly_reasons :: "anomaly_reason list"
  sr_advisory_score :: u32
  sr_advisory_reasons :: "anomaly_reason list"
  sr_session_call_count :: u32
  sr_recent_call_timestamps :: "u64 list"

section \<open>Recording a call\<close>

definition to_le_bytes :: "u64 \<Rightarrow> bytes" where
  "to_le_bytes w = map (\<lambda>i. ucast (drop_bit (8 * i) w)) [0..<8]"

definition node_preimage :: "string \<Rightarrow> nat \<Rightarrow> string \<Rightarrow> string \<Rightarrow> bytes" where
  "node_preimage session_id index tool_name action_type =
     as_bytes session_id @ [0x1f] @ to_le_bytes (of_nat index) @ [0x1f] @ as_bytes tool_name @ [0x1f] @ as_bytes action_type"

definition derive_node_id :: "(bytes \<Rightarrow> string) \<Rightarrow> string \<Rightarrow> nat \<Rightarrow> string \<Rightarrow> string \<Rightarrow> string" where
  "derive_node_id h session_id index tool_name action_type = h (node_preimage session_id index tool_name action_type)"

text \<open>The eviction at capacity, then the entry of the session.\<close>

definition make_room :: "session_config \<Rightarrow> clock_readings \<Rightarrow> string \<Rightarrow> dag_store \<Rightarrow> dag_store" where
  "make_room cfg clk session_id store =
     (if map_of store session_id = None \<and> MAX_SESSIONS cfg \<le> length store
      then retain_recent (at_evict clk) (SESSION_TTL_MS cfg) store else store)"

definition new_session :: "clock_readings \<Rightarrow> string \<Rightarrow> string \<Rightarrow> session_dag" where
  "new_session clk session_id agent_id =
     \<lparr>sd_session_id = session_id, sd_agent_id = agent_id, sd_nodes = [], sd_edges = [], sd_created_at = at_created clk,
      sd_last_activity = at_opened clk, sd_state = FIdle, sd_blocked = False, sd_block_reason = None, sd_blocked_at = 0,
      sd_block_count = 0\<rparr>"

definition enter_session :: "clock_readings \<Rightarrow> string \<Rightarrow> string \<Rightarrow> dag_store \<Rightarrow> session_dag" where
  "enter_session clk session_id agent_id store =
     (case map_of store session_id of Some s \<Rightarrow> s | None \<Rightarrow> new_session clk session_id agent_id)\<lparr>sd_last_activity := at_activity clk\<rparr>"

text \<open>The early returns of a blocked session share everything but the score and the reason.\<close>

definition refused_result :: "string \<Rightarrow> session_dag \<Rightarrow> u32 \<Rightarrow> anomaly_reason \<Rightarrow> session_analysis_result" where
  "refused_result session_id s points why =
     \<lparr>sr_node_id = [], sr_session_id = session_id, sr_transition_allowed = False, sr_previous_state = show_fsa (sd_state s),
      sr_new_state = ''blocked'', sr_attacks_detected = [], sr_anomaly_score = points, sr_anomaly_reasons = [why],
      sr_advisory_score = 0, sr_advisory_reasons = [], sr_session_call_count = of_nat (length (sd_nodes s)),
      sr_recent_call_timestamps = collect_recent_timestamps s 16\<rparr>"

definition stated_reason :: "session_dag \<Rightarrow> string" where
  "stated_reason s = (case sd_block_reason s of Some r \<Rightarrow> r | None \<Rightarrow> ''unknown'')"

definition decay_block ::
  "session_config \<Rightarrow> clock_readings \<Rightarrow> string \<Rightarrow> session_dag \<Rightarrow> session_analysis_result + session_dag" where
  "decay_block cfg clk session_id s =
     (if sd_blocked s then
        (let elapsed = saturating_u64_sub (at_cooldown clk) (sd_blocked_at s) in
         if MAX_BLOCK_COUNT cfg \<le> sd_block_count s then
           Inl (refused_result session_id s 100 (PermanentlyBlocked (sd_block_count s) (stated_reason s)))
         else if elapsed < BLOCK_COOLDOWN_MS cfg then
           Inl (refused_result session_id s 80 (InCooldown (BLOCK_COOLDOWN_MS cfg - elapsed) (stated_reason s)))
         else Inr (s\<lparr>sd_blocked := False, sd_block_reason := None, sd_state := FProcessing\<rparr>))
      else Inr s)"

definition push_call ::
  "(bytes \<Rightarrow> string) \<Rightarrow> clock_readings \<Rightarrow> string \<Rightarrow> string \<Rightarrow> string \<Rightarrow> string \<Rightarrow> string set \<Rightarrow> session_dag \<Rightarrow> tool_call_node \<times> session_dag" where
  "push_call h clk session_id agent_id tool_name action_type taint_labels s =
     (let node_id = derive_node_id h session_id (length (sd_nodes s)) tool_name action_type;
          node = \<lparr>tc_id = node_id, tc_agent_id = agent_id, tc_tool_name = tool_name, tc_action_type = action_type,
            tc_timestamp = at_node clk,
            tc_taint_labels = taint_labels \<union> (if sd_nodes s = [] then {} else tc_taint_labels (last (sd_nodes s))),
            tc_risk_score = 0\<rparr>;
          edges = (if sd_nodes s = [] then []
            else [\<lparr>ed_from = tc_id (last (sd_nodes s)), ed_to = node_id, ed_data_keys = [''implicit_sequence''],
                   ed_taint_propagated = tc_taint_labels (last (sd_nodes s))\<rparr>])
      in (node, s\<lparr>sd_edges := sd_edges s @ edges, sd_nodes := sd_nodes s @ [node]\<rparr>))"

text \<open>The arrow of the reason is the UTF-8 encoding of U+2192.\<close>

definition apply_transition :: "clock_readings \<Rightarrow> string \<Rightarrow> tool_call_node \<Rightarrow> session_dag \<Rightarrow> bool \<times> session_dag" where
  "apply_transition clk agent_id node s =
     (case check_transition (sd_state s) (tc_action_type node) (tc_taint_labels node) of
        (True, next_state) \<Rightarrow> (True, s\<lparr>sd_state := next_state\<rparr>)
      | (False, _) \<Rightarrow> (False, s\<lparr>sd_blocked := True, sd_blocked_at := at_refusal clk, sd_block_count := sd_block_count s + 1,
          sd_block_reason := Some (''unauthorized FSA transition: '' @ show_fsa (sd_state s) @ '' '' @ [CHR 0xE2, CHR 0x86, CHR 0x92]
            @ '' '' @ tc_action_type node @ '' (by '' @ agent_id @ '')''),
          sd_state := FBlocked\<rparr>))"

definition attack_reason :: "attack_match list \<Rightarrow> string" where
  "attack_reason attacks =
     (let chain = remdups_adj (sort (concat (map am_agents attacks))) in
      ''attack pattern: '' @ join_with '', '' (map am_name attacks)
      @ (if chain = [] then [] else '' (chain by: '' @ join_with '', '' chain @ '')''))"

definition is_critical :: "attack_match \<Rightarrow> bool" where
  "is_critical a \<longleftrightarrow> am_severity a = ''critical''"

definition apply_attacks :: "clock_readings \<Rightarrow> attack_match list \<Rightarrow> bool \<times> session_dag \<Rightarrow> bool \<times> session_dag" where
  "apply_attacks clk attacks = (\<lambda>(allowed, s).
     if list_ex is_critical attacks then
       (False, s\<lparr>sd_block_count := (if sd_blocked s then sd_block_count s else sd_block_count s + 1), sd_blocked := True,
          sd_blocked_at := at_attack clk, sd_block_reason := Some (attack_reason attacks), sd_state := FBlocked\<rparr>)
     else (allowed, s))"

definition evaluate_call ::
  "(bytes \<Rightarrow> string) \<Rightarrow> clock_readings \<Rightarrow> string \<Rightarrow> string \<Rightarrow> string \<Rightarrow> string \<Rightarrow> string set \<Rightarrow> session_dag
   \<Rightarrow> session_analysis_result \<times> session_dag" where
  "evaluate_call h clk session_id agent_id tool_name action_type taint_labels s =
     (let (node, s1) = push_call h clk session_id agent_id tool_name action_type taint_labels s;
          (allowed1, s2) = apply_transition clk agent_id node s1;
          attacks = match_attack_signatures s2;
          (allowed, s3) = apply_attacks clk attacks (allowed1, s2);
          (anomaly, reasons, advisory, advisory_reasons) = detect_anomalies (at_anomaly clk) s3
      in (\<lparr>sr_node_id = tc_id node, sr_session_id = session_id, sr_transition_allowed = allowed,
           sr_previous_state = show_fsa (sd_state s), sr_new_state = show_fsa (sd_state s3), sr_attacks_detected = attacks,
           sr_anomaly_score = anomaly, sr_anomaly_reasons = reasons, sr_advisory_score = advisory,
           sr_advisory_reasons = advisory_reasons, sr_session_call_count = of_nat (length (sd_nodes s3)),
           sr_recent_call_timestamps = collect_recent_timestamps s3 16\<rparr>, s3))"

definition add_tool_call_to_session ::
  "(bytes \<Rightarrow> string) \<Rightarrow> session_config \<Rightarrow> clock_readings \<Rightarrow> string \<Rightarrow> string \<Rightarrow> string \<Rightarrow> string \<Rightarrow> string set \<Rightarrow> dag_store
   \<Rightarrow> session_analysis_result \<times> dag_store" where
  "add_tool_call_to_session h cfg clk session_id agent_id tool_name action_type taint_labels store =
     (let store1 = make_room cfg clk session_id store;
          s = enter_session clk session_id agent_id store1
      in case decay_block cfg clk session_id s of
          Inl refusal \<Rightarrow> (refusal, AList.update session_id s store1)
        | Inr s1 \<Rightarrow> (let (result, s2) = evaluate_call h clk session_id agent_id tool_name action_type taint_labels s1
            in (result, AList.update session_id s2 store1)))"

section \<open>Queries\<close>

record session_info =
  si_session_id :: string
  si_agent_id :: string
  si_node_count :: nat
  si_state :: fsa_state

definition list_active_sessions :: "dag_store \<Rightarrow> session_info list" where
  "list_active_sessions store =
     sort_key si_session_id
       (map (\<lambda>(_, s). \<lparr>si_session_id = sd_session_id s, si_agent_id = sd_agent_id s, si_node_count = length (sd_nodes s),
          si_state = sd_state s\<rparr>) store)"

record session_metrics =
  sm_node_count :: nat
  sm_edge_count :: nat
  sm_state :: fsa_state
  sm_taint_labels :: "string set"
  sm_duration_ms :: u64

definition get_session_metrics :: "dag_store \<Rightarrow> string \<Rightarrow> session_metrics option" where
  "get_session_metrics store session_id =
     map_option (\<lambda>s. \<lparr>sm_node_count = length (sd_nodes s), sm_edge_count = length (sd_edges s), sm_state = sd_state s,
       sm_taint_labels = \<Union> (set (map tc_taint_labels (sd_nodes s))),
       sm_duration_ms = saturating_u64_sub (sd_last_activity s) (sd_created_at s)\<rparr>) (map_of store session_id)"

end
