(* ===== verification/Rust_Floats.thy ===== *)
theory Rust_Floats
  imports Json_Model Rust_Strings "HOL-Library.Log_Nat"
begin

text \<open>
  IEEE double arithmetic on finite values, as the risk scores use it: a double is a rational with a
  53-bit significand, and an operation rounds its exact result to the nearest one, ties to the even
  significand. The scores stay far from the overflow and underflow limits, which are not modelled.
\<close>

definition round_half_even :: "rat \<Rightarrow> int" where
  "round_half_even x =
     (let f = \<lfloor>x\<rfloor>; d = x - of_int f in
      if d < 1 / 2 then f else if 1 / 2 < d then f + 1 else if even f then f else f + 1)"

text \<open>\<open>f64::round\<close> on values that are not negative: ties away from zero.\<close>

definition round_half_up :: "rat \<Rightarrow> int" where
  "round_half_up x = \<lfloor>x + 1 / 2\<rfloor>"

definition pow2 :: "int \<Rightarrow> rat" where
  "pow2 k = (if 0 \<le> k then 2 ^ nat k else 1 / 2 ^ nat (- k))"

text \<open>The largest \<open>k\<close> with \<open>pow2 k \<le> x\<close>, for \<open>x\<close> above zero.\<close>

definition binade :: "rat \<Rightarrow> int" where
  "binade x =
     (let (p, q) = quotient_of x; k = int (floorlog 2 (nat p)) - int (floorlog 2 (nat q))
      in if pow2 k \<le> x then k else k - 1)"

definition rnd64 :: "rat \<Rightarrow> rat" where
  "rnd64 x =
     (if x = 0 then 0
      else let u = pow2 (binade \<bar>x\<bar> - 52) in sgn x * of_int (round_half_even (\<bar>x\<bar> / u)) * u)"

definition fadd :: "rat \<Rightarrow> rat \<Rightarrow> rat" where
  "fadd x y = rnd64 (x + y)"

definition fmul :: "rat \<Rightarrow> rat \<Rightarrow> rat" where
  "fmul x y = rnd64 (x * y)"

definition fdiv :: "rat \<Rightarrow> rat \<Rightarrow> rat" where
  "fdiv x y = rnd64 (x / y)"

text \<open>\<open>as u32\<close> saturates.\<close>

definition f64_as_u32 :: "rat \<Rightarrow> u32" where
  "f64_as_u32 x = of_nat (min (nat \<lfloor>x\<rfloor>) (2 ^ 32 - 1))"

text \<open>\<open>{:.d}\<close> of a double that is not negative: \<open>d\<close> decimals, rounded.\<close>

definition show_fixed :: "nat \<Rightarrow> rat \<Rightarrow> string" where
  "show_fixed d x =
     (let n = nat (round_half_even (x * 10 ^ d)); f = show_nat (n mod 10 ^ d) in
      show_nat (n div 10 ^ d) @ ''.'' @ replicate (d - length f) (CHR ''0'') @ f)"

section \<open>Rounding\<close>

lemma round_half_even_error: "\<bar>of_int (round_half_even x) - x\<bar> \<le> 1 / 2"
proof -
  define f where "f = \<lfloor>x\<rfloor>"
  have lower: "of_int f \<le> x" unfolding f_def by (rule of_int_floor_le)
  have upper: "x < of_int f + 1" unfolding f_def by (rule floor_less_iff [THEN iffD1, of x "\<lfloor>x\<rfloor> + 1", simplified])
  show ?thesis unfolding round_half_even_def Let_def f_def [symmetric]
    using lower upper by (simp add: abs_if del: floor_of_int)
qed

lemma round_half_even_int [simp]: "round_half_even (of_int n) = n"
  by (simp add: round_half_even_def)

lemma pow2_pos [simp]: "0 < pow2 k"
  by (simp add: pow2_def)

lemma pow2_nonneg [simp]: "0 \<le> pow2 k"
  by (simp add: pow2_def)

lemma rnd64_0 [simp]: "rnd64 0 = 0"
  by (simp add: rnd64_def)

text \<open>Rounding moves a value by at most half of its last place.\<close>

lemma rnd64_error: "\<bar>rnd64 x - x\<bar> \<le> pow2 (binade \<bar>x\<bar> - 52) / 2"
proof (cases "x = 0")
  case False
  let ?u = "pow2 (binade \<bar>x\<bar> - 52)" and ?m = "of_int (round_half_even (\<bar>x\<bar> / pow2 (binade \<bar>x\<bar> - 52))) :: rat"
  have "rnd64 x - x = sgn x * (?m - \<bar>x\<bar> / ?u) * ?u"
    using False less_imp_neq [OF pow2_pos, of "binade \<bar>x\<bar> - 52"] mult_sgn_abs [of x]
    by (simp add: rnd64_def Let_def algebra_simps)
  then have "\<bar>rnd64 x - x\<bar> = \<bar>?m - \<bar>x\<bar> / ?u\<bar> * ?u"
    using False less_imp_le [OF pow2_pos] by (simp add: abs_mult abs_sgn_eq)
  also have "\<dots> \<le> 1 / 2 * ?u"
    using round_half_even_error by (intro mult_right_mono) auto
  finally show ?thesis by simp
qed (simp add: less_imp_le)

section \<open>Relative error\<close>

lemma pow2_powi: "pow2 k = 2 powi k"
  by (simp add: pow2_def power_int_def power_one_over [symmetric] inverse_eq_divide)

lemma pow2_add: "pow2 (j + k) = pow2 j * pow2 k"
  by (simp add: pow2_powi power_int_add)

lemma pow2_nat: "pow2 (int n) = 2 ^ n"
  by (simp add: pow2_def)

lemma floorlog_pow2:
  assumes "0 < n"
  shows "pow2 (int (floorlog 2 n) - 1) \<le> of_nat n" "of_nat n < pow2 (int (floorlog 2 n))"
proof -
  have b: "2 ^ (floorlog 2 n - 1) \<le> n" "n < 2 ^ floorlog 2 n" using floorlog_bounds [of n 2] assms by auto
  have "0 < floorlog 2 n" using b(2) assms by (cases "floorlog 2 n") auto
  then have "int (floorlog 2 n) - 1 = int (floorlog 2 n - 1)" by simp
  then show "pow2 (int (floorlog 2 n) - 1) \<le> of_nat n"
    using b(1) by (simp only: pow2_nat) (metis of_nat_le_iff of_nat_numeral of_nat_power)
  show "of_nat n < pow2 (int (floorlog 2 n))"
    using b(2) by (simp only: pow2_nat) (metis of_nat_less_iff of_nat_numeral of_nat_power)
qed

lemma binade_le:
  assumes "0 < x"
  shows "pow2 (binade x) \<le> x"
proof -
  obtain p q where pq: "quotient_of x = (p, q)" by fastforce
  then have q: "0 < q" and x: "x = of_int p / of_int q" by (simp_all add: quotient_of_denom_pos quotient_of_div)
  have p: "0 < p" using assms x q by (simp add: zero_less_divide_iff)
  define a b where "a = int (floorlog 2 (nat p))" and "b = int (floorlog 2 (nat q))"
  have pa: "pow2 (a - 1) \<le> of_int p" and qb: "of_int q < pow2 b"
    using floorlog_pow2 [of "nat p"] floorlog_pow2 [of "nat q"] p q by (simp_all add: a_def b_def)
  have "pow2 (a - b - 1) * of_int q \<le> pow2 (a - b - 1) * pow2 b" using qb by (intro mult_left_mono) auto
  also have "\<dots> = pow2 (a - 1)" by (simp add: pow2_add [symmetric])
  also have "\<dots> \<le> of_int p" by (rule pa)
  finally have "pow2 (a - b - 1) \<le> x" using q by (simp add: x field_simps)
  then show ?thesis using pq by (simp add: binade_def Let_def a_def b_def)
qed

text \<open>One operation errs by at most one part in \<open>2 ^ 53\<close>.\<close>

lemma rnd64_relative: "\<bar>rnd64 x - x\<bar> \<le> \<bar>x\<bar> / 2 ^ 53"
proof (cases "x = 0")
  case False
  have "pow2 (binade \<bar>x\<bar> - 52) / 2 = pow2 (binade \<bar>x\<bar>) / 2 ^ 53"
    using pow2_add [of "binade \<bar>x\<bar>" "- 52"] by (simp add: pow2_def [of "- 52"])
  also have "\<dots> \<le> \<bar>x\<bar> / 2 ^ 53" using binade_le [of "\<bar>x\<bar>"] False by (intro divide_right_mono) auto
  finally show ?thesis using rnd64_error [of x] by simp
qed simp

lemma rnd64_le:
  assumes "x \<le> u" "0 \<le> u" "u + u / 2 ^ 53 \<le> v"
  shows "rnd64 x \<le> v"
proof (cases "0 \<le> x")
  case True
  then have "rnd64 x \<le> x + x / 2 ^ 53" using rnd64_relative [of x] unfolding abs_le_iff by simp
  also have "\<dots> \<le> u + u / 2 ^ 53" using assms(1) by (intro add_mono divide_right_mono) auto
  finally show ?thesis using assms(3) by simp
next
  case False
  have "(- x) / 2 ^ 53 \<le> - x" using False by (simp add: field_simps)
  then have "rnd64 x \<le> 0" using rnd64_relative [of x] False by (simp add: abs_le_iff)
  also have "0 \<le> u + u / 2 ^ 53" using assms(2) by simp
  finally show ?thesis using assms(3) by simp
qed

end
