(* ===== verification/Tool_Risk.thy ===== *)
theory Tool_Risk
  imports Governance_Types Rust_Floats
begin

text \<open>
  The composite risk score of \<open>crates/iaga-sentinel-core/src/modules/policy/tool_risk.rs\<close> and the plan
  for requested secrets (\<open>modules/secrets\<close>). Whether a regular expression matches is a parameter.
\<close>

section \<open>Scores and patterns\<close>

record risk_score =
  rs_score :: u32
  rs_decision :: governance_decision
  rs_reasons :: "string list"

text \<open>The backslash of the patterns is \<open>CHR 0x5C\<close>.\<close>

definition HIGH_RISK_PATTERNS :: "string list" where
  "HIGH_RISK_PATTERNS =
     [''(?i)rm'' @ [CHR 0x5C] @ ''s+-rf'', ''(?i)chmod'' @ [CHR 0x5C] @ ''s+777'', ''(?i)curl.+'' @ [CHR 0x5C] @ ''|.+sh'',
      ''(?i)powershell.+-enc'', ''(?i)base64'']"

definition SUSPICIOUS_URL_PATTERNS :: "string list" where
  "SUSPICIOUS_URL_PATTERNS = [''(?i)ngrok'', ''(?i)pastebin'', ''(?i)discordapp'']"

definition THRESHOLD_BLOCK :: u32 where "THRESHOLD_BLOCK = 70"
definition THRESHOLD_REVIEW :: u32 where "THRESHOLD_REVIEW = 35"

record layer_risk_contributions =
  lr_firewall :: u32
  lr_threat_intel :: u32
  lr_taint :: u32
  lr_session_graph :: u32
  lr_adaptive :: u32
  lr_behavioral :: u32
  lr_policy :: u32
  lr_secrets :: u32
  lr_plugins :: u32

definition no_layer_risks :: layer_risk_contributions where
  "no_layer_risks = \<lparr>lr_firewall = 0, lr_threat_intel = 0, lr_taint = 0, lr_session_graph = 0, lr_adaptive = 0,
     lr_behavioral = 0, lr_policy = 0, lr_secrets = 0, lr_plugins = 0\<rparr>"

section \<open>The score\<close>

text \<open>One local pattern that holds: its points and its reason.\<close>

definition hit :: "bool \<Rightarrow> u32 \<Rightarrow> string \<Rightarrow> (u32 \<times> string) list" where
  "hit c points why = (if c then [(points, why)] else [])"

definition local_hits ::
  "(string \<Rightarrow> string \<Rightarrow> bool) \<Rightarrow> inspect_request \<Rightarrow> string list \<Rightarrow> string \<Rightarrow> (u32 \<times> string) list" where
  "local_hits is_match input findings payload_text =
     hit (ad_action_type (ir_action input) = Shell) 25 ''shell execution requires elevated scrutiny'' @
     concat (map (\<lambda>p. hit (is_match p payload_text) 40 (''matched high-risk pattern: '' @ p)) HIGH_RISK_PATTERNS) @
     concat (map (\<lambda>p. hit (is_match p payload_text) 25 (''matched suspicious destination: '' @ p)) SUSPICIOUS_URL_PATTERNS) @
     hit (ir_requested_secrets input \<noteq> None \<and> ir_requested_secrets input \<noteq> Some []) 15 ''action requests dynamic secret injection'' @
     hit (ad_action_type (ir_action input) = DbQuery) 20 ''database access should be policy-gated'' @
     hit (list_ex (\<lambda>f. sublist ''outside baseline'' f) findings) 20 ''behavior deviates from baseline''"

definition pattern_score :: "(u32 \<times> string) list \<Rightarrow> u32" where
  "pattern_score hits = min (sum_list (map fst hits)) 100"

text \<open>\<open>x as f64 * w\<close>, where the literal \<open>w\<close> is the double nearest to its decimal value.\<close>

definition weighted :: "u32 \<Rightarrow> rat \<Rightarrow> rat" where
  "weighted x w = fmul (of_nat (unat x)) (rnd64 w)"

definition composite :: "u32 \<Rightarrow> layer_risk_contributions \<Rightarrow> rat" where
  "composite pattern ls =
     fold (\<lambda>term acc. fadd acc term)
       [weighted (lr_adaptive ls) (20 / 100), weighted (lr_firewall ls) (20 / 100),
        weighted (max (lr_policy ls) (lr_behavioral ls)) (15 / 100), weighted (max (lr_taint ls) (lr_threat_intel ls)) (15 / 100),
        weighted (lr_secrets ls) (10 / 100), weighted (lr_session_graph ls) (5 / 100), weighted (lr_plugins ls) (10 / 100)]
       (weighted pattern (15 / 100))"

definition raw_score :: "rat \<Rightarrow> u32" where
  "raw_score c = min (f64_as_u32 (of_int (round_half_up c))) 100"

text \<open>\<open>{:.0}\<close> of a double.\<close>

definition show_rounded :: "rat \<Rightarrow> string" where
  "show_rounded c = show_nat (nat (round_half_even c))"

text \<open>The findings that explain an escalation, each once.\<close>

definition MATCHED_TEXT :: string where
  "MATCHED_TEXT = ''matched registered tool and workspace policy''"

fun surface_findings :: "string list \<Rightarrow> string list \<Rightarrow> string list" where
  "surface_findings [] rs = rs"
| "surface_findings (f # fs) rs = surface_findings fs (if sublist MATCHED_TEXT f \<or> f \<in> set rs then rs else rs @ [f])"

definition saturating_u32_sub :: "u32 \<Rightarrow> u32 \<Rightarrow> u32" where
  "saturating_u32_sub a b = (if a \<le> b then 0 else a - b)"

definition escalate :: "u32 \<Rightarrow> u32 \<Rightarrow> u32 \<Rightarrow> u32" where
  "escalate base headroom s = base + min (s * headroom div 100) headroom"

definition adjust_score ::
  "governance_decision \<Rightarrow> u32 \<Rightarrow> u32 \<Rightarrow> rat \<Rightarrow> u32 \<times> string list \<Rightarrow> u32 \<times> string list" where
  "adjust_score minimum threshold_block threshold_review c = (\<lambda>(s, reasons).
     (case minimum of
        GBlock \<Rightarrow>
          (if s < threshold_block then
             (escalate threshold_block (saturating_u32_sub 100 threshold_block) s,
              reasons @ [''escalated by security layers (raw composite: '' @ show_rounded c @ '')''])
           else (s, reasons))
      | GReview \<Rightarrow>
          (if s < threshold_review then
             (escalate threshold_review (saturating_u32_sub threshold_block threshold_review) s,
              reasons @ [''escalated to review by security layers (raw composite: '' @ show_rounded c @ '')''])
           else (s, reasons))
      | GAllow \<Rightarrow> (s, reasons)))"

definition score_decision :: "u32 \<Rightarrow> u32 \<Rightarrow> u32 \<Rightarrow> governance_decision" where
  "score_decision threshold_block threshold_review s =
     (if threshold_block \<le> s then GBlock else if threshold_review \<le> s then GReview else GAllow)"

definition fallback_reason :: "governance_decision \<Rightarrow> u32 \<Rightarrow> u32 \<Rightarrow> u32 \<Rightarrow> string" where
  "fallback_reason d s threshold_block threshold_review =
     (case d of
        GAllow \<Rightarrow> ''no high-risk rule matched''
      | GReview \<Rightarrow> ''composite risk score '' @ show_nat (unat s) @ '' reached the review threshold ('' @ show_nat (unat threshold_review) @
          ''); no single layer vetoed''
      | GBlock \<Rightarrow> ''composite risk score '' @ show_nat (unat s) @ '' reached the block threshold ('' @ show_nat (unat threshold_block) @
          ''); no single layer vetoed'')"

definition score_tool_risk_with_thresholds ::
  "(string \<Rightarrow> string \<Rightarrow> bool) \<Rightarrow> inspect_request \<Rightarrow> governance_decision \<Rightarrow> string list \<Rightarrow> layer_risk_contributions
   \<Rightarrow> string \<Rightarrow> u32 \<Rightarrow> u32 \<Rightarrow> risk_score" where
  "score_tool_risk_with_thresholds is_match input minimum findings layers payload_text threshold_block threshold_review =
     (let hits = local_hits is_match input findings payload_text;
          c = composite (pattern_score hits) layers;
          reasons1 = (if minimum \<noteq> GAllow then surface_findings findings (map snd hits) else map snd hits);
          (s1, reasons2) = adjust_score minimum threshold_block threshold_review c (raw_score c, reasons1);
          s = min s1 100;
          by_score = score_decision threshold_block threshold_review s;
          final = (if by_score < minimum then minimum else by_score);
          reasons3 = (if reasons2 = [] then [fallback_reason final s threshold_block threshold_review] else reasons2)
      in \<lparr>rs_score = s, rs_decision = final, rs_reasons = remdups_adj (sort reasons3)\<rparr>)"

section \<open>Secrets\<close>

definition SECRET_REF_PREFIX :: string where
  "SECRET_REF_PREFIX = ''secretref://''"

definition DEMO_VAULT :: "string set" where
  "DEMO_VAULT = {''secretref://prod/github/token'', ''secretref://prod/slack/webhook''}"

definition secret_exists :: "string \<Rightarrow> bool" where
  "secret_exists secret_ref \<longleftrightarrow> secret_ref \<in> DEMO_VAULT"

record secret_injection_plan =
  sp_approved :: "string list"
  sp_denied :: "string list"

definition secret_approved :: "agent_profile \<Rightarrow> string \<Rightarrow> bool" where
  "secret_approved profile r =
     (if \<not> prefix SECRET_REF_PREFIX r then False
      else if \<not> secret_exists r then False
      else r \<in> set (ap_approved_secrets profile))"

definition plan_secret_injection :: "inspect_request \<Rightarrow> agent_profile \<Rightarrow> secret_injection_plan" where
  "plan_secret_injection input profile =
     (case ir_requested_secrets input of
        None \<Rightarrow> \<lparr>sp_approved = [], sp_denied = []\<rparr>
      | Some secrets \<Rightarrow>
          \<lparr>sp_approved = filter (secret_approved profile) secrets, sp_denied = filter (\<lambda>r. \<not> secret_approved profile r) secrets\<rparr>)"

end
