(* ===== verification/Rules_Engine.thy ===== *)
theory Rules_Engine
  imports Governance_Types
begin

text \<open>
  Workspace rules: \<open>crates/iaga-sentinel-core/src/modules/policy/rules_engine.rs\<close> and
  \<open>time_window.rs\<close>. What the calendar library does is a parameter: parsing a time of day, and the
  time of day and the weekday of an instant at a fixed offset from UTC. So are the case table of
  \<open>to_lowercase\<close> and the printing of a payload.
\<close>

section \<open>Time windows\<close>

text \<open>A time of day is its number of seconds; a weekday counts from Monday at zero.\<close>

record calendar_lib =
  cl_parse_hm :: "string \<Rightarrow> nat option"
  cl_local :: "int \<Rightarrow> nat \<Rightarrow> nat \<times> nat"

record time_window =
  tw_start :: string
  tw_end :: string
  tw_timezone :: string
  tw_days :: "string list"

definition parse_number :: "string \<Rightarrow> nat" where
  "parse_number s = fold (\<lambda>ch n. 10 * n + (of_char ch - 48)) s 0"

definition is_ascii_digit :: "char \<Rightarrow> bool" where
  "is_ascii_digit ch \<longleftrightarrow> 48 \<le> (of_char ch :: nat) \<and> (of_char ch :: nat) \<le> 57"

text \<open>\<open>None\<close> when the name is not a fixed offset; an offset is in seconds east of UTC.\<close>

definition parse_fixed_offset :: "string \<Rightarrow> int option" where
  "parse_fixed_offset tz =
     (let t = str_trim tz in
      if t = [] \<or> eq_ignore_ascii_case t ''utc'' \<or> eq_ignore_ascii_case t ''gmt'' \<or> t = ''Z'' then Some 0
      else if \<not> prefix ''+'' t \<and> \<not> prefix ''-'' t then None
      else
        (let sign = (if prefix ''+'' t then 1 else - 1 :: int); digits = filter is_ascii_digit (tl t);
             hm = (if length digits = 4 then Some (parse_number (take 2 digits), parse_number (drop 2 digits))
               else if length digits = 2 then Some (parse_number digits, 0) else None)
         in case hm of
             None \<Rightarrow> None
           | Some (h, m) \<Rightarrow> if 23 < h \<or> 59 < m then None else Some (sign * int (h * 3600 + m * 60))))"

definition resolve_offset :: "string \<Rightarrow> int" where
  "resolve_offset tz = (case parse_fixed_offset tz of Some z \<Rightarrow> z | None \<Rightarrow> 0)"

definition weekday_names :: "string list" where
  "weekday_names = [''monday'', ''tuesday'', ''wednesday'', ''thursday'', ''friday'', ''saturday'', ''sunday'']"

definition is_active_at :: "calendar_lib \<Rightarrow> (string \<Rightarrow> string) \<Rightarrow> time_window \<Rightarrow> nat \<Rightarrow> bool" where
  "is_active_at cl tbl w now =
     (case (cl_parse_hm cl (tw_start w), cl_parse_hm cl (tw_end w)) of
        (Some start, Some stop) \<Rightarrow>
          (let (current, day) = cl_local cl (resolve_offset (tw_timezone w)) now;
               in_time = (if start \<le> stop then start \<le> current \<and> current \<le> stop else start \<le> current \<or> current \<le> stop)
           in in_time \<and> (tw_days w = [] \<or> weekday_names ! day \<in> set (map (lowercase tbl) (tw_days w))))
      | _ \<Rightarrow> True)"

section \<open>Rules\<close>

record match_criteria =
  mc_action_type :: "action_type list"
  mc_tool_name :: "string list"
  mc_agent_role :: "agent_role list"
  mc_agent_id :: "string list"
  mc_framework :: "string list"

record condition_set =
  cs_time_window :: "time_window option"
  cs_max_adaptive_score :: "u32 option"
  cs_min_adaptive_score :: "u32 option"
  cs_payload_contains :: "string list"
  cs_payload_excludes :: "string list"

record policy_rule =
  pr_id :: string
  pr_name :: string
  pr_priority :: i32
  pr_match_criteria :: match_criteria
  pr_conditions :: condition_set
  pr_decision :: governance_decision
  pr_reason :: "string option"
  pr_enabled :: bool

record rule_match =
  rm_rule_id :: string
  rm_rule_name :: string
  rm_decision :: governance_decision
  rm_reason :: string

definition tool_matches :: "string \<Rightarrow> string \<Rightarrow> bool" where
  "tool_matches tool pattern =
     (if CHR ''*'' \<in> set pattern then prefix (rev (dropWhile (\<lambda>ch. ch = CHR ''*'') (rev pattern))) tool else tool = pattern)"

definition matches_criteria :: "match_criteria \<Rightarrow> inspect_request \<Rightarrow> agent_role \<Rightarrow> bool" where
  "matches_criteria c input role =
     (if mc_action_type c \<noteq> [] \<and> ad_action_type (ir_action input) \<notin> set (mc_action_type c) then False
      else if mc_tool_name c \<noteq> [] \<and> \<not> list_ex (tool_matches (ad_tool_name (ir_action input))) (mc_tool_name c) then False
      else if mc_agent_role c \<noteq> [] \<and> role \<notin> set (mc_agent_role c) then False
      else if mc_agent_id c \<noteq> [] \<and> ir_agent_id input \<notin> set (mc_agent_id c) then False
      else if mc_framework c \<noteq> [] \<and> ir_framework input \<notin> set (mc_framework c) then False
      else True)"

definition check_conditions ::
  "calendar_lib \<Rightarrow> (string \<Rightarrow> string) \<Rightarrow> condition_set \<Rightarrow> string \<Rightarrow> u32 option \<Rightarrow> nat \<Rightarrow> bool" where
  "check_conditions cl tbl c payload_str current_risk decision_time =
     (if (case cs_time_window c of Some w \<Rightarrow> \<not> is_active_at cl tbl w decision_time | None \<Rightarrow> False) then False
      else if (case (cs_max_adaptive_score c, current_risk) of (Some mx, Some r) \<Rightarrow> mx < r | _ \<Rightarrow> False) then False
      else if (case (cs_min_adaptive_score c, current_risk) of (Some mn, Some r) \<Rightarrow> r < mn | _ \<Rightarrow> False) then False
      else list_all (\<lambda>s. sublist (lowercase tbl s) (lowercase tbl payload_str)) (cs_payload_contains c)
        \<and> \<not> list_ex (\<lambda>s. sublist (lowercase tbl s) (lowercase tbl payload_str)) (cs_payload_excludes c))"

fun debug_decision :: "governance_decision \<Rightarrow> string" where
  "debug_decision GAllow = ''Allow''"
| "debug_decision GReview = ''Review''"
| "debug_decision GBlock = ''Block''"

text \<open>The arrow of the reason is the UTF-8 encoding of U+2192.\<close>

definition rule_reason :: "policy_rule \<Rightarrow> string" where
  "rule_reason r =
     (case pr_reason r of
        Some why \<Rightarrow> why
      | None \<Rightarrow> ''policy rule '' @ [CHR 0x27] @ pr_name r @ [CHR 0x27] @ '' matched '' @ [CHR 0xE2, CHR 0x86, CHR 0x92] @ '' ''
          @ debug_decision (pr_decision r))"

definition rule_applies ::
  "calendar_lib \<Rightarrow> (string \<Rightarrow> string) \<Rightarrow> inspect_request \<Rightarrow> agent_role \<Rightarrow> string \<Rightarrow> u32 option \<Rightarrow> nat \<Rightarrow> policy_rule \<Rightarrow> bool" where
  "rule_applies cl tbl input role payload_str current_risk decision_time r \<longleftrightarrow>
     matches_criteria (pr_match_criteria r) input role \<and>
     check_conditions cl tbl (pr_conditions r) payload_str current_risk decision_time"

definition evaluate_rules ::
  "calendar_lib \<Rightarrow> (string \<Rightarrow> string) \<Rightarrow> (fields \<Rightarrow> string) \<Rightarrow> policy_rule list \<Rightarrow> inspect_request \<Rightarrow> agent_role
   \<Rightarrow> u32 option \<Rightarrow> nat \<Rightarrow> rule_match option" where
  "evaluate_rules cl tbl to_str rules input role current_risk decision_time =
     (let sorted_rules = sort_key (\<lambda>r. sint (pr_priority r)) (filter pr_enabled rules);
          payload_str = to_str (ad_payload (ir_action input))
      in map_option (\<lambda>r. \<lparr>rm_rule_id = pr_id r, rm_rule_name = pr_name r, rm_decision = pr_decision r, rm_reason = rule_reason r\<rparr>)
           (find (rule_applies cl tbl input role payload_str current_risk decision_time) sorted_rules))"

section \<open>The rule that decides\<close>

text \<open>
  The applied rule has the least priority among the enabled rules that apply, and comes first in the
  list among those of its priority.
\<close>

definition selects :: "(policy_rule \<Rightarrow> bool) \<Rightarrow> policy_rule list \<Rightarrow> policy_rule \<Rightarrow> bool" where
  "selects applies rules r \<longleftrightarrow>
     (\<exists>pre post. rules = pre @ r # post \<and> pr_enabled r \<and> applies r
        \<and> (\<forall>q \<in> set pre. pr_enabled q \<and> applies q \<longrightarrow> sint (pr_priority r) < sint (pr_priority q))
        \<and> (\<forall>q \<in> set post. pr_enabled q \<and> applies q \<longrightarrow> sint (pr_priority r) \<le> sint (pr_priority q)))"

lemma find_hd_filter: "find P xs = (case filter P xs of [] \<Rightarrow> None | x # _ \<Rightarrow> Some x)"
  by (induction xs) auto

lemma stable_minimum:
  assumes "sort_key k xs = x # ys"
  shows "\<exists>pre post. xs = pre @ x # post \<and> (\<forall>q \<in> set pre. k x < k q) \<and> (\<forall>q \<in> set post. k x \<le> k q)"
proof -
  have sorted: "sorted (map k (x # ys))" using sorted_sort_key [of k xs] assms by simp
  then have le: "\<forall>q \<in> set xs. k x \<le> k q" using set_sort [of k xs] assms by auto
  have "filter (\<lambda>y. k y = k x) xs = filter (\<lambda>y. k y = k x) (x # ys)"
    using sort_key_stable [of k "k x" xs] assms by simp
  then have "find (\<lambda>y. k y = k x) xs = Some x" by (simp add: find_hd_filter)
  then obtain pre post where split: "xs = pre @ x # post" "\<forall>y \<in> set pre. \<not> k y = k x"
    using find_split [of "\<lambda>y. k y = k x" xs x] by blast
  then show ?thesis using le by (intro exI [of _ pre] exI [of _ post]) force
qed

lemma filter_split:
  "filter P xs = pre @ x # post \<Longrightarrow> \<exists>pre' post'. xs = pre' @ x # post' \<and> pre = filter P pre' \<and> post = filter P post' \<and> P x"
proof (induction xs arbitrary: pre)
  case (Cons y ys)
  show ?case
  proof (cases "P y \<and> pre = []")
    case True
    then show ?thesis using Cons.prems by (intro exI [of _ "[]"] exI [of _ ys]) auto
  next
    case False
    then obtain pre1 where "filter P ys = pre1 @ x # post" "pre = filter P [y] @ pre1"
      using Cons.prems by (cases pre) (auto split: if_splits)
    then obtain pre2 post2 where "ys = pre2 @ x # post2" "pre1 = filter P pre2" "post = filter P post2" "P x"
      using Cons.IH by blast
    then show ?thesis
      using \<open>pre = filter P [y] @ pre1\<close> by (intro exI [of _ "y # pre2"] exI [of _ post2]) auto
  qed
qed simp

lemma find_selected:
  "find P (sort_key (\<lambda>r. sint (pr_priority r)) (filter pr_enabled rules)) = Some r \<Longrightarrow> selects P rules r"
proof -
  let ?k = "\<lambda>r. sint (pr_priority r)" and ?Q = "\<lambda>r. pr_enabled r \<and> P r"
  assume f: "find P (sort_key ?k (filter pr_enabled rules)) = Some r"
  have "filter P (sort_key ?k (filter pr_enabled rules)) = sort_key ?k (filter ?Q rules)"
    by (simp add: filter_sort conj_commute)
  with f obtain ys where "sort_key ?k (filter ?Q rules) = r # ys"
    by (auto simp: find_hd_filter split: list.splits)
  from stable_minimum [OF this] obtain pre post where 1: "filter ?Q rules = pre @ r # post"
      "\<forall>q \<in> set pre. ?k r < ?k q" "\<forall>q \<in> set post. ?k r \<le> ?k q" by blast
  obtain pre' post' where 2: "rules = pre' @ r # post'" "pre = filter ?Q pre'" "post = filter ?Q post'"
      "pr_enabled r" "P r"
    using filter_split [OF 1(1)] by (elim exE conjE)
  show ?thesis unfolding selects_def using 1(2,3) 2 by (intro exI [of _ pre'] exI [of _ post']) auto
qed

text \<open>What the engine returns, on both branches.\<close>

lemma evaluate_rules_Some:
  assumes "evaluate_rules cl tbl to_str rules input role risk now = Some m"
  shows "\<exists>r. selects (rule_applies cl tbl input role (to_str (ad_payload (ir_action input))) risk now) rules r
    \<and> rm_rule_id m = pr_id r \<and> rm_decision m = pr_decision r \<and> rm_reason m = rule_reason r"
  using assms by (auto simp: evaluate_rules_def Let_def dest: find_selected)

lemma evaluate_rules_None:
  "evaluate_rules cl tbl to_str rules input role risk now = None \<longleftrightarrow>
     (\<forall>r \<in> set rules. pr_enabled r \<longrightarrow> \<not> rule_applies cl tbl input role (to_str (ad_payload (ir_action input))) risk now r)"
  by (auto simp: evaluate_rules_def Let_def find_None_iff)

end
