(* ===== verification/Cost_Ledger.thy ===== *)
theory Cost_Ledger
  imports Governance_Types Rust_Floats "HOL-Library.AList"
begin

text \<open>
  Cost accounting: the canonical ledger and the price list of \<open>crates/iaga-sentinel-cost\<close>
  (\<open>usage.rs\<close>, \<open>pricing.rs\<close>, \<open>lib.rs\<close>), and the spend per session with its budget
  (\<open>modules/cost/spend_store.rs\<close> and \<open>pipeline/cost.rs\<close> of the core crate). Money is an integer number
  of micro-dollars; dollars are doubles. The case table of \<open>to_lowercase\<close> is a parameter.
\<close>

section \<open>Dollars and micro-dollars\<close>

text \<open>\<open>as u64\<close> saturates.\<close>

definition f64_as_u64 :: "rat \<Rightarrow> u64" where
  "f64_as_u64 x = of_nat (min (nat \<lfloor>x\<rfloor>) (2 ^ 64 - 1))"

definition usd_to_micros :: "f64 \<Rightarrow> u64" where
  "usd_to_micros usd =
     (case usd of
        Fin x \<Rightarrow> if x \<le> 0 then 0 else f64_as_u64 (of_int (round_half_up (fmul x 1000000)))
      | _ \<Rightarrow> 0)"

definition micros_to_usd :: "u64 \<Rightarrow> f64" where
  "micros_to_usd micros = Fin (fdiv (rnd64 (of_nat (unat micros))) 1000000)"

section \<open>The price list\<close>

record model_rate =
  mr_input_per_mtok_usd :: f64
  mr_output_per_mtok_usd :: f64

text \<open>The product of a finite double and a rate; a rate that is not finite yields no cost.\<close>

definition times_rate :: "rat \<Rightarrow> f64 \<Rightarrow> f64" where
  "times_rate x r = (case r of Fin y \<Rightarrow> Fin (fmul x y) | _ \<Rightarrow> NaN)"

definition saturating_add :: "u64 \<Rightarrow> u64 \<Rightarrow> u64" where
  "saturating_add a b = of_nat (min (unat a + unat b) (2 ^ 64 - 1))"

definition rate_cost_micros :: "model_rate \<Rightarrow> u64 \<Rightarrow> u64 \<Rightarrow> u64" where
  "rate_cost_micros r prompt_tokens completion_tokens =
     saturating_add
       (usd_to_micros (times_rate (fdiv (rnd64 (of_nat (unat prompt_tokens))) 1000000) (mr_input_per_mtok_usd r)))
       (usd_to_micros (times_rate (fdiv (rnd64 (of_nat (unat completion_tokens))) 1000000) (mr_output_per_mtok_usd r)))"

record pricing_table =
  pt_providers :: "(string \<times> (string \<times> model_rate) list) list"
  pt_default_rate :: "model_rate option"

definition rate_of :: "rat \<Rightarrow> rat \<Rightarrow> model_rate" where
  "rate_of input output = \<lparr>mr_input_per_mtok_usd = Fin (rnd64 input), mr_output_per_mtok_usd = Fin (rnd64 output)\<rparr>"

definition builtin_pricing :: pricing_table where
  "builtin_pricing =
     \<lparr>pt_providers =
        [(''anthropic'',
           [(''claude-opus-4-8'', rate_of 15 75), (''claude-opus-4-1'', rate_of 15 75), (''claude-sonnet-4-6'', rate_of 3 15),
            (''claude-sonnet-4-5'', rate_of 3 15), (''claude-haiku-4-5'', rate_of 1 5), (''claude-3-5-haiku'', rate_of (8 / 10) 4)]),
         (''openai'',
           [(''gpt-4o'', rate_of (25 / 10) 10), (''gpt-4o-mini'', rate_of (15 / 100) (6 / 10)), (''gpt-4-turbo'', rate_of 10 30),
            (''gpt-4.1'', rate_of 2 8), (''gpt-4.1-mini'', rate_of (4 / 10) (16 / 10))])],
      pt_default_rate = None\<rparr>"

definition lookup_rate :: "(string \<Rightarrow> string) \<Rightarrow> pricing_table \<Rightarrow> string \<Rightarrow> string \<Rightarrow> model_rate option" where
  "lookup_rate tbl t provider model =
     (case Option.bind (map_of (pt_providers t) (lowercase tbl provider)) (\<lambda>models. map_of models (lowercase tbl model)) of
        Some r \<Rightarrow> Some r
      | None \<Rightarrow> pt_default_rate t)"

definition table_cost_micros :: "(string \<Rightarrow> string) \<Rightarrow> pricing_table \<Rightarrow> string \<Rightarrow> string \<Rightarrow> u64 \<Rightarrow> u64 \<Rightarrow> u64 option" where
  "table_cost_micros tbl t provider model prompt_tokens completion_tokens =
     map_option (\<lambda>r. rate_cost_micros r prompt_tokens completion_tokens) (lookup_rate tbl t provider model)"

definition resolve_usage :: "(string \<Rightarrow> string) \<Rightarrow> usage_report \<Rightarrow> pricing_table \<Rightarrow> usage_data" where
  "resolve_usage tbl report t =
     (let prompt = (case ur_prompt_tokens report of Some n \<Rightarrow> n | None \<Rightarrow> 0);
          completion = (case ur_completion_tokens report of Some n \<Rightarrow> n | None \<Rightarrow> 0);
          total = (case ur_total_tokens report of
              Some n \<Rightarrow> Some n
            | None \<Rightarrow> (case (ur_prompt_tokens report, ur_completion_tokens report) of
                (Some p, Some c) \<Rightarrow> Some (saturating_add p c) | _ \<Rightarrow> None));
          (micros, source) = (case ur_cost_usd report of
              Some usd \<Rightarrow> (usd_to_micros usd, Caller)
            | None \<Rightarrow> (case table_cost_micros tbl t (ur_provider report) (ur_model report) prompt completion of
                Some m \<Rightarrow> (m, PricingTable) | None \<Rightarrow> (0, Unpriced)))
      in \<lparr>ud_provider = ur_provider report, ud_model = ur_model report, ud_prompt_tokens = ur_prompt_tokens report,
          ud_completion_tokens = ur_completion_tokens report, ud_total_tokens = total, ud_cost_micros = micros,
          ud_cache_hit = False, ud_savings_micros = None, ud_cost_source = source\<rparr>)"

definition resolve_for_request :: "(string \<Rightarrow> string) \<Rightarrow> pricing_table \<Rightarrow> inspect_request \<Rightarrow> usage_data option" where
  "resolve_for_request tbl t input = map_option (\<lambda>report. resolve_usage tbl report t) (ir_usage input)"

section \<open>Spend per session\<close>

record spend_key =
  sk_agent_id :: string
  sk_session_id :: string

text \<open>The session a request declares, or the agent.\<close>

definition session_key :: "inspect_request \<Rightarrow> string" where
  "session_key input =
     (case Option.bind (ir_metadata input) (\<lambda>m. str_field m ''sessionId'') of Some s \<Rightarrow> s | None \<Rightarrow> ir_agent_id input)"

definition spend_key_of :: "inspect_request \<Rightarrow> spend_key" where
  "spend_key_of input = \<lparr>sk_agent_id = ir_agent_id input, sk_session_id = session_key input\<rparr>"

type_synonym spend_store = "(spend_key \<times> u64) list"

definition spend_of :: "spend_store \<Rightarrow> spend_key \<Rightarrow> u64" where
  "spend_of store key = (case map_of store key of Some m \<Rightarrow> m | None \<Rightarrow> 0)"

definition session_spend_usd :: "spend_store \<Rightarrow> spend_key \<Rightarrow> f64" where
  "session_spend_usd store key = micros_to_usd (spend_of store key)"

definition add_spend :: "spend_key \<Rightarrow> u64 \<Rightarrow> spend_store \<Rightarrow> spend_store" where
  "add_spend key micros store = (if micros = 0 then store else AList.update key (spend_of store key + micros) store)"

text \<open>\<open>>\<close> on doubles.\<close>

definition f64_gt :: "f64 \<Rightarrow> f64 \<Rightarrow> bool" where
  "f64_gt a b =
     (case (a, b) of
        (NaN, _) \<Rightarrow> False | (_, NaN) \<Rightarrow> False
      | (Fin x, Fin y) \<Rightarrow> y < x
      | (PInf, PInf) \<Rightarrow> False | (PInf, _) \<Rightarrow> True
      | (NInf, _) \<Rightarrow> False | (_, NInf) \<Rightarrow> True | (_, PInf) \<Rightarrow> False)"

definition check_and_add :: "spend_key \<Rightarrow> f64 option \<Rightarrow> u64 \<Rightarrow> spend_store \<Rightarrow> bool \<times> spend_store" where
  "check_and_add key limit_usd micros store =
     (if (case limit_usd of Some limit \<Rightarrow> f64_gt (micros_to_usd (spend_of store key)) limit | None \<Rightarrow> False)
      then (False, store) else (True, add_spend key micros store))"

section \<open>Dollars are exact enough\<close>

text \<open>Three rounded operations err by less than half a micro-dollar on amounts below \<open>2 ^ 50\<close>.\<close>

lemma three_roundings:
  assumes "0 \<le> m" "m < 2 ^ 50"
  defines "b \<equiv> fdiv (rnd64 m) 1000000"
  shows "\<bar>fmul b 1000000 - m\<bar> < 1 / 2" "\<bar>b * 1000000 - m\<bar> \<le> m / 2"
proof -
  define a where "a = rnd64 m"
  define e :: rat where "e = 1 / 2 ^ 53"
  have a: "\<bar>a - m\<bar> \<le> m * e" using rnd64_relative [of m] assms(1) by (simp add: a_def e_def)
  have "\<bar>b - a / 1000000\<bar> \<le> \<bar>a / 1000000\<bar> * e" using rnd64_relative [of "a / 1000000"] by (simp add: b_def fdiv_def a_def e_def)
  then have b: "\<bar>b * 1000000 - a\<bar> \<le> \<bar>a\<bar> * e" by (simp add: abs_if field_simps split: if_splits)
  have c: "\<bar>fmul b 1000000 - b * 1000000\<bar> \<le> \<bar>b * 1000000\<bar> * e"
    using rnd64_relative [of "b * 1000000"] by (simp add: fmul_def e_def)
  have e: "0 \<le> e" "e \<le> 1 / 100" "m * e \<le> 1 / 8" using assms(2) by (simp_all add: e_def)
  have le: "m * e \<le> m / 100" using e assms(1) mult_left_mono [of e "1 / 100" m] by simp
  have "\<bar>a\<bar> \<le> m * (101 / 100)" using a le by linarith
  then have ae: "\<bar>a\<bar> * e \<le> m * e * (101 / 100)" using mult_right_mono [OF _ e(1), of "\<bar>a\<bar>" "m * (101 / 100)"] by (simp add: mult.commute mult.left_commute)
  have "\<bar>b * 1000000\<bar> \<le> m * (103 / 100)" using a b ae le by linarith
  then have be: "\<bar>b * 1000000\<bar> * e \<le> m * e * (103 / 100)"
    using mult_right_mono [OF _ e(1), of "\<bar>b * 1000000\<bar>" "m * (103 / 100)"] by (simp add: mult.commute mult.left_commute)
  show "\<bar>fmul b 1000000 - m\<bar> < 1 / 2" using a b c ae be e(3) by linarith
  show "\<bar>b * 1000000 - m\<bar> \<le> m / 2" using a b ae le assms(1) by linarith
qed

lemma round_half_up_near: "\<bar>x - of_int n\<bar> < 1 / 2 \<Longrightarrow> round_half_up x = n"
  unfolding round_half_up_def by (rule floor_unique) linarith+

lemma usd_to_micros_inverts:
  assumes "unat m < 2 ^ 50"
  shows "usd_to_micros (micros_to_usd m) = m"
proof (cases "m = 0")
  case False
  define r :: rat where "r = of_nat (unat m)"
  have "of_nat (unat m) < (of_nat (2 ^ 50) :: rat)" using assms by (simp only: of_nat_less_iff)
  then have r: "0 < r" "r < 2 ^ 50"
    using False of_nat_0_less_iff [where 'a = rat, of "unat m"] by (simp_all add: r_def unat_gt_0)
  note t = three_roundings [OF less_imp_le [OF r(1)] r(2)]
  have "0 < fdiv (rnd64 r) 1000000" using t(2) r(1) by linarith
  moreover have "round_half_up (fmul (fdiv (rnd64 r) 1000000) 1000000) = int (unat m)"
    using t(1) by (intro round_half_up_near) (simp add: r_def)
  moreover have "unat m \<le> 2 ^ 64 - 1" using assms by simp
  ultimately show ?thesis
    unfolding usd_to_micros_def micros_to_usd_def f64_as_u64_def r_def [symmetric]
    by (simp add: min_absorb1 word_of_nat_eq_iff word_unat_eq_iff unat_of_nat del: of_nat_unat)
qed (simp add: usd_to_micros_def micros_to_usd_def fdiv_def)

section \<open>Budgets\<close>

lemma spend_of_add [simp]:
  "spend_of (add_spend key micros store) k = (if k = key then spend_of store k + micros else spend_of store k)"
  by (simp add: spend_of_def add_spend_def update_conv')

text \<open>A session over its budget is refused and its total stays; any other call adds its cost.\<close>

lemma check_and_add_effect:
  "check_and_add key limit_usd micros store = (ok, store') \<Longrightarrow>
     spend_of store' k = (if k = key \<and> ok then spend_of store k + micros else spend_of store k)
     \<and> (ok \<longleftrightarrow> (case limit_usd of Some limit \<Rightarrow> \<not> f64_gt (session_spend_usd store key) limit | None \<Rightarrow> True))"
  by (auto simp: check_and_add_def session_spend_usd_def split: if_splits option.splits)

end
