(* ===== verification/Threat_Feed.thy ===== *)
theory Threat_Feed
  imports Governance_Types "HOL-Library.AList" "HOL-Library.Multiset"
begin

text \<open>
  The threat feed of \<open>crates/iaga-sentinel-core/src/modules/threat_intel/feed.rs\<close>: indicators, the
  cache of compiled expressions, matching, the digest that receipts carry, and the built-in list. A
  compiled expression is represented by its source; which sources compile and what they match are
  parameters, as are the Unicode case table and SHA-256 with hexadecimal output.
\<close>

section \<open>Indicators\<close>

datatype threat_type = MaliciousDomain | MaliciousCommand | KnownExploit | DataExfiltration | PromptInjection

fun show_threat_type :: "threat_type \<Rightarrow> string" where
  "show_threat_type MaliciousDomain = ''malicious_domain''"
| "show_threat_type MaliciousCommand = ''malicious_command''"
| "show_threat_type KnownExploit = ''known_exploit''"
| "show_threat_type DataExfiltration = ''data_exfiltration''"
| "show_threat_type PromptInjection = ''prompt_injection''"

record threat_indicator =
  ti_id :: string
  ti_indicator_type :: threat_type
  ti_pattern :: string
  ti_severity :: string
  ti_description :: string
  ti_source :: string
  ti_created_at :: string
  ti_active :: bool

record threat_match =
  tm_indicator_id :: string
  tm_indicator_type :: threat_type
  tm_severity :: string
  tm_description :: string
  tm_matched_pattern :: string

record threat_feed_stats =
  fs_total_indicators :: nat
  fs_active_indicators :: nat
  fs_per_type :: "(string \<times> nat) list"
  fs_last_updated :: string

text \<open>The process has one feed, so the cache of expressions is kept with it.\<close>

record threat_feed =
  tf_indicators :: "threat_indicator list"
  tf_last_updated :: string
  tf_cache :: "(string \<times> string) list"

record regex_lib =
  rx_compiles :: "string \<Rightarrow> bool"
  rx_is_match :: "string \<Rightarrow> string \<Rightarrow> bool"
  rx_lower :: "string \<Rightarrow> string"

definition REGEX_PREFIX :: string where
  "REGEX_PREFIX = ''regex:''"

section \<open>Operations\<close>

definition new_feed :: "string \<Rightarrow> threat_feed" where
  "new_feed now = \<lparr>tf_indicators = [], tf_last_updated = now, tf_cache = []\<rparr>"

definition indicator_matches :: "regex_lib \<Rightarrow> (string \<times> string) list \<Rightarrow> string \<Rightarrow> threat_indicator \<Rightarrow> bool" where
  "indicator_matches l cache content i =
     (if prefix REGEX_PREFIX (ti_pattern i) then
        (case map_of cache (ti_id i) of
           Some re \<Rightarrow> rx_is_match l re content
         | None \<Rightarrow> (let pat = drop 6 (ti_pattern i) in if rx_compiles l pat then rx_is_match l pat content else False))
      else sublist (lowercase (rx_lower l) (ti_pattern i)) (lowercase (rx_lower l) content))"

definition match_of :: "threat_indicator \<Rightarrow> threat_match" where
  "match_of i = \<lparr>tm_indicator_id = ti_id i, tm_indicator_type = ti_indicator_type i, tm_severity = ti_severity i,
     tm_description = ti_description i, tm_matched_pattern = ti_pattern i\<rparr>"

definition check_threats :: "regex_lib \<Rightarrow> threat_feed \<Rightarrow> string \<Rightarrow> threat_match list" where
  "check_threats l feed content =
     map match_of (filter (\<lambda>i. ti_active i \<and> indicator_matches l (tf_cache feed) content i) (tf_indicators feed))"

definition add_indicator :: "regex_lib \<Rightarrow> string \<Rightarrow> threat_indicator \<Rightarrow> threat_feed \<Rightarrow> threat_feed" where
  "add_indicator l now i feed =
     (let cache = (if prefix REGEX_PREFIX (ti_pattern i) \<and> rx_compiles l (drop 6 (ti_pattern i))
          then AList.update (ti_id i) (drop 6 (ti_pattern i)) (tf_cache feed) else tf_cache feed)
      in \<lparr>tf_indicators = tf_indicators feed @ [i], tf_last_updated = now, tf_cache = cache\<rparr>)"

definition remove_indicator :: "string \<Rightarrow> string \<Rightarrow> threat_feed \<Rightarrow> bool \<times> threat_feed" where
  "remove_indicator now k feed =
     (let kept = filter (\<lambda>i. ti_id i \<noteq> k) (tf_indicators feed); removed = length kept < length (tf_indicators feed)
      in (removed, feed\<lparr>tf_indicators := kept, tf_last_updated := (if removed then now else tf_last_updated feed)\<rparr>))"

text \<open>The bytes hashed for one indicator, and the digest of the feed.\<close>

definition indicator_bytes :: "threat_indicator \<Rightarrow> bytes" where
  "indicator_bytes i =
     as_bytes (ti_id i) @ [0x1f] @ as_bytes (show_threat_type (ti_indicator_type i)) @ [0x1f] @ as_bytes (ti_pattern i) @ [0x1f]
     @ [if ti_active i then 1 else 0] @ [0x1e]"

definition feed_preimage :: "threat_feed \<Rightarrow> bytes" where
  "feed_preimage feed = concat (map indicator_bytes (sort_key ti_id (tf_indicators feed)))"

definition feed_hash :: "(bytes \<Rightarrow> string) \<Rightarrow> threat_feed \<Rightarrow> string" where
  "feed_hash h feed = h (feed_preimage feed)"

definition list_indicators :: "threat_feed \<Rightarrow> threat_indicator list" where
  "list_indicators feed = tf_indicators feed"

definition get_stats :: "threat_feed \<Rightarrow> threat_feed_stats" where
  "get_stats feed =
     (let count = (\<lambda>per i. AList.update (show_threat_type (ti_indicator_type i))
            (Suc (case map_of per (show_threat_type (ti_indicator_type i)) of Some n \<Rightarrow> n | None \<Rightarrow> 0)) per)
      in \<lparr>fs_total_indicators = length (tf_indicators feed), fs_active_indicators = length (filter ti_active (tf_indicators feed)),
          fs_per_type = foldl count [] (tf_indicators feed), fs_last_updated = tf_last_updated feed\<rparr>)"

section \<open>The built-in list\<close>

definition pad3 :: "nat \<Rightarrow> string" where
  "pad3 n = (let s = show_nat n in replicate (3 - length s) (CHR ''0'') @ s)"

text \<open>The backslash is \<open>CHR 0x5C\<close>.\<close>

definition bsl :: string where
  "bsl = [CHR 0x5C]"

definition builtin_entries :: "(threat_type \<times> string \<times> string \<times> string) list" where
  "builtin_entries =
     [(MaliciousDomain, ''webhook.site'', ''high'', ''Known data exfiltration endpoint, webhook.site''),
      (MaliciousDomain, ''requestbin.com'', ''high'', ''Known data exfiltration endpoint, requestbin.com''),
      (MaliciousDomain, ''burpcollaborator.net'', ''critical'', ''Burp Suite collaborator, used in security testing/attacks''),
      (MaliciousDomain, ''ngrok.io'', ''high'', ''Tunnel service often used for exfiltration, ngrok.io''),
      (MaliciousDomain, ''pipedream.net'', ''high'', ''Known data exfiltration endpoint, pipedream.net''),
      (MaliciousCommand, ''rm -rf /'', ''critical'', ''Destructive command, recursive force-delete root filesystem''),
      (MaliciousCommand, ''mkfs'', ''critical'', ''Destructive command, formats a filesystem''),
      (MaliciousCommand, ''dd if=/dev/zero'', ''critical'', ''Destructive command, overwrites device with zeros''),
      (MaliciousCommand,
       ''regex::'' @ bsl @ ''('' @ bsl @ '')'' @ bsl @ ''s*'' @ bsl @ ''{'' @ bsl @ ''s*:'' @ bsl @ ''|:'' @ bsl @ ''s*&'' @ bsl @ ''s*''
         @ bsl @ ''}'' @ bsl @ ''s*;'' @ bsl @ ''s*:'',
       ''critical'', ''Fork bomb, exhausts system resources''),
      (MaliciousCommand, ''regex:(?i)chmod'' @ bsl @ ''s+.*777'', ''high'', ''Dangerous permissions, world-readable/writable/executable''),
      (MaliciousCommand, ''regex:curl'' @ bsl @ ''s+.*'' @ bsl @ ''|'' @ bsl @ ''s*sh'', ''critical'',
       ''Remote code execution, piping curl output to shell''),
      (MaliciousCommand, ''regex:wget'' @ bsl @ ''s+.*'' @ bsl @ ''|'' @ bsl @ ''s*bash'', ''critical'',
       ''Remote code execution, piping wget output to bash''),
      (MaliciousCommand, ''regex:(?i)'' @ bsl @ ''b(nc|ncat|netcat)'' @ bsl @ ''b.*'' @ bsl @ ''s-[ec]'' @ bsl @ ''b'', ''critical'',
       ''Reverse shell, netcat with -e/-c executes a shell on connect''),
      (MaliciousCommand, ''regex:/dev/tcp/'', ''critical'', ''Reverse shell, bash redirection to /dev/tcp''),
      (MaliciousCommand, ''regex:(?i)'' @ bsl @ ''bsocat'' @ bsl @ ''b.*exec'', ''critical'',
       ''Reverse shell, socat with EXEC spawns a process on connect''),
      (DataExfiltration, ''regex:base64.*curl|curl.*base64'', ''high'', ''Data exfiltration, base64 encoding combined with curl''),
      (DataExfiltration, ''regex:tar'' @ bsl @ ''s+.*'' @ bsl @ ''|'' @ bsl @ ''s*nc'' @ bsl @ ''s+'', ''high'',
       ''Data exfiltration, tar piped to netcat''),
      (DataExfiltration, ''/etc/passwd'', ''high'', ''Sensitive file access, system password file''),
      (DataExfiltration, ''/etc/shadow'', ''critical'', ''Sensitive file access, system shadow password file''),
      (DataExfiltration, ''.ssh/id_rsa'', ''critical'', ''Sensitive file access, SSH private key''),
      (KnownExploit, ''regex:'' @ bsl @ ''$'' @ bsl @ ''{jndi:(ldap|rmi|dns)://'', ''critical'',
       ''Log4Shell (CVE-2021-44228), JNDI injection pattern''),
      (KnownExploit, ''169.254.169.254'', ''critical'', ''SSRF, AWS/cloud metadata endpoint''),
      (KnownExploit, ''metadata.google'', ''critical'', ''SSRF, GCP metadata endpoint''),
      (PromptInjection, ''ignore previous'', ''high'', ''Prompt injection, attempts to override prior instructions''),
      (PromptInjection, ''system prompt'', ''high'', ''Prompt injection, references system prompt''),
      (PromptInjection, ''you are now'', ''medium'', ''Prompt injection, attempts role reassignment''),
      (PromptInjection, ''regex:(?i)DAN'' @ bsl @ ''s+mode'', ''high'', ''Prompt injection, DAN (Do Anything Now) jailbreak attempt'')]"

definition builtin_indicator :: "string \<Rightarrow> nat \<times> threat_type \<times> string \<times> string \<times> string \<Rightarrow> threat_indicator" where
  "builtin_indicator now = (\<lambda>(n, itype, pattern, severity, desc).
     \<lparr>ti_id = ''builtin-'' @ pad3 n, ti_indicator_type = itype, ti_pattern = pattern, ti_severity = severity, ti_description = desc,
      ti_source = ''iaga-sentinel-builtin'', ti_created_at = now, ti_active = True\<rparr>)"

definition builtin_indicators :: "string \<Rightarrow> threat_indicator list" where
  "builtin_indicators now = map (builtin_indicator now) (zip [1..<Suc (length builtin_entries)] builtin_entries)"

definition with_builtin_indicators :: "regex_lib \<Rightarrow> string \<Rightarrow> threat_feed" where
  "with_builtin_indicators l now = fold (add_indicator l now) (builtin_indicators now) (new_feed now)"

section \<open>Indicators from a file\<close>

text \<open>The entries of a \<open>threat-intel.toml\<close>, after their defaults were filled in; parsing is a library's.\<close>

record threat_indicator_entry =
  te_id :: string
  te_indicator_type :: threat_type
  te_pattern :: string
  te_severity :: "string option"
  te_description :: "string option"
  te_source :: "string option"
  te_created_at :: "string option"
  te_active :: "bool option"

definition or_default :: "'a \<Rightarrow> 'a option \<Rightarrow> 'a" where
  "or_default d x = (case x of Some v \<Rightarrow> v | None \<Rightarrow> d)"

definition into_indicator :: "threat_indicator_entry \<Rightarrow> threat_indicator" where
  "into_indicator e =
     \<lparr>ti_id = te_id e, ti_indicator_type = te_indicator_type e, ti_pattern = te_pattern e,
      ti_severity = or_default ''medium'' (te_severity e), ti_description = or_default [] (te_description e),
      ti_source = or_default ''threat-intel.toml'' (te_source e), ti_created_at = or_default [] (te_created_at e),
      ti_active = or_default True (te_active e)\<rparr>"

definition indicators_from_toml :: "(string \<Rightarrow> 'e + threat_indicator_entry list) \<Rightarrow> string \<Rightarrow> 'e + threat_indicator list" where
  "indicators_from_toml from_str txt = rbind (from_str txt) (\<lambda>entries. Inr (map into_indicator entries))"

section \<open>Each indicator matches by its own pattern\<close>

definition pattern_matches :: "regex_lib \<Rightarrow> string \<Rightarrow> string \<Rightarrow> bool" where
  "pattern_matches l content p =
     (if prefix REGEX_PREFIX p then rx_compiles l (drop 6 p) \<and> rx_is_match l (drop 6 p) content
      else sublist (lowercase (rx_lower l) p) (lowercase (rx_lower l) content))"

text \<open>The cache holds the expression of every indicator that has one, when it compiles.\<close>

definition cache_ok :: "regex_lib \<Rightarrow> threat_feed \<Rightarrow> bool" where
  "cache_ok l feed \<longleftrightarrow>
     (\<forall>i \<in> set (tf_indicators feed). prefix REGEX_PREFIX (ti_pattern i) \<longrightarrow>
        map_of (tf_cache feed) (ti_id i) = (if rx_compiles l (drop 6 (ti_pattern i)) then Some (drop 6 (ti_pattern i)) else None))"

text \<open>The feeds that arise when an identifier is never used twice.\<close>

inductive feed_reachable :: "regex_lib \<Rightarrow> threat_feed \<Rightarrow> string set \<Rightarrow> bool" for l where
  empty: "feed_reachable l (new_feed now) {}"
| add: "feed_reachable l feed used \<Longrightarrow> ti_id i \<notin> used \<Longrightarrow> feed_reachable l (add_indicator l now i feed) (insert (ti_id i) used)"
| remove: "feed_reachable l feed used \<Longrightarrow> feed_reachable l (snd (remove_indicator now k feed)) used"

lemma feed_invariant:
  "feed_reachable l feed used \<Longrightarrow>
     cache_ok l feed \<and> fst ` set (tf_cache feed) \<subseteq> used \<and> ti_id ` set (tf_indicators feed) \<subseteq> used"
proof (induction rule: feed_reachable.induct)
  case (empty now)
  then show ?case by (simp add: new_feed_def cache_ok_def)
next
  case (add feed used i now)
  let ?f = "add_indicator l now i feed"
  have used: "ti_id ` set (tf_indicators feed) \<subseteq> used" "fst ` set (tf_cache feed) \<subseteq> used" and ok: "cache_ok l feed"
    using add.IH by simp_all
  have keep: "map_of (tf_cache ?f) k = map_of (tf_cache feed) k" if "k \<noteq> ti_id i" for k
    using that by (simp add: add_indicator_def Let_def update_conv')
  have "map_of (tf_cache feed) (ti_id i) = None" using used(2) add.hyps(2) by (simp add: map_of_eq_None_iff) (erule contra_subsetD)
  then have own: "prefix REGEX_PREFIX (ti_pattern i) \<Longrightarrow> map_of (tf_cache ?f) (ti_id i) =
      (if rx_compiles l (drop 6 (ti_pattern i)) then Some (drop 6 (ti_pattern i)) else None)"
    by (simp add: add_indicator_def Let_def update_conv')
  have new: "ti_id j \<noteq> ti_id i" if "j \<in> set (tf_indicators feed)" for j
    using imageI [OF that, of ti_id] used(1) add.hyps(2) by (metis subsetD)
  have "cache_ok l ?f"
    unfolding cache_ok_def
  proof (intro ballI impI)
    fix j assume j: "j \<in> set (tf_indicators ?f)" "prefix REGEX_PREFIX (ti_pattern j)"
    then consider "j = i" | "j \<in> set (tf_indicators feed)" by (auto simp: add_indicator_def Let_def)
    then show "map_of (tf_cache ?f) (ti_id j) = (if rx_compiles l (drop 6 (ti_pattern j)) then Some (drop 6 (ti_pattern j)) else None)"
      by cases (use j own keep new ok in \<open>simp_all add: cache_ok_def\<close>)
  qed
  moreover have "fst ` set (tf_cache ?f) \<subseteq> insert (ti_id i) (fst ` set (tf_cache feed))"
    by (simp add: add_indicator_def Let_def dom_update subset_insertI)
  moreover have "ti_id ` set (tf_indicators ?f) = insert (ti_id i) (ti_id ` set (tf_indicators feed))"
    by (simp add: add_indicator_def Let_def)
  ultimately show ?case using order_trans [OF _ insert_mono [OF used(2)]] insert_mono [OF used(1)] by simp
next
  case (remove feed used now k)
  then show ?case by (auto simp: remove_indicator_def Let_def cache_ok_def)
qed

lemma own_pattern:
  assumes "cache_ok l feed" "i \<in> set (tf_indicators feed)"
  shows "indicator_matches l (tf_cache feed) content i = pattern_matches l content (ti_pattern i)"
  using assms by (cases "prefix REGEX_PREFIX (ti_pattern i)")
    (simp_all add: cache_ok_def indicator_matches_def pattern_matches_def Let_def)

lemma check_threats_own:
  assumes "feed_reachable l feed used"
  shows "check_threats l feed content =
     map match_of (filter (\<lambda>i. ti_active i \<and> pattern_matches l content (ti_pattern i)) (tf_indicators feed))"
proof -
  have "cache_ok l feed" using feed_invariant [OF assms] by simp
  then show ?thesis unfolding check_threats_def
    by (intro arg_cong [where f = "map match_of"] filter_cong refl) (simp add: own_pattern)
qed

section \<open>What the digest binds\<close>

text \<open>The fields the digest covers, and identifiers and patterns free of its separator.\<close>

definition hashed_key :: "threat_indicator \<Rightarrow> string \<times> threat_type \<times> string \<times> bool" where
  "hashed_key i = (ti_id i, ti_indicator_type i, ti_pattern i, ti_active i)"

definition separable :: "threat_feed \<Rightarrow> bool" where
  "separable feed \<longleftrightarrow> list_all (\<lambda>i. CHR 0x1F \<notin> set (ti_id i) \<and> CHR 0x1F \<notin> set (ti_pattern i)) (tf_indicators feed)"

declare as_bytes_inj [simp]

lemma separator_in_bytes: "(0x1f :: byte) \<in> set (as_bytes s) \<longleftrightarrow> CHR 0x1F \<in> set s"
proof -
  have "(0x1f :: byte) = of_char (CHR 0x1F)" by simp
  then show ?thesis unfolding as_bytes_def by (simp only: set_map) (metis byte_of_char_inj imageE imageI)
qed

lemma show_threat_type_inj: "show_threat_type a = show_threat_type b \<longleftrightarrow> a = b"
  by (cases a; cases b) simp_all

lemma show_threat_type_plain: "CHR 0x1F \<notin> set (show_threat_type a)"
  by (cases a) simp_all

lemma indicator_bytes_inj:
  assumes "indicator_bytes i @ xs = indicator_bytes j @ ys"
    and "CHR 0x1F \<notin> set (ti_id i)" "CHR 0x1F \<notin> set (ti_pattern i)" "CHR 0x1F \<notin> set (ti_id j)" "CHR 0x1F \<notin> set (ti_pattern j)"
  shows "hashed_key i = hashed_key j \<and> xs = ys"
proof -
  have sep: "as_bytes a @ 0x1f # us = as_bytes b @ 0x1f # vs \<longleftrightarrow> a = b \<and> us = vs"
    if "CHR 0x1F \<notin> set a" "CHR 0x1F \<notin> set b" for a b us vs
    using split_at_separator [of "0x1f :: byte" "as_bytes a" "as_bytes b" us vs] that by (simp add: separator_in_bytes)
  show ?thesis
    using assms by (auto simp: indicator_bytes_def hashed_key_def sep show_threat_type_plain show_threat_type_inj split: if_splits)
qed

lemma concat_indicators_inj:
  "concat (map indicator_bytes is) = concat (map indicator_bytes js) \<Longrightarrow>
     \<forall>i \<in> set is \<union> set js. CHR 0x1F \<notin> set (ti_id i) \<and> CHR 0x1F \<notin> set (ti_pattern i) \<Longrightarrow> map hashed_key is = map hashed_key js"
proof (induction "is" arbitrary: js)
  case Nil
  then show ?case by (cases js) (simp_all add: indicator_bytes_def)
next
  case (Cons i "is")
  then obtain j ks where js: "js = j # ks" by (cases js) (simp_all add: indicator_bytes_def)
  have "hashed_key i = hashed_key j \<and> concat (map indicator_bytes is) = concat (map indicator_bytes ks)"
    by (rule indicator_bytes_inj) (use Cons.prems in \<open>auto simp: js\<close>)
  then show ?case using Cons.IH [of ks] Cons.prems by (auto simp: js)
qed

text \<open>What a match says apart from its severity and description.\<close>

definition match_key :: "threat_match \<Rightarrow> string \<times> threat_type \<times> string" where
  "match_key m = (tm_indicator_id m, tm_indicator_type m, tm_matched_pattern m)"

lemma matched_keys:
  assumes "feed_reachable l feed used"
  shows "mset (map match_key (check_threats l feed content)) =
    image_mset (\<lambda>(k, t, p, a). (k, t, p))
      (filter_mset (\<lambda>(k, t, p, a). a \<and> pattern_matches l content p) (mset (map hashed_key (tf_indicators feed))))"
  unfolding check_threats_own [OF assms]
  by (simp add: mset_filter [symmetric] mset_map [symmetric] filter_map o_def hashed_key_def match_key_def match_of_def
      del: mset_filter mset_map)

text \<open>
  Two feeds with the same digest match the same indicators on every content, whatever was added or
  removed and in which order, unless the hash collides. The severities are not bound.
\<close>

lemma feed_hash_binds_matches:
  assumes "feed_reachable l f used" "feed_reachable l g used'" "separable f" "separable g"
    and "feed_hash h f = feed_hash h g" "\<not> collides h (feed_preimage f) (feed_preimage g)"
  shows "mset (map match_key (check_threats l f content)) = mset (map match_key (check_threats l g content))"
proof -
  have "feed_preimage f = feed_preimage g" using assms(5,6) by (auto simp: feed_hash_def collides_def)
  then have "map hashed_key (sort_key ti_id (tf_indicators f)) = map hashed_key (sort_key ti_id (tf_indicators g))"
    unfolding feed_preimage_def by (rule concat_indicators_inj) (use assms(3,4) in \<open>auto simp: separable_def list_all_iff\<close>)
  then have "mset (map hashed_key (tf_indicators f)) = mset (map hashed_key (tf_indicators g))"
    by (metis mset_map mset_sort)
  then show ?thesis by (simp only: matched_keys [OF assms(1)] matched_keys [OF assms(2)])
qed

text \<open>The digest does not cover the severity, which decides between block and review.\<close>

lemma feed_hash_ignores_severity:
  "feed_hash h (feed\<lparr>tf_indicators := map (\<lambda>i. i\<lparr>ti_severity := sev i\<rparr>) (tf_indicators feed)\<rparr>) = feed_hash h feed"
proof -
  let ?f = "\<lambda>i. i\<lparr>ti_severity := sev i\<rparr>"
  have "insort_key ti_id (?f i) (map ?f xs) = map ?f (insort_key ti_id i xs)" for i xs by (induction xs) simp_all
  then have "sort_key ti_id (map ?f xs) = map ?f (sort_key ti_id xs)" for xs by (induction xs) simp_all
  moreover have "indicator_bytes (?f i) = indicator_bytes i" for i by (simp add: indicator_bytes_def)
  ultimately show ?thesis by (simp add: feed_hash_def feed_preimage_def o_def)
qed

text \<open>An expression outlives its indicator: a new indicator that reuses the identifier matches by it.\<close>

definition stale_indicator :: "string \<Rightarrow> threat_indicator" where
  "stale_indicator pattern = \<lparr>ti_id = ''i'', ti_indicator_type = KnownExploit, ti_pattern = pattern, ti_severity = ''high'',
     ti_description = [], ti_source = [], ti_created_at = [], ti_active = True\<rparr>"

lemma stale_expression_matches:
  assumes "rx_compiles l ''old''" "\<not> rx_compiles l ''new''" "rx_is_match l ''old'' content"
  shows "check_threats l (add_indicator l now (stale_indicator ''regex:new'')
      (snd (remove_indicator now ''i'' (add_indicator l now (stale_indicator ''regex:old'') (new_feed now))))) content
    = [match_of (stale_indicator ''regex:new'')]"
  using assms
  by (simp add: check_threats_def add_indicator_def remove_indicator_def new_feed_def indicator_matches_def REGEX_PREFIX_def
      stale_indicator_def Let_def)

end
