(* ===== verification/Protocol.thy ===== *)
theory Protocol
  imports Governance_Types
begin

text \<open>
  Protocols of tool calls (\<open>crates/iaga-sentinel-core/src/modules/protocol\<close>): which protocol a request
  speaks, the normalized form of its payload, and the structural validation of A2A and ACP envelopes
  and of the known MCP tools. A JSON object is its list of fields; the case table of \<open>to_lowercase\<close>
  and the parsing of UUIDs are parameters.
\<close>

section \<open>Reading objects\<close>

text \<open>\<open>object.get(k).and_then(Value::as_object)\<close> and \<open>as_array\<close>, and \<open>contains_key\<close>.\<close>

definition obj_field :: "fields \<Rightarrow> string \<Rightarrow> fields option" where
  "obj_field m k = (case map_of m k of Some (JObject o1) \<Rightarrow> Some o1 | _ \<Rightarrow> None)"

definition arr_field :: "fields \<Rightarrow> string \<Rightarrow> json list option" where
  "arr_field m k = (case map_of m k of Some (JArray xs) \<Rightarrow> Some xs | _ \<Rightarrow> None)"

definition has_key :: "fields \<Rightarrow> string \<Rightarrow> bool" where
  "has_key m k \<longleftrightarrow> map_of m k \<noteq> None"

fun as_object :: "json \<Rightarrow> fields option" where
  "as_object (JObject m) = Some m"
| "as_object v = None"

definition or_else :: "'a option \<Rightarrow> 'a option \<Rightarrow> 'a option" where
  "or_else x y = (case x of Some v \<Rightarrow> Some v | None \<Rightarrow> y)"

definition nonblank :: "string option \<Rightarrow> bool" where
  "nonblank s \<longleftrightarrow> (case s of Some t \<Rightarrow> str_trim t \<noteq> [] | None \<Rightarrow> False)"

record schema_validation =
  sv_tool_name :: string
  sv_valid :: bool
  sv_findings :: "string list"

section \<open>Vocabulary\<close>

definition A2A_METHODS :: "string list" where
  "A2A_METHODS = [''SendMessage'', ''SendStreamingMessage'', ''GetTask'', ''ListTasks'', ''CancelTask'', ''SubscribeToTask'',
     ''message/send'', ''message/stream'', ''tasks/get'', ''tasks/list'', ''tasks/cancel'', ''tasks/subscribe'']"

definition A2A_SEND_METHODS :: "string list" where
  "A2A_SEND_METHODS = [''SendMessage'', ''SendStreamingMessage'', ''message/send'', ''message/stream'']"

definition A2A_TASK_LOOKUP_METHODS :: "string list" where
  "A2A_TASK_LOOKUP_METHODS = [''GetTask'', ''CancelTask'', ''SubscribeToTask'', ''tasks/get'', ''tasks/cancel'', ''tasks/subscribe'']"

definition ACP_MODES :: "string list" where
  "ACP_MODES = [''sync'', ''async'', ''stream'']"

definition ACP_ENCODINGS :: "string list" where
  "ACP_ENCODINGS = [''plain'', ''base64'']"

definition is_supported_a2a_method :: "string \<Rightarrow> bool" where
  "is_supported_a2a_method m \<longleftrightarrow> m \<in> set A2A_METHODS"

definition is_send_message_method :: "string \<Rightarrow> bool" where
  "is_send_message_method m \<longleftrightarrow> m \<in> set A2A_SEND_METHODS"

definition is_task_lookup_method :: "string \<Rightarrow> bool" where
  "is_task_lookup_method m \<longleftrightarrow> m \<in> set A2A_TASK_LOOKUP_METHODS"

definition is_supported_a2a_role :: "string \<Rightarrow> bool" where
  "is_supported_a2a_role r \<longleftrightarrow> r \<in> {''ROLE_USER'', ''ROLE_AGENT'', ''ROLE_SYSTEM'', ''user'', ''agent'', ''system''}"

definition is_supported_a2a_task_state :: "string \<Rightarrow> bool" where
  "is_supported_a2a_task_state s \<longleftrightarrow>
     prefix ''TASK_STATE_'' s \<or> s \<in> {''working'', ''completed'', ''input_required'', ''failed'', ''canceled'', ''cancelled''}"

definition opt_is :: "('a \<Rightarrow> bool) \<Rightarrow> 'a option \<Rightarrow> bool" where
  "opt_is P x \<longleftrightarrow> (case x of Some v \<Rightarrow> P v | None \<Rightarrow> False)"

fun protocol_label :: "protocol_kind \<Rightarrow> string" where
  "protocol_label Mcp = ''mcp''"
| "protocol_label Acp = ''acp''"
| "protocol_label A2a = ''a2a''"
| "protocol_label HttpFunction = ''http-function''"
| "protocol_label UnknownProtocol = ''unknown''"

definition route_from_acp_root :: "fields \<Rightarrow> string option" where
  "route_from_acp_root root1 = or_else (or_else (str_field root1 ''route'') (str_field root1 ''path'')) (str_field root1 ''endpoint'')"

text \<open>The body of an ACP request: its \<open>body\<close> object, or the root.\<close>

definition acp_body :: "fields \<Rightarrow> fields" where
  "acp_body root1 = (case obj_field root1 ''body'' of Some b \<Rightarrow> b | None \<Rightarrow> root1)"

section \<open>Detection\<close>

definition looks_like_mcp_payload :: "fields \<Rightarrow> bool" where
  "looks_like_mcp_payload payload \<longleftrightarrow>
     str_field payload ''jsonrpc'' = Some ''2.0'' \<and>
     opt_is (\<lambda>m. m = ''initialize'' \<or> m = ''ping'' \<or> prefix ''tools/'' m \<or> prefix ''resources/'' m) (str_field payload ''method'')"

definition looks_like_a2a_payload :: "fields \<Rightarrow> bool" where
  "looks_like_a2a_payload payload \<longleftrightarrow>
     str_field payload ''jsonrpc'' = Some ''2.0'' \<and> opt_is is_supported_a2a_method (str_field payload ''method'')
     \<or> obj_field payload ''message'' \<noteq> None \<or> obj_field payload ''task'' \<noteq> None
     \<or> has_key payload ''taskId'' \<or> has_key payload ''contextId'' \<or> has_key payload ''skill'' \<or> has_key payload ''parts''"

definition looks_like_acp_payload :: "fields \<Rightarrow> bool" where
  "looks_like_acp_payload payload \<longleftrightarrow>
     (let content = acp_body payload in
      opt_is (\<lambda>r. r = ''/ping'' \<or> prefix ''/runs'' r \<or> prefix ''/agents'' r) (route_from_acp_root payload)
      \<or> has_key content ''agent_name'' \<and> has_key content ''input'' \<or> has_key content ''run_id'' \<or> has_key content ''session_id'')"

definition detect_protocol :: "(string \<Rightarrow> string) \<Rightarrow> inspect_request \<Rightarrow> protocol_kind" where
  "detect_protocol tbl input =
     (case ir_protocol input of
        Some p \<Rightarrow> p
      | None \<Rightarrow>
          (let tool = lowercase tbl (ad_tool_name (ir_action input)); framework = lowercase tbl (ir_framework input);
               payload = ad_payload (ir_action input) in
           if sublist ''mcp'' tool \<or> sublist ''mcp'' framework \<or> looks_like_mcp_payload payload then Mcp
           else if sublist ''a2a'' framework \<or> sublist ''a2a'' tool \<or> looks_like_a2a_payload payload then A2a
           else if sublist ''acp'' tool \<or> sublist ''acp'' framework \<or> looks_like_acp_payload payload then Acp
           else if framework \<noteq> [] then HttpFunction else UnknownProtocol))"

section \<open>MCP tools\<close>

text \<open>The dash of the advisories is the UTF-8 encoding of U+2014.\<close>

definition em_dash :: string where
  "em_dash = [CHR 0xE2, CHR 0x80, CHR 0x94]"

definition check_intent_advisory :: "fields \<Rightarrow> string list" where
  "check_intent_advisory payload =
     (case map_of payload ''intent'' of
        Some (JString s) \<Rightarrow> if 3 \<le> length s then [] else [''intent: advisory '' @ em_dash @ '' provide at least 3 characters for clearer evidence'']
      | Some _ \<Rightarrow> [''intent: advisory '' @ em_dash @ '' expected a string'']
      | None \<Rightarrow> [''intent: advisory '' @ em_dash @ '' omitted; include it for clearer evidence''])"

definition finalize :: "string list \<Rightarrow> string list \<Rightarrow> bool \<times> string list" where
  "finalize hard advisory =
     (if hard = [] then (True, if advisory = [] then [''payload matched MCP tool schema''] else advisory) else (False, hard @ advisory))"

definition require_text :: "fields \<Rightarrow> string \<Rightarrow> string list" where
  "require_text payload k = (case str_field payload k of Some (x # xs) \<Rightarrow> [] | _ \<Rightarrow> [k @ '': Required''])"

definition validate_filesystem_read :: "fields \<Rightarrow> bool \<times> string list" where
  "validate_filesystem_read payload = finalize (require_text payload ''path'') (check_intent_advisory payload)"

definition validate_filesystem_write :: "fields \<Rightarrow> bool \<times> string list" where
  "validate_filesystem_write payload =
     finalize
       (require_text payload ''path'' @
        (case map_of payload ''content'' of Some JNull \<Rightarrow> [''content: Required''] | Some _ \<Rightarrow> [] | None \<Rightarrow> [''content: Required'']))
       (check_intent_advisory payload)"

definition validate_terminal_exec :: "fields \<Rightarrow> bool \<times> string list" where
  "validate_terminal_exec payload =
     finalize
       (require_text payload ''command'' @
        (case map_of payload ''destination'' of
           Some (JString s) \<Rightarrow> [] | Some _ \<Rightarrow> [''destination: Expected string''] | None \<Rightarrow> []))
       (check_intent_advisory payload)"

definition HTTP_METHODS :: "string list" where
  "HTTP_METHODS = [''GET'', ''POST'', ''PUT'', ''PATCH'', ''DELETE'']"

definition validate_http_fetch :: "fields \<Rightarrow> bool \<times> string list" where
  "validate_http_fetch payload =
     finalize
       ((if opt_is (\<lambda>s. s \<in> set HTTP_METHODS) (str_field payload ''method'') then []
         else [''method: Expected one of GET, POST, PUT, PATCH, DELETE'']) @
        (if list_ex (\<lambda>k. nonblank (str_field payload k)) DEFAULT_EGRESS_DESTINATION_FIELDS then []
         else [''destination: Required (one of '' @ join_with '', '' DEFAULT_EGRESS_DESTINATION_FIELDS @ '')'']))
       (check_intent_advisory payload)"

definition validate_schema :: "string \<Rightarrow> fields \<Rightarrow> bool \<times> string list" where
  "validate_schema tool_name payload =
     (if tool_name = ''filesystem.read'' then validate_filesystem_read payload
      else if tool_name = ''filesystem.write'' then validate_filesystem_write payload
      else if tool_name = ''terminal.exec'' then validate_terminal_exec payload
      else if tool_name = ''http.fetch'' then validate_http_fetch payload
      else (True, [''schema: advisory '' @ em_dash @ '' no MCP schema registered for tool '' @ tool_name @
        ''; structural validation skipped, policy layers still applied'']))"

definition validate_mcp_tool :: "inspect_request \<Rightarrow> schema_validation" where
  "validate_mcp_tool input =
     (case validate_schema (ad_tool_name (ir_action input)) (ad_payload (ir_action input)) of
        (valid, findings) \<Rightarrow> \<lparr>sv_tool_name = ad_tool_name (ir_action input), sv_valid = valid, sv_findings = findings\<rparr>)"

section \<open>A2A envelopes\<close>

text \<open>The body, the method, and the findings pushed on the way.\<close>

definition a2a_body_and_method :: "fields \<Rightarrow> fields \<times> string option \<times> string list" where
  "a2a_body_and_method root1 =
     (let m = str_field root1 ''method'' in
      if has_key root1 ''jsonrpc'' \<or> has_key root1 ''method'' then
        (let findings =
           (if str_field root1 ''jsonrpc'' \<noteq> Some ''2.0'' then [''jsonrpc: Expected 2.0''] else []) @
           (case m of
              Some s \<Rightarrow> if is_supported_a2a_method s then [] else [''method: Unsupported A2A method '' @ s]
            | None \<Rightarrow> [''method: Required'']) in
         case obj_field root1 ''params'' of
           Some params \<Rightarrow> (params, m, findings)
         | None \<Rightarrow> (root1, m, findings @ [''params: Expected object'']))
      else (root1, m, []))"

definition at_part :: "nat \<Rightarrow> string" where
  "at_part i = ''message.parts['' @ show_nat i @ '']''"

definition validate_a2a_kind :: "fields \<Rightarrow> nat \<Rightarrow> string \<Rightarrow> string list" where
  "validate_a2a_kind part i kind =
     (if kind = ''text'' then (if str_field part ''text'' = None then [at_part i @ '': kind=text requires text''] else [])
      else if kind = ''file'' then
        (if str_field part ''url'' = None \<and> \<not> has_key part ''data'' then [at_part i @ '': kind=file requires url or data''] else [])
      else if kind = ''data'' then (if has_key part ''data'' then [] else [at_part i @ '': kind=data requires data''])
      else [at_part i @ '': unsupported kind '' @ kind])"

definition validate_a2a_part :: "nat \<Rightarrow> json \<Rightarrow> string list" where
  "validate_a2a_part i v =
     (case as_object v of
        None \<Rightarrow> [at_part i @ '': Expected object'']
      | Some part \<Rightarrow>
          (let forms = length (filter (has_key part) [''text'', ''data'', ''raw'', ''url'']); kind = str_field part ''kind'' in
           (if forms = 0 \<and> kind = None then [at_part i @ '': Required one of text, data, raw, url or kind''] else []) @
           (if 1 < forms then [at_part i @ '': Expected exactly one content form''] else []) @
           (case kind of Some k \<Rightarrow> validate_a2a_kind part i k | None \<Rightarrow> [])))"

text \<open>\<open>iter().enumerate()\<close>, the findings of the elements in order.\<close>

fun enumerate_findings :: "(nat \<Rightarrow> json \<Rightarrow> string list) \<Rightarrow> nat \<Rightarrow> json list \<Rightarrow> string list" where
  "enumerate_findings f i [] = []"
| "enumerate_findings f i (v # vs) = f i v @ enumerate_findings f (Suc i) vs"

definition a2a_message :: "fields \<Rightarrow> fields" where
  "a2a_message content = (case obj_field content ''message'' of Some m \<Rightarrow> m | None \<Rightarrow> content)"

definition validate_a2a_message :: "fields \<Rightarrow> string list" where
  "validate_a2a_message content =
     (let message = a2a_message content in
      (case str_field message ''role'' of
         Some role \<Rightarrow> if is_supported_a2a_role role then [] else [''message.role: Unsupported value '' @ role]
       | None \<Rightarrow> [''message.role: Required'']) @
      (case arr_field message ''parts'' of
         Some (p # ps) \<Rightarrow> enumerate_findings validate_a2a_part 0 (p # ps)
       | _ \<Rightarrow> [''message.parts: Required non-empty array'']))"

definition validate_a2a_task :: "fields \<Rightarrow> string list" where
  "validate_a2a_task task =
     (if nonblank (str_field task ''id'') then [] else [''task.id: Required'']) @
     (case Option.bind (obj_field task ''status'') (\<lambda>status. str_field status ''state'') of
        Some state \<Rightarrow> if is_supported_a2a_task_state state then [] else [''task.status.state: Unsupported value '' @ state]
      | None \<Rightarrow> [''task.status.state: Required''])"

definition schema_result :: "string \<Rightarrow> string list \<Rightarrow> string \<Rightarrow> schema_validation" where
  "schema_result tool_name findings ok_message =
     \<lparr>sv_tool_name = tool_name, sv_valid = (findings = []), sv_findings = (if findings = [] then [ok_message] else findings)\<rparr>"

definition sends_message :: "fields \<Rightarrow> string option \<Rightarrow> bool" where
  "sends_message content m \<longleftrightarrow> opt_is is_send_message_method m \<or> has_key content ''message'' \<or> has_key content ''parts''"

definition a2a_findings :: "fields \<Rightarrow> string list" where
  "a2a_findings root1 =
     (case a2a_body_and_method root1 of
        (content, m, opening) \<Rightarrow>
          opening @
          (if sends_message content m then validate_a2a_message content else []) @
          (if opt_is is_task_lookup_method m \<and> \<not> nonblank (or_else (str_field content ''taskId'') (str_field content ''id''))
           then [''taskId: Required for A2A task lookup methods''] else []) @
          (case obj_field content ''task'' of Some task \<Rightarrow> validate_a2a_task task | None \<Rightarrow> []) @
          (if sends_message content m \<or> opt_is is_task_lookup_method m \<or> m = Some ''ListTasks'' \<or> m = Some ''tasks/list''
              \<or> obj_field content ''task'' \<noteq> None
           then [] else [''payload did not match a supported A2A envelope'']))"

definition validate_a2a_payload :: "inspect_request \<Rightarrow> schema_validation" where
  "validate_a2a_payload input =
     schema_result (ad_tool_name (ir_action input)) (a2a_findings (ad_payload (ir_action input))) ''payload matched A2A protocol schema''"

section \<open>ACP envelopes\<close>

definition validate_uuid_field :: "(string \<Rightarrow> bool) \<Rightarrow> string \<Rightarrow> string option \<Rightarrow> string list" where
  "validate_uuid_field is_uuid field v =
     (case v of Some s \<Rightarrow> if is_uuid s then [] else [field @ '': Expected UUID''] | None \<Rightarrow> [])"

fun after_runs :: "string list \<Rightarrow> string option" where
  "after_runs [] = None"
| "after_runs (segment # rest) = (if segment = ''runs'' then (case rest of s # _ \<Rightarrow> Some s | [] \<Rightarrow> None) else after_runs rest)"

definition is_slash :: "char \<Rightarrow> bool" where
  "is_slash ch \<longleftrightarrow> ch = CHR ''/''"

definition extract_acp_run_id :: "string \<Rightarrow> string option" where
  "extract_acp_run_id route = after_runs (split_on is_slash [] (rev (dropWhile is_slash (rev (dropWhile is_slash route)))))"

definition validate_acp_part :: "nat \<Rightarrow> nat \<Rightarrow> json \<Rightarrow> string list" where
  "validate_acp_part i j v =
     (let at_j = ''input['' @ show_nat i @ ''].parts['' @ show_nat j @ '']'' in
      case as_object v of
        None \<Rightarrow> [at_j @ '': Expected object'']
      | Some part \<Rightarrow>
          (if str_field part ''content_type'' = None then [at_j @ ''.content_type: Required''] else []) @
          (if has_key part ''content'' = nonblank (str_field part ''content_url'')
           then [at_j @ '': Expected exactly one of content or content_url''] else []) @
          (case str_field part ''content_encoding'' of
             Some e \<Rightarrow> if e \<in> set ACP_ENCODINGS then [] else [at_j @ ''.content_encoding: Unsupported value '' @ e]
           | None \<Rightarrow> []))"

definition validate_acp_message :: "nat \<Rightarrow> json \<Rightarrow> string list" where
  "validate_acp_message i v =
     (let at_i = ''input['' @ show_nat i @ '']'' in
      case as_object v of
        None \<Rightarrow> [at_i @ '': Expected object'']
      | Some message \<Rightarrow>
          (case str_field message ''role'' of
             Some role \<Rightarrow> if role = ''user'' \<or> prefix ''agent'' role then [] else [at_i @ ''.role: Unsupported value '' @ role]
           | None \<Rightarrow> [at_i @ ''.role: Required'']) @
          (case arr_field message ''parts'' of
             Some (p # ps) \<Rightarrow> enumerate_findings (validate_acp_part i) 0 (p # ps)
           | _ \<Rightarrow> [at_i @ ''.parts: Required non-empty array'']))"

definition validate_acp_run_create :: "(string \<Rightarrow> bool) \<Rightarrow> fields \<Rightarrow> string list" where
  "validate_acp_run_create is_uuid content =
     (if nonblank (str_field content ''agent_name'') then [] else [''agent_name: Required'']) @
     (case str_field content ''mode'' of
        Some mode \<Rightarrow> if mode \<in> set ACP_MODES then [] else [''mode: Unsupported value '' @ mode]
      | None \<Rightarrow> []) @
     validate_uuid_field is_uuid ''session_id'' (str_field content ''session_id'') @
     (case arr_field content ''input'' of
        Some (p # ps) \<Rightarrow> enumerate_findings validate_acp_message 0 (p # ps)
      | _ \<Rightarrow> [''input: Required non-empty array''])"

definition creates_run :: "fields \<Rightarrow> bool" where
  "creates_run root1 \<longleftrightarrow>
     route_from_acp_root root1 = Some ''/runs'' \<or> has_key (acp_body root1) ''agent_name'' \<and> has_key (acp_body root1) ''input''"

definition names_run :: "fields \<Rightarrow> bool" where
  "names_run root1 \<longleftrightarrow>
     opt_is (prefix ''/runs/'') (route_from_acp_root root1) \<or> has_key (acp_body root1) ''run_id'' \<or> has_key root1 ''run_id''"

definition acp_findings :: "(string \<Rightarrow> bool) \<Rightarrow> fields \<Rightarrow> string list" where
  "acp_findings is_uuid root1 =
     (let content = acp_body root1; route = route_from_acp_root root1 in
      (if creates_run root1 then validate_acp_run_create is_uuid content else []) @
      (if names_run root1 then
         validate_uuid_field is_uuid ''run_id''
           (or_else (or_else (str_field content ''run_id'') (str_field root1 ''run_id'')) (Option.bind route extract_acp_run_id))
       else []) @
      (if route = Some ''/ping'' \<or> opt_is (prefix ''/agents'') route \<or> creates_run root1 \<or> names_run root1 then []
       else [''payload did not match a supported ACP envelope'']))"

definition validate_acp_payload :: "(string \<Rightarrow> bool) \<Rightarrow> inspect_request \<Rightarrow> schema_validation" where
  "validate_acp_payload is_uuid input =
     schema_result (ad_tool_name (ir_action input)) (acp_findings is_uuid (ad_payload (ir_action input))) ''payload matched ACP protocol schema''"

definition validate_protocol_payload :: "(string \<Rightarrow> bool) \<Rightarrow> inspect_request \<Rightarrow> protocol_kind \<Rightarrow> schema_validation" where
  "validate_protocol_payload is_uuid input protocol =
     (case protocol of
        Mcp \<Rightarrow> validate_mcp_tool input
      | A2a \<Rightarrow> validate_a2a_payload input
      | Acp \<Rightarrow> validate_acp_payload is_uuid input
      | _ \<Rightarrow> \<lparr>sv_tool_name = ad_tool_name (ir_action input), sv_valid = True,
              sv_findings = [''built-in protocol validation skipped for '' @ protocol_label protocol]\<rparr>)"

section \<open>Normalized payloads\<close>

text \<open>A map under construction lists its entries in the order of insertion; no key is inserted twice.\<close>

definition opt_entry :: "string \<Rightarrow> ('a \<Rightarrow> json) \<Rightarrow> 'a option \<Rightarrow> fields" where
  "opt_entry k f x = (case x of Some v \<Rightarrow> [(k, f v)] | None \<Rightarrow> [])"

definition count_json :: "nat \<Rightarrow> json" where
  "count_json n = JNumber (PosInt (of_nat n))"

definition normalize_mcp_payload :: "inspect_request \<Rightarrow> fields" where
  "normalize_mcp_payload input =
     [(''toolName'', JString (ad_tool_name (ir_action input))), (''actionType'', ser_action_type (ad_action_type (ir_action input))),
      (''payload'', JObject (ad_payload (ir_action input))),
      (''requestedSecrets'', JArray (map JString (case ir_requested_secrets input of Some s \<Rightarrow> s | None \<Rightarrow> [])))]"

definition collect_a2a_text :: "json list \<Rightarrow> string" where
  "collect_a2a_text parts =
     join_with [CHR 0x0A]
       (List.map_filter
         (\<lambda>part. Option.bind (str_field part ''text'') (\<lambda>s. if str_trim s = [] then None else Some (str_trim s)))
         (List.map_filter as_object parts))"

definition normalize_a2a_payload :: "inspect_request \<Rightarrow> fields" where
  "normalize_a2a_payload input =
     (case a2a_body_and_method (ad_payload (ir_action input)) of
        (content, m, _) \<Rightarrow>
          (let message = a2a_message content in
           [(''toolName'', JString (ad_tool_name (ir_action input)))] @
           opt_entry ''method'' JString m @
           concat (map (\<lambda>k. opt_entry k JString (or_else (str_field message k) (str_field content k)))
             [''taskId'', ''contextId'', ''messageId'', ''skill'']) @
           opt_entry ''role'' JString (str_field message ''role'') @
           (case arr_field message ''parts'' of
              Some parts \<Rightarrow>
                [(''parts'', JArray parts), (''partCount'', count_json (length parts))] @
                (if collect_a2a_text parts = [] then [] else [(''messageText'', JString (collect_a2a_text parts))])
            | None \<Rightarrow> []) @
           concat (map (\<lambda>k. opt_entry k id (map_of content k)) [''configuration'', ''metadata'', ''task''])))"

definition normalize_acp_payload :: "inspect_request \<Rightarrow> fields" where
  "normalize_acp_payload input =
     (let root1 = ad_payload (ir_action input); content = acp_body root1 in
      [(''toolName'', JString (ad_tool_name (ir_action input)))] @
      opt_entry ''route'' JString (route_from_acp_root root1) @
      opt_entry ''method'' JString (str_field root1 ''method'') @
      concat (map (\<lambda>(k, target). opt_entry target id (or_else (map_of content k) (map_of root1 k)))
        [(''agent_name'', ''agentName''), (''mode'', ''mode''), (''session_id'', ''sessionId''), (''run_id'', ''runId'')]) @
      (case arr_field content ''input'' of
         Some messages \<Rightarrow>
           (let objects = List.map_filter as_object messages in
            [(''input'', JArray messages), (''messageCount'', count_json (length messages)),
             (''partCount'', count_json (sum_list (map length (List.map_filter (\<lambda>msg. arr_field msg ''parts'') objects))))] @
            opt_entry ''firstRole'' JString
              (case List.map_filter (\<lambda>msg. str_field msg ''role'') objects of r # _ \<Rightarrow> Some r | [] \<Rightarrow> None))
       | None \<Rightarrow> []))"

definition normalize_protocol_payload :: "inspect_request \<Rightarrow> protocol_kind \<Rightarrow> fields" where
  "normalize_protocol_payload input protocol =
     (case protocol of
        Mcp \<Rightarrow> normalize_mcp_payload input
      | A2a \<Rightarrow> normalize_a2a_payload input
      | Acp \<Rightarrow> normalize_acp_payload input
      | _ \<Rightarrow> ad_payload (ir_action input))"

section \<open>What validation accepts\<close>

text \<open>An MCP call passes exactly when it has what its tool cannot act without; the intent never matters.\<close>

definition mcp_required :: "string \<Rightarrow> fields \<Rightarrow> bool" where
  "mcp_required tool payload \<longleftrightarrow>
     (tool = ''filesystem.read'' \<or> tool = ''filesystem.write'' \<longrightarrow> opt_is (\<lambda>s. s \<noteq> []) (str_field payload ''path''))
     \<and> (tool = ''filesystem.write'' \<longrightarrow> opt_is (\<lambda>v. v \<noteq> JNull) (map_of payload ''content''))
     \<and> (tool = ''terminal.exec'' \<longrightarrow> opt_is (\<lambda>s. s \<noteq> []) (str_field payload ''command'')
          \<and> (has_key payload ''destination'' \<longrightarrow> str_field payload ''destination'' \<noteq> None))
     \<and> (tool = ''http.fetch'' \<longrightarrow> opt_is (\<lambda>s. s \<in> set HTTP_METHODS) (str_field payload ''method'')
          \<and> (\<exists>k \<in> set DEFAULT_EGRESS_DESTINATION_FIELDS. nonblank (str_field payload k)))"

lemma finalize_valid [simp]: "fst (finalize hard advisory) \<longleftrightarrow> hard = []"
  by (simp add: finalize_def)

lemma require_text_ok [simp]: "require_text payload k = [] \<longleftrightarrow> opt_is (\<lambda>s. s \<noteq> []) (str_field payload k)"
  by (auto simp: require_text_def opt_is_def split: option.splits list.splits)

lemma content_present:
  "(case x of Some JNull \<Rightarrow> [msg] | Some _ \<Rightarrow> [] | None \<Rightarrow> [msg]) = [] \<longleftrightarrow> opt_is (\<lambda>v. v \<noteq> JNull) x"
  by (auto simp: opt_is_def split: option.splits json.splits)

lemma destination_text:
  "(case map_of payload k of Some (JString s) \<Rightarrow> [] | Some _ \<Rightarrow> [msg] | None \<Rightarrow> []) = [] \<longleftrightarrow>
     (has_key payload k \<longrightarrow> str_field payload k \<noteq> None)"
  by (auto simp: has_key_def str_field_def split: option.splits json.splits)

lemma mcp_valid_iff: "sv_valid (validate_mcp_tool input) \<longleftrightarrow> mcp_required (ad_tool_name (ir_action input)) (ad_payload (ir_action input))"
proof -
  have "fst (validate_schema tool payload) \<longleftrightarrow> mcp_required tool payload" for tool payload
    unfolding validate_schema_def validate_filesystem_read_def validate_filesystem_write_def validate_terminal_exec_def
      validate_http_fetch_def
    by (auto simp: mcp_required_def content_present destination_text list_ex_iff)
  then show ?thesis by (simp add: validate_mcp_tool_def case_prod_beta)
qed

text \<open>An A2A message part, and an accepted envelope that sends a message.\<close>

lemma enumerate_findings_Nil: "enumerate_findings f i vs = [] \<longleftrightarrow> (\<forall>j < length vs. f (i + j) (vs ! j) = [])"
proof (induction vs arbitrary: i)
  case (Cons v vs)
  then show ?case by (auto simp: nth_Cons less_Suc_eq_0_disj split: nat.splits)
qed simp

lemma a2a_message_valid:
  assumes "sv_valid (validate_a2a_payload input)" "a2a_body_and_method (ad_payload (ir_action input)) = (content, m, opening)" "sends_message content m"
  shows "opt_is is_supported_a2a_role (str_field (a2a_message content) ''role'')
    \<and> (\<exists>parts. arr_field (a2a_message content) ''parts'' = Some parts \<and> parts \<noteq> [] \<and> (\<forall>p \<in> set parts. as_object p \<noteq> None))"
proof -
  have ok: "validate_a2a_message content = []"
    using assms by (simp add: validate_a2a_payload_def schema_result_def a2a_findings_def)
  then have "opt_is is_supported_a2a_role (str_field (a2a_message content) ''role'')"
    by (simp add: validate_a2a_message_def Let_def opt_is_def split: option.splits if_splits)
  moreover obtain p ps where ps: "arr_field (a2a_message content) ''parts'' = Some (p # ps)" "enumerate_findings validate_a2a_part 0 (p # ps) = []"
    using ok by (auto simp: validate_a2a_message_def Let_def split: option.splits list.splits)
  moreover have "as_object v \<noteq> None" if "v \<in> set (p # ps)" for v
    using ps(2) that by (auto simp: enumerate_findings_Nil in_set_conv_nth validate_a2a_part_def split: option.splits)
  ultimately show ?thesis by blast
qed

text \<open>Detection reads neither the workspace nor the tenant of a request.\<close>

lemma detect_protocol_scope [simp]:
  "detect_protocol tbl (input\<lparr>ir_workspace_id := w, ir_tenant_id := t\<rparr>) = detect_protocol tbl input"
  "validate_protocol_payload u (input\<lparr>ir_workspace_id := w, ir_tenant_id := t\<rparr>) p = validate_protocol_payload u input p"
  "normalize_protocol_payload (input\<lparr>ir_workspace_id := w, ir_tenant_id := t\<rparr>) p = normalize_protocol_payload input p"
  by (simp_all add: detect_protocol_def validate_protocol_payload_def validate_mcp_tool_def validate_a2a_payload_def
      validate_acp_payload_def normalize_protocol_payload_def normalize_mcp_payload_def normalize_a2a_payload_def normalize_acp_payload_def
      Let_def split: protocol_kind.splits option.splits)

end
