(* ===== verification/Adaptive_Scorer.thy ===== *)
theory Adaptive_Scorer
  imports Taint_Tracker Rust_Floats
begin

text \<open>
  The adaptive risk scorer of \<open>crates/iaga-sentinel-core/src/modules/risk/adaptive_scorer.rs\<close>: four
  signed signals that make up the score, two advisory ones over the baseline of an agent, the weights
  and their adjustment by feedback. Doubles are rationals with rounding; whether a regular expression
  matches is a parameter, and the decision time enters as its hour and its milliseconds.
\<close>

section \<open>Data\<close>

record risk_signal =
  rk_name :: string
  rk_score :: u32
  rk_weight :: rat
  rk_reasons :: "string list"

record adaptive_risk_result =
  ar_total_score :: u32
  ar_decision :: string
  ar_signals :: "risk_signal list"
  ar_advisory :: "risk_signal list"

record weights =
  wt_stat :: rat
  wt_context :: rat
  wt_behavioral :: rat
  wt_temporal :: rat
  wt_reputation :: rat

definition default_weights :: weights where
  "default_weights = \<lparr>wt_stat = rnd64 (20 / 100), wt_context = rnd64 (25 / 100), wt_behavioral = rnd64 (20 / 100),
     wt_temporal = rnd64 (15 / 100), wt_reputation = rnd64 (20 / 100)\<rparr>"

definition ADAPTIVE_THRESHOLD_REVIEW :: u32 where
  "ADAPTIVE_THRESHOLD_REVIEW = 35"

record agent_baseline =
  bl_avg_calls :: rat
  bl_common_tools :: "(string \<times> u32) list"
  bl_common_actions :: "(string \<times> u32) list"
  bl_total_sessions :: u32

type_synonym baselines = "(string \<times> agent_baseline) list"

definition new_baseline :: agent_baseline where
  "new_baseline = \<lparr>bl_avg_calls = 5, bl_common_tools = [], bl_common_actions = [], bl_total_sessions = 0\<rparr>"

definition get_baseline :: "baselines \<Rightarrow> string \<Rightarrow> agent_baseline" where
  "get_baseline store agent_id = (case map_of store agent_id of Some b \<Rightarrow> b | None \<Rightarrow> new_baseline)"

definition fsub :: "rat \<Rightarrow> rat \<Rightarrow> rat" where
  "fsub x y = rnd64 (x - y)"

definition count_up :: "string \<Rightarrow> (string \<times> u32) list \<Rightarrow> (string \<times> u32) list" where
  "count_up k m = AList.update k ((case map_of m k of Some n \<Rightarrow> n | None \<Rightarrow> 0) + 1) m"

definition update_baseline :: "string \<Rightarrow> string \<Rightarrow> string \<Rightarrow> u32 \<Rightarrow> baselines \<Rightarrow> baselines" where
  "update_baseline agent_id tool_name action_type call_count store =
     (let b = get_baseline store agent_id; alpha = rnd64 (1 / 10) in
      AList.update agent_id
        \<lparr>bl_avg_calls = fadd (fmul (fsub 1 alpha) (bl_avg_calls b)) (fmul alpha (of_nat (unat call_count))),
         bl_common_tools = count_up tool_name (bl_common_tools b), bl_common_actions = count_up action_type (bl_common_actions b),
         bl_total_sessions = bl_total_sessions b + 1\<rparr> store)"

section \<open>Signed signals\<close>

definition STATIC_RISK_PATTERNS :: "(string \<times> u32 \<times> string) list" where
  "STATIC_RISK_PATTERNS =
     [(''database'' @ [CHR 0x5C] @ ''.delete'', 90, ''database deletion''), (''database'' @ [CHR 0x5C] @ ''.drop'', 95, ''database drop''),
      (''rm'' @ [CHR 0x5C] @ ''s+-rf'', 85, ''recursive force delete''), (''chmod'' @ [CHR 0x5C] @ ''s+777'', 75, ''world-writable permissions''),
      (''curl.+'' @ [CHR 0x5C] @ ''|.+sh'', 90, ''pipe from curl to shell''), (''powershell.+-enc'', 85, ''encoded powershell''),
      (''ngrok|pastebin|webhook'' @ [CHR 0x5C] @ ''.site'', 70, ''suspicious external service''), (''passwd|shadow'', 60, ''system auth files''),
      ([CHR 0x5C] @ ''.ssh'', 55, ''SSH keys access''), ([CHR 0x5C] @ ''.env'', 50, ''environment secrets'')]"

definition base_risk :: "string \<Rightarrow> u32" where
  "base_risk action_type =
     (if action_type = ''file_read'' then 15 else if action_type = ''file_write'' then 40 else if action_type = ''shell'' then 60
      else if action_type = ''http'' then 30 else if action_type = ''db_query'' then 35 else if action_type = ''email'' then 45
      else if action_type = ''custom'' then 25 else 20)"

definition pattern_step :: "(string \<Rightarrow> string \<Rightarrow> bool) \<Rightarrow> string \<Rightarrow> string \<times> u32 \<times> string \<Rightarrow> u32 \<times> string list \<Rightarrow> u32 \<times> string list" where
  "pattern_step is_match txt = (\<lambda>(re, bonus, why) (score, reasons).
     if is_match re txt then (min (score + bonus div 2) 100, reasons @ [why]) else (score, reasons))"

definition static_risk ::
  "(string \<Rightarrow> string \<Rightarrow> bool) \<Rightarrow> (string \<Rightarrow> string) \<Rightarrow> weights \<Rightarrow> string \<Rightarrow> string \<Rightarrow> string \<Rightarrow> risk_signal" where
  "static_risk is_match tbl w action_type tool_name payload_str =
     (let base = base_risk action_type;
          (score, reasons) = fold (pattern_step is_match (lowercase tbl (tool_name @ '' '' @ payload_str))) STATIC_RISK_PATTERNS
            (base, [''base risk for '' @ action_type @ '': '' @ show_nat (unat base)])
      in \<lparr>rk_name = ''static'', rk_score = min score 100, rk_weight = wt_stat w, rk_reasons = reasons\<rparr>)"

text \<open>The violations weigh in first; many labels and secrets raise the result.\<close>

definition violation_risk :: "taint_analysis_result \<Rightarrow> u32 \<times> string list" where
  "violation_risk t =
     (if ta_exfiltration_detected t then (100, [''data exfiltration detected by taint tracking''])
      else if ta_blocked t then (90, [''taint policy violation''])
      else if ta_violations t \<noteq> [] then
        (60 + min (of_nat (length (ta_violations t)) * 10) 40, [show_nat (length (ta_violations t)) @ '' taint violation(s)''])
      else (0, []))"

definition context_risk :: "weights \<Rightarrow> taint_analysis_result option \<Rightarrow> risk_signal" where
  "context_risk w taint =
     (case taint of
        None \<Rightarrow> \<lparr>rk_name = ''context'', rk_score = 0, rk_weight = wt_context w, rk_reasons = [''no taint data'']\<rparr>
      | Some t \<Rightarrow>
          (let (s0, r0) = violation_risk t; n = card (ta_accumulated_labels t);
               (s1, r1) = (if 4 \<le> n then (max s0 50, r0 @ [''high taint accumulation: '' @ show_nat n @ '' labels'']) else (s0, r0));
               (s2, r2) = (if ''secret'' \<in> set (ta_source_taints t) then (max s1 60, r1 @ [''secret data involved'']) else (s1, r1))
           in \<lparr>rk_name = ''context'', rk_score = min s2 100, rk_weight = wt_context w, rk_reasons = r2\<rparr>))"

definition temporal_offhours :: "weights \<Rightarrow> nat \<Rightarrow> risk_signal" where
  "temporal_offhours w hour =
     (let off = hour < 6 \<or> 22 < hour in
      \<lparr>rk_name = ''temporal'', rk_score = (if off then 10 else 0), rk_weight = wt_temporal w,
       rk_reasons = (if off then [''off-hours activity (hour: '' @ show_nat hour @ '')''] else [])\<rparr>)"

text \<open>
  The reputation of agent and tool, on trust values that are not negative; \<open>+=\<close> on the score wraps.
\<close>

definition reputation_risk :: "weights \<Rightarrow> rat \<Rightarrow> rat \<Rightarrow> risk_signal" where
  "reputation_risk w agent_trust tool_trust =
     (let avg = fdiv (fadd agent_trust tool_trust) 2;
          low = rnd64 (2 / 10);
          score = f64_as_u32 (fmul (fsub 1 avg) 70) + (if agent_trust < low then 15 else 0) + (if tool_trust < low then 15 else 0);
          reasons = (if agent_trust < low then [''low agent trust: '' @ show_fixed 2 agent_trust] else []) @
            (if tool_trust < low then [''low tool trust: '' @ show_fixed 2 tool_trust] else []) @
            [if rnd64 (8 / 10) < avg then ''high trust: '' @ show_fixed 2 avg
             else if rnd64 (5 / 10) < avg then ''moderate trust: '' @ show_fixed 2 avg
             else ''insufficient trust history: '' @ show_fixed 2 avg]
      in \<lparr>rk_name = ''reputation'', rk_score = min score 100, rk_weight = wt_reputation w, rk_reasons = reasons\<rparr>)"

section \<open>Advisory signals\<close>

definition behavioral_risk :: "weights \<Rightarrow> agent_baseline \<Rightarrow> string \<Rightarrow> string \<Rightarrow> u32 \<Rightarrow> risk_signal" where
  "behavioral_risk w b tool_name action_type session_calls =
     (if bl_total_sessions b = 0 then
        \<lparr>rk_name = ''behavioral'', rk_score = 15, rk_weight = wt_behavioral w, rk_reasons = [''new agent, no baseline established'']\<rparr>
      else
        (let tool_freq = (case map_of (bl_common_tools b) tool_name of Some n \<Rightarrow> n | None \<Rightarrow> 0);
             total_calls = sum_list (map snd (bl_common_tools b));
             deviation = fdiv (of_nat (unat session_calls)) (bl_avg_calls b);
             novel_tool = 0 < total_calls \<and> tool_freq = 0;
             novel_action = map_of (bl_common_actions b) action_type = None \<and> 5 < bl_total_sessions b;
             (ds, dr) = (if \<not> 0 < bl_avg_calls b then (0, [])
               else if 5 < deviation then (40, [''call count '' @ show_nat (unat (f64_as_u32 deviation)) @ ''x above baseline''])
               else if 3 < deviation then (20, [''elevated call count: '' @ show_fixed 1 deviation @ ''x baseline''])
               else (0, []));
             score = (if novel_tool then 30 else 0) + ds + (if novel_action then 25 else 0)
         in \<lparr>rk_name = ''behavioral'', rk_score = min score 100, rk_weight = wt_behavioral w,
              rk_reasons =
                (if novel_tool then [''tool '' @ [CHR 0x22] @ tool_name @ [CHR 0x22] @ '' never used before''] else []) @ dr @
                (if novel_action then [''action type '' @ [CHR 0x22] @ action_type @ [CHR 0x22] @ '' is novel''] else [])\<rparr>))"

definition temporal_burst :: "weights \<Rightarrow> u64 list \<Rightarrow> u64 \<Rightarrow> risk_signal" where
  "temporal_burst w call_timestamps now =
     (let recent = length (filter (\<lambda>t. (if now \<le> t then 0 else now - t) < 5000) call_timestamps) in
      \<lparr>rk_name = ''burst'', rk_score = (if 10 < recent then 50 else if 5 < recent then 25 else 0), rk_weight = wt_temporal w,
       rk_reasons = (if 10 < recent then [''burst: '' @ show_nat recent @ '' calls in 5s'']
         else if 5 < recent then [''elevated rate: '' @ show_nat recent @ '' calls in 5s''] else [])\<rparr>)"

section \<open>The score\<close>

record adaptive_score_input =
  ai_agent_id :: string
  ai_action_type :: string
  ai_tool_name :: string
  ai_payload_str :: string
  ai_taint_result :: "taint_analysis_result option"
  ai_session_call_count :: u32
  ai_call_timestamps :: "u64 list"
  ai_agent_trust :: rat
  ai_tool_trust :: rat

definition weighted_total :: "risk_signal list \<Rightarrow> rat" where
  "weighted_total signals = fold (\<lambda>s acc. fadd acc (fmul (of_nat (unat (rk_score s))) (rk_weight s))) signals 0"

definition rounded_score :: "rat \<Rightarrow> u32" where
  "rounded_score x = min (f64_as_u32 (of_int (round_half_up x))) 100"

definition calculate_adaptive_risk ::
  "(string \<Rightarrow> string \<Rightarrow> bool) \<Rightarrow> (string \<Rightarrow> string) \<Rightarrow> weights \<Rightarrow> baselines \<Rightarrow> adaptive_score_input \<Rightarrow> nat \<Rightarrow> u64 \<Rightarrow> adaptive_risk_result" where
  "calculate_adaptive_risk is_match tbl w store input hour now =
     (let signals =
        [static_risk is_match tbl w (ai_action_type input) (ai_tool_name input) (ai_payload_str input),
         context_risk w (ai_taint_result input), temporal_offhours w hour,
         reputation_risk w (ai_agent_trust input) (ai_tool_trust input)];
        total_score = rounded_score (weighted_total signals)
      in \<lparr>ar_total_score = total_score,
          ar_decision =
            (if (case ai_taint_result input of Some t \<Rightarrow> ta_exfiltration_detected t | None \<Rightarrow> False) then ''block''
             else if ADAPTIVE_THRESHOLD_REVIEW \<le> total_score then ''human_review'' else ''pass''),
          ar_signals = signals,
          ar_advisory =
            [behavioral_risk w (get_baseline store (ai_agent_id input)) (ai_tool_name input) (ai_action_type input) (ai_session_call_count input),
             temporal_burst w (ai_call_timestamps input) now]\<rparr>)"

section \<open>Feedback\<close>

definition nudge :: "string \<Rightarrow> weights \<Rightarrow> weights" where
  "nudge feedback w =
     (let lr = rnd64 (2 / 100) in
      if feedback = ''false_positive'' then
        w\<lparr>wt_stat := max (fsub (wt_stat w) lr) (rnd64 (5 / 100)), wt_context := max (fsub (wt_context w) lr) (rnd64 (5 / 100))\<rparr>
      else if feedback = ''false_negative'' then
        w\<lparr>wt_stat := min (fadd (wt_stat w) lr) (rnd64 (5 / 10)), wt_context := min (fadd (wt_context w) lr) (rnd64 (5 / 10))\<rparr>
      else w)"

definition apply_feedback :: "string \<Rightarrow> weights \<Rightarrow> weights" where
  "apply_feedback feedback w =
     (let n = nudge feedback w;
          total_weight = fadd (fadd (fadd (fadd (wt_stat n) (wt_context n)) (wt_behavioral n)) (wt_temporal n)) (wt_reputation n)
      in \<lparr>wt_stat = fdiv (wt_stat n) total_weight, wt_context = fdiv (wt_context n) total_weight, wt_behavioral = fdiv (wt_behavioral n) total_weight,
          wt_temporal = fdiv (wt_temporal n) total_weight, wt_reputation = fdiv (wt_reputation n) total_weight\<rparr>)"

section \<open>The ceiling of the signed score\<close>

lemma fadd_le: "a \<le> A \<Longrightarrow> b \<le> B \<Longrightarrow> 0 \<le> A + B \<Longrightarrow> (A + B) + (A + B) / 2 ^ 53 \<le> C \<Longrightarrow> fadd a b \<le> C"
  unfolding fadd_def by (rule rnd64_le [of _ "A + B"]) auto

lemma fmul_le:
  assumes "s \<le> S" "0 \<le> s" "w \<le> W" "0 \<le> W" "S * W + S * W / 2 ^ 53 \<le> C"
  shows "fmul s w \<le> C"
  unfolding fmul_def
proof (rule rnd64_le [of _ "S * W"])
  show "s * w \<le> S * W" using assms by (meson mult_left_mono mult_right_mono order_trans)
qed (use assms in auto)

lemma default_weights_le:
  "wt_stat default_weights \<le> 20001 / 100000" "wt_context default_weights \<le> 25001 / 100000"
  "wt_temporal default_weights \<le> 15001 / 100000" "wt_reputation default_weights \<le> 20001 / 100000"
proof -
  have "rnd64 (20 / 100) \<le> 20001 / 100000" by (rule rnd64_le [of _ "20 / 100"]) simp_all
  moreover have "rnd64 (25 / 100) \<le> 25001 / 100000" by (rule rnd64_le [of _ "25 / 100"]) simp_all
  moreover have "rnd64 (15 / 100) \<le> 15001 / 100000" by (rule rnd64_le [of _ "15 / 100"]) simp_all
  ultimately show "wt_stat default_weights \<le> 20001 / 100000" "wt_context default_weights \<le> 25001 / 100000"
    "wt_temporal default_weights \<le> 15001 / 100000" "wt_reputation default_weights \<le> 20001 / 100000"
    by (simp_all only: default_weights_def weights.simps)
qed

text \<open>The policies of one sink are at most one, so a request has at most one violation.\<close>

lemma one_policy_per_sink: "length (filter (\<lambda>p. tpol_sink p = sk) default_policies) \<le> 1"
  by (cases sk) (simp_all add: default_policies_def)

lemma map_filter_length: "length (List.map_filter f xs) \<le> length xs"
  by (simp add: List.map_filter_def)

lemma at_most_one_violation: "length (ta_violations (analyze_taint l a t p inh)) \<le> 1"
proof -
  have "length (List.map_filter f (filter (\<lambda>p. tpol_sink p = sk) default_policies)) \<le> 1" for sk and f :: "taint_policy \<Rightarrow> taint_violation option"
    by (rule order_trans [OF map_filter_length one_policy_per_sink])
  then have "length (taint_violations sink labels) \<le> 1" for sink labels
    unfolding taint_violations_def by (cases sink) simp_all
  then show ?thesis by (simp add: analyze_taint_def Let_def)
qed

lemma violation_risk_le:
  assumes "\<not> ta_exfiltration_detected t" "length (ta_violations t) \<le> 1"
  shows "fst (violation_risk t) \<le> 90"
  using assms by (cases "ta_violations t") (simp_all add: violation_risk_def)

lemma context_risk_le:
  assumes "\<And>t. taint = Some t \<Longrightarrow> \<not> ta_exfiltration_detected t \<and> length (ta_violations t) \<le> 1"
  shows "rk_score (context_risk w taint) \<le> 90"
proof (cases taint)
  case (Some t)
  obtain s0 r0 where v: "violation_risk t = (s0, r0)" by fastforce
  have s0: "s0 \<le> 90" using violation_risk_le [of t] assms [OF Some] v by simp
  have m: "max x y \<le> 90" if "x \<le> 90" "y \<le> 90" for x y :: u32 using that by (simp add: max_def)
  have "max s0 50 \<le> 90" "max s0 60 \<le> 90" "max (max s0 50) 60 \<le> 90" by (intro m s0; simp)+
  then show ?thesis using s0 by (simp add: context_risk_def Some v Let_def min.coboundedI1)
qed (simp add: context_risk_def)

lemma signal_bounds:
  "rk_score (static_risk is_match tbl w a t p) \<le> 100" "rk_score (temporal_offhours w hour) \<le> 10"
  "rk_score (reputation_risk w x y) \<le> 100"
  by (simp_all add: static_risk_def temporal_offhours_def reputation_risk_def Let_def split: prod.split)

lemma signal_weights [simp]:
  "rk_weight (static_risk is_match tbl w a t p) = wt_stat w" "rk_weight (context_risk w taint) = wt_context w"
  "rk_weight (temporal_offhours w hour) = wt_temporal w" "rk_weight (reputation_risk w x y) = wt_reputation w"
  by (simp_all add: static_risk_def context_risk_def temporal_offhours_def reputation_risk_def Let_def split: prod.split option.split)

lemma word_score_le: "s \<le> of_nat n \<Longrightarrow> n < 2 ^ 32 \<Longrightarrow> (of_nat (unat (s :: u32)) :: rat) \<le> of_nat n"
proof -
  assume "s \<le> of_nat n" "n < 2 ^ 32"
  then have "unat s \<le> n" by (simp add: word_le_nat_alt unsigned_of_nat take_bit_nat_eq_self)
  then show "(of_nat (unat s) :: rat) \<le> of_nat n" by (rule of_nat_mono)
qed

lemma weighted_total_le:
  assumes "rk_score a \<le> 100" "rk_score b \<le> 90" "rk_score c \<le> 10" "rk_score d \<le> 100"
    "rk_weight a = wt_stat default_weights" "rk_weight b = wt_context default_weights"
    "rk_weight c = wt_temporal default_weights" "rk_weight d = wt_reputation default_weights"
  shows "weighted_total [a, b, c, d] \<le> 6410 / 100"
proof -
  let ?p = "\<lambda>s. fmul (of_nat (unat (rk_score s))) (rk_weight s)"
  have s: "(of_nat (unat (rk_score a)) :: rat) \<le> 100" "(of_nat (unat (rk_score b)) :: rat) \<le> 90"
    "(of_nat (unat (rk_score c)) :: rat) \<le> 10" "(of_nat (unat (rk_score d)) :: rat) \<le> 100"
    using assms(1-4) word_score_le [of "rk_score a" 100] word_score_le [of "rk_score b" 90]
      word_score_le [of "rk_score c" 10] word_score_le [of "rk_score d" 100] by simp_all
  have z: "(0 :: rat) \<le> of_nat (unat (v :: u32))" for v by (rule of_nat_0_le_iff)
  have pa: "?p a \<le> 20002 / 1000" by (rule fmul_le [OF s(1) z default_weights_le(1) [folded assms(5)]]) simp_all
  have pb: "?p b \<le> 22502 / 1000" by (rule fmul_le [OF s(2) z default_weights_le(2) [folded assms(6)]]) simp_all
  have pc: "?p c \<le> 1502 / 1000" by (rule fmul_le [OF s(3) z default_weights_le(3) [folded assms(7)]]) simp_all
  have pd: "?p d \<le> 20002 / 1000" by (rule fmul_le [OF s(4) z default_weights_le(4) [folded assms(8)]]) simp_all
  have "fadd 0 (?p a) \<le> 20003 / 1000" by (rule fadd_le [OF order_refl pa]) simp_all
  from fadd_le [OF this pb, of "42506 / 1000"] have "fadd (fadd 0 (?p a)) (?p b) \<le> 42506 / 1000" by simp
  from fadd_le [OF this pc, of "44009 / 1000"] have "fadd (fadd (fadd 0 (?p a)) (?p b)) (?p c) \<le> 44009 / 1000" by simp
  from fadd_le [OF this pd, of "6410 / 100"] show ?thesis by (simp add: weighted_total_def add.commute fadd_def)
qed

lemma rounded_score_le: "x \<le> 6410 / 100 \<Longrightarrow> rounded_score x \<le> 64"
proof -
  assume "x \<le> 6410 / 100"
  then have "\<lfloor>x + 1 / 2\<rfloor> \<le> 64" unfolding floor_le_iff by simp
  then have n: "nat \<lfloor>x + 1 / 2\<rfloor> \<le> 64" by linarith
  then have "(of_nat (nat \<lfloor>x + 1 / 2\<rfloor>) :: u32) \<le> 64"
    using n by (simp add: word_le_nat_alt unsigned_of_nat take_bit_nat_eq_self)
  moreover have "f64_as_u32 (of_int (round_half_up x)) = of_nat (nat \<lfloor>x + 1 / 2\<rfloor>)"
    using n by (simp add: f64_as_u32_def round_half_up_def)
  ultimately show ?thesis by (simp add: rounded_score_def min.coboundedI1)
qed

text \<open>
  The layer cannot block on its score: with the default weights and a taint analysis that reports no
  exfiltration, the score stays at 64 and the verdict is a review or a pass.
\<close>

lemma adaptive_ceiling:
  assumes "\<not> ta_exfiltration_detected (analyze_taint l (ai_action_type i) (ai_tool_name i) (ai_payload_str i) inherited)"
    and "ai_taint_result i = Some (analyze_taint l (ai_action_type i) (ai_tool_name i) (ai_payload_str i) inherited)"
  shows "ar_total_score (calculate_adaptive_risk is_match tbl default_weights store i hour now) \<le> 64"
    and "ar_decision (calculate_adaptive_risk is_match tbl default_weights store i hour now) \<in> {''pass'', ''human_review''}"
proof -
  have "rk_score (context_risk default_weights (ai_taint_result i)) \<le> 90"
    using assms at_most_one_violation by (intro context_risk_le) simp
  then have "weighted_total [static_risk is_match tbl default_weights (ai_action_type i) (ai_tool_name i) (ai_payload_str i),
      context_risk default_weights (ai_taint_result i), temporal_offhours default_weights hour,
      reputation_risk default_weights (ai_agent_trust i) (ai_tool_trust i)] \<le> 6410 / 100"
    by (intro weighted_total_le signal_bounds) simp_all
  then show "ar_total_score (calculate_adaptive_risk is_match tbl default_weights store i hour now) \<le> 64"
    unfolding calculate_adaptive_risk_def Let_def adaptive_risk_result.simps by (rule rounded_score_le)
  show "ar_decision (calculate_adaptive_risk is_match tbl default_weights store i hour now) \<in> {''pass'', ''human_review''}"
    using assms by (simp add: calculate_adaptive_risk_def Let_def)
qed

lemma exfiltration_blocks:
  "ai_taint_result i = Some t \<Longrightarrow> ta_exfiltration_detected t
    \<Longrightarrow> ar_decision (calculate_adaptive_risk is_match tbl w store i hour now) = ''block''"
  by (simp add: calculate_adaptive_risk_def Let_def)

text \<open>The signed part does not see the baselines, the clock of the session or its calls.\<close>

lemma signed_part_ignores_baselines:
  "ar_total_score (calculate_adaptive_risk is_match tbl w store (i\<lparr>ai_session_call_count := c, ai_call_timestamps := ts, ai_agent_id := aid\<rparr>) hour now)
     = ar_total_score (calculate_adaptive_risk is_match tbl w store' i hour now')"
  "ar_decision (calculate_adaptive_risk is_match tbl w store (i\<lparr>ai_session_call_count := c, ai_call_timestamps := ts, ai_agent_id := aid\<rparr>) hour now)
     = ar_decision (calculate_adaptive_risk is_match tbl w store' i hour now')"
  by (simp_all add: calculate_adaptive_risk_def Let_def)

end
