(* ===== verification/Prompt_Firewall.thy ===== *)
theory Prompt_Firewall
  imports Rust_Strings Rust_Floats "HOL-Library.List_Lexorder" "HOL-Library.Char_ord"
begin

text \<open>
  The prompt injection firewall of
  \<open>crates/iaga-sentinel-core/src/modules/injection_firewall/prompt_firewall.rs\<close>: the normalization of
  full-width characters, the three stages, and the composition of their scores. The matches of a
  regular expression, the Unicode tables for case and for letters, and the binary logarithm are
  parameters; a clock gives the start and the end of a stage.
\<close>

section \<open>Libraries and results\<close>

text \<open>\<open>fl_find re text\<close> lists the matches from left to right, each with its offset.\<close>

record firewall_lib =
  fl_find :: "string \<Rightarrow> string \<Rightarrow> (nat \<times> string) list"
  fl_lower :: "string \<Rightarrow> string"
  fl_alphanumeric :: "string \<Rightarrow> bool"
  fl_log2 :: "rat \<Rightarrow> rat"

record pattern_match =
  pm_pattern_name :: string
  pm_severity :: string
  pm_matched_text :: string
  pm_category :: string

record stage_result =
  st_stage :: u32
  st_name :: string
  st_triggered :: bool
  st_score :: u32
  st_matches :: "pattern_match list"
  st_duration_us :: u64

record firewall_result =
  fr_blocked :: bool
  fr_risk_score :: u32
  fr_stages_run :: u32
  fr_stage_results :: "stage_result list"
  fr_summary :: string
  fr_timestamp :: u64

record firewall_stats =
  ft_total_scanned :: u64
  ft_total_blocked :: u64
  ft_stage1_catches :: u64
  ft_stage2_catches :: u64
  ft_stage3_catches :: u64
  ft_false_positives_reported :: u64

definition report_false_positive :: "firewall_stats \<Rightarrow> firewall_stats" where
  "report_false_positive s = s\<lparr>ft_false_positives_reported := ft_false_positives_reported s + 1\<rparr>"

section \<open>Characters\<close>

text \<open>A continuation byte of UTF-8, and the characters of a string, each as its bytes.\<close>

definition is_continuation :: "char \<Rightarrow> bool" where
  "is_continuation ch \<longleftrightarrow> 128 \<le> (of_char ch :: nat) \<and> (of_char ch :: nat) < 192"

function chars :: "string \<Rightarrow> string list" where
  "chars [] = []"
| "chars (x # xs) = (x # takeWhile is_continuation xs) # chars (dropWhile is_continuation xs)"
  by pat_completeness auto
termination by (relation "measure length") (auto simp: less_Suc_eq_le length_dropWhile_le)

definition is_char_boundary :: "string \<Rightarrow> nat \<Rightarrow> bool" where
  "is_char_boundary s i \<longleftrightarrow> i = 0 \<or> i = length s \<or> (i < length s \<and> \<not> is_continuation (s ! i))"

fun snap_down :: "string \<Rightarrow> nat \<Rightarrow> nat" where
  "snap_down s 0 = 0"
| "snap_down s (Suc i) = (if is_char_boundary s (Suc i) then Suc i else snap_down s i)"

definition truncate_on_char_boundary :: "string \<Rightarrow> nat \<Rightarrow> string" where
  "truncate_on_char_boundary s max_bytes = (if length s \<le> max_bytes then s else take (snap_down s max_bytes) s)"

text \<open>The code point of a character of three bytes.\<close>

definition codepoint3 :: "string \<Rightarrow> nat option" where
  "codepoint3 c =
     (case c of
        [a, b, d] \<Rightarrow>
          (let x = (of_char a :: nat); y = (of_char b :: nat); z = (of_char d :: nat) in
           if 224 \<le> x \<and> x < 240 then Some ((x - 224) * 4096 + (y - 128) * 64 + (z - 128)) else None)
      | _ \<Rightarrow> None)"

definition normalize_char :: "string \<Rightarrow> string" where
  "normalize_char c =
     (case codepoint3 c of
        Some n \<Rightarrow> if n = 0x3000 then '' '' else if 0xFF01 \<le> n \<and> n \<le> 0xFF5E then [char_of (n - 0xFEE0)] else c
      | None \<Rightarrow> c)"

definition normalize_compat_ascii :: "string \<Rightarrow> string" where
  "normalize_compat_ascii txt = concat (map normalize_char (chars txt))"

text \<open>The Cyrillic letters that look Latin, by their two bytes.\<close>

definition is_cyrillic_confusable :: "string \<Rightarrow> bool" where
  "is_cyrillic_confusable c \<longleftrightarrow>
     c \<in> set (map (map char_of)
       [[0xD0, 0xB0], [0xD0, 0xB5], [0xD1, 0x96], [0xD0, 0xBE], [0xD1, 0x80], [0xD1, 0x81], [0xD1, 0x83], [0xD1, 0x85],
        [0xD0, 0x90], [0xD0, 0x92], [0xD0, 0x95], [0xD0, 0x86], [0xD0, 0x9A], [0xD0, 0x9C], [0xD0, 0x9D], [0xD0, 0x9E],
        [0xD0, 0xA0], [0xD0, 0xA1], [0xD0, 0xA2], [0xD0, 0xA5 :: nat]])"

definition is_ascii_alphabetic :: "string \<Rightarrow> bool" where
  "is_ascii_alphabetic c \<longleftrightarrow>
     (case c of [x] \<Rightarrow> (let n = (of_char x :: nat) in (65 \<le> n \<and> n \<le> 90) \<or> (97 \<le> n \<and> n \<le> 122)) | _ \<Rightarrow> False)"

fun mixed_script :: "firewall_lib \<Rightarrow> bool \<Rightarrow> bool \<Rightarrow> string list \<Rightarrow> bool" where
  "mixed_script l latin cyrillic [] = False"
| "mixed_script l latin cyrillic (c # cs) =
     (if fl_alphanumeric l c \<or> c = ''_'' then
        (let a = (latin \<or> is_ascii_alphabetic c); b = (cyrillic \<or> is_cyrillic_confusable c)
         in if a \<and> b then True else mixed_script l a b cs)
      else mixed_script l False False cs)"

definition contains_mixed_script_token :: "firewall_lib \<Rightarrow> string \<Rightarrow> bool" where
  "contains_mixed_script_token l txt = mixed_script l False False (chars txt)"

section \<open>Stage 1\<close>

record injection_signature =
  sg_name :: string
  sg_pattern :: string
  sg_severity :: string
  sg_score :: u32
  sg_category :: string

definition signature_row :: "string \<Rightarrow> string \<Rightarrow> string \<Rightarrow> u32 \<Rightarrow> string \<Rightarrow> injection_signature" where
  "signature_row name pattern severity score category =
     \<lparr>sg_name = name, sg_pattern = pattern, sg_severity = severity, sg_score = score, sg_category = category\<rparr>"

text \<open>The backslash.\<close>

definition bslash :: string where
  "bslash = [CHR 0x5C]"

definition signatures :: "injection_signature list" where
  "signatures =
     [
      signature_row ''ignore_previous'' (''(?i)ignore'' @ bslash @ ''s+(all'' @ bslash @ ''s+)?(previous|prior|above)'' @ bslash @ ''s+(instructions|rules|directives)'') ''critical'' 95 ''instruction_override'',
      signature_row ''disregard_instructions'' (''(?i)disregard'' @ bslash @ ''s+(all'' @ bslash @ ''s+)?(previous|prior|your)'' @ bslash @ ''s+(instructions|rules|programming)'') ''critical'' 95 ''instruction_override'',
      signature_row ''new_instructions'' (''(?i)(new|updated|revised)'' @ bslash @ ''s+instructions?'' @ bslash @ ''s*:'') ''high'' 75 ''instruction_override'',
      signature_row ''forget_everything'' (''(?i)forget'' @ bslash @ ''s+(everything|all)'' @ bslash @ ''s+(you|that)'') ''critical'' 90 ''instruction_override'',
      signature_row ''override_system'' (''(?i)(override|bypass|skip)'' @ bslash @ ''s+(system|safety|security)'' @ bslash @ ''s+(prompt|rules|filters|checks)'') ''critical'' 95 ''instruction_override'',
      signature_row ''act_as'' (''(?i)(you'' @ bslash @ ''s+are'' @ bslash @ ''s+now|act'' @ bslash @ ''s+as|pretend'' @ bslash @ ''s+(to'' @ bslash @ ''s+be|you'' @ [CHR 0x27] @ ''re)|roleplay'' @ bslash @ ''s+as)'' @ bslash @ ''s+'') ''high'' 80 ''role_manipulation'',
      signature_row ''system_prompt_leak'' (''(?i)(show|reveal|display|print|output)'' @ bslash @ ''s+(your|the)'' @ bslash @ ''s+(system'' @ bslash @ ''s+prompt|instructions|rules|directives)'') ''critical'' 90 ''role_manipulation'',
      signature_row ''jailbreak_dan'' (''(?i)('' @ bslash @ ''bDAN'' @ bslash @ ''b|'' @ bslash @ ''bdo'' @ bslash @ ''s+anything'' @ bslash @ ''s+now'' @ bslash @ ''b|'' @ bslash @ ''bdeveloper'' @ bslash @ ''s+mode'' @ bslash @ ''b|'' @ bslash @ ''bgod'' @ bslash @ ''s+mode'' @ bslash @ ''b|'' @ bslash @ ''bsudo'' @ bslash @ ''s+mode'' @ bslash @ ''b)'') ''critical'' 95 ''role_manipulation'',
      signature_row ''hypothetical_framing'' (''(?i)(hypothetically|in'' @ bslash @ ''s+theory|just'' @ bslash @ ''s+for'' @ bslash @ ''s+fun|as'' @ bslash @ ''s+a'' @ bslash @ ''s+thought'' @ bslash @ ''s+experiment)'' @ bslash @ ''s*.*(execute|run|delete|hack|bypass)'') ''high'' 70 ''role_manipulation'',
      signature_row ''exfil_curl'' (''(?is)(curl|wget)'' @ bslash @ ''s+.*'' @ bslash @ ''|'' @ bslash @ ''s*(sh|bash)'' @ bslash @ ''b'') ''critical'' 95 ''exfiltration'',
      signature_row ''exfil_webhook'' (''(?i)(webhook'' @ bslash @ ''.site|requestbin|pipedream|ngrok|burp)'') ''high'' 85 ''exfiltration'',
      signature_row ''exfil_base64'' (''(?i)(base64|btoa|atob)'' @ bslash @ ''s*(encode|decode)?'' @ bslash @ ''s*.*'' @ bslash @ ''s*(send|post|curl|fetch|http)'') ''high'' 80 ''exfiltration'',
      signature_row ''exfil_env_vars'' (''(?i)(echo|print|cat|type)'' @ bslash @ ''s+.*('' @ bslash @ ''$'' @ bslash @ ''{?'' @ bslash @ ''w*KEY'' @ bslash @ ''w*'' @ bslash @ ''}?|'' @ bslash @ ''$'' @ bslash @ ''{?'' @ bslash @ ''w*SECRET'' @ bslash @ ''w*'' @ bslash @ ''}?|'' @ bslash @ ''$'' @ bslash @ ''{?'' @ bslash @ ''w*TOKEN'' @ bslash @ ''w*'' @ bslash @ ''}?|'' @ bslash @ ''$'' @ bslash @ ''{?'' @ bslash @ ''w*PASS'' @ bslash @ ''w*'' @ bslash @ ''}?)'') ''critical'' 90 ''exfiltration'',
      signature_row ''unicode_escape'' (bslash @ bslash @ ''u[0-9a-fA-F]{4}'') ''medium'' 40 ''obfuscation'',
      signature_row ''hex_escape'' (bslash @ bslash @ ''x[0-9a-fA-F]{2}'') ''medium'' 40 ''obfuscation'',
      signature_row ''zero_width_chars'' (''['' @ bslash @ ''u{200B}'' @ bslash @ ''u{200C}'' @ bslash @ ''u{200D}'' @ bslash @ ''u{FEFF}'' @ bslash @ ''u{2060}]'') ''high'' 80 ''obfuscation'',
      signature_row ''markdown_injection'' (''!'' @ bslash @ ''[.*'' @ bslash @ '']'' @ bslash @ ''(https?://.*'' @ bslash @ '')'') ''medium'' 50 ''indirect_injection'',
      signature_row ''html_injection'' (''(?i)<'' @ bslash @ ''s*(script|iframe|object|embed)(?:'' @ bslash @ ''s|>)'') ''high'' 85 ''indirect_injection'',
      signature_row ''html_event_handler'' (''(?is)<[^>]+'' @ bslash @ ''bon(?:error|load|click|focus|mouseover)'' @ bslash @ ''s*='') ''high'' 85 ''indirect_injection'',
      signature_row ''html_script_url'' (''(?is)<[^>]+(?:href|src)'' @ bslash @ ''s*='' @ bslash @ ''s*['' @ [CHR 0x22] @ [CHR 0x27] @ '']?'' @ bslash @ ''s*javascript:'') ''critical'' 90 ''indirect_injection'',
      signature_row ''data_uri'' (''(?i)data:[a-z0-9.+-]+/[a-z0-9.+-]+;base64,'') ''high'' 75 ''indirect_injection'',
      signature_row ''conversation_reset'' (''(?i)(start'' @ bslash @ ''s+(a'' @ bslash @ ''s+)?new'' @ bslash @ ''s+conversation|clear'' @ bslash @ ''s+(the'' @ bslash @ ''s+)?context|reset'' @ bslash @ ''s+(the'' @ bslash @ ''s+)?session)'') ''high'' 70 ''multi_turn'',
      signature_row ''tool_abuse'' (''(?i)(call|invoke|execute|run)'' @ bslash @ ''s+(the'' @ bslash @ ''s+)?(tool|function|api)'' @ bslash @ ''s+.*'' @ bslash @ ''s+(repeatedly|in'' @ bslash @ ''s+a'' @ bslash @ ''s+loop|continuously)'') ''high'' 80 ''multi_turn'',
      signature_row ''sudo_attempt'' (''(?i)(sudo|su'' @ bslash @ ''s+-|runas|elevate|admin'' @ bslash @ ''s+mode)'') ''high'' 75 ''privilege_escalation'',
      signature_row ''capability_request'' (''(?i)(grant|give|enable)'' @ bslash @ ''s+(me|yourself)'' @ bslash @ ''s+(access|permission|capability|privilege)'') ''high'' 70 ''privilege_escalation'']"

definition signature_match :: "firewall_lib \<Rightarrow> string \<Rightarrow> injection_signature \<Rightarrow> pattern_match option" where
  "signature_match l txt s =
     (case fl_find l (sg_pattern s) txt of
        [] \<Rightarrow> None
      | (_, m) # _ \<Rightarrow> Some \<lparr>pm_pattern_name = sg_name s, pm_severity = sg_severity s, pm_matched_text = truncate_on_char_boundary m 80,
          pm_category = sg_category s\<rparr>)"

definition max_score :: "u32 list \<Rightarrow> u32" where
  "max_score xs = fold max xs 0"

definition run_stage1 :: "firewall_lib \<Rightarrow> u64 \<times> u64 \<Rightarrow> string \<Rightarrow> stage_result" where
  "run_stage1 l clock txt =
     (let hits = filter (\<lambda>s. signature_match l txt s \<noteq> None) signatures in
      \<lparr>st_stage = 1, st_name = ''signature_scan'', st_triggered = (hits \<noteq> []), st_score = max_score (map sg_score hits),
       st_matches = List.map_filter (signature_match l txt) signatures, st_duration_us = snd clock - fst clock\<rparr>)"

section \<open>Stage 2\<close>

text \<open>The counts are summed in the order of first occurrence, which the hash map leaves open.\<close>

definition shannon_entropy :: "firewall_lib \<Rightarrow> string \<Rightarrow> rat" where
  "shannon_entropy l txt =
     (let cs = chars txt; len = of_nat (length cs) in
      if txt = [] then 0
      else fold (\<lambda>c e. (let p = fdiv (of_nat (count_list cs c)) len in if 0 < p then rnd64 (e - fmul p (fl_log2 l p)) else e)) (remdups cs) 0)"

definition ROLE_MARKERS :: "string list" where
  "ROLE_MARKERS = [''system:'', ''user:'', ''assistant:'', ''[INST]'', ''<<SYS>>'', ''</SYS>'', ''<|im_start|>'', ''<|im_end|>'']"

definition DELIMITERS :: "string list" where
  "DELIMITERS = [''```'', ''---'', ''==='', ''###'', ''***'', ''<<<'', ''>>>'']"

definition INSTRUCTION_WORDS :: "string list" where
  "INSTRUCTION_WORDS = [''must'', ''always'', ''never'', ''important'', ''critical'', ''remember'']"

definition RE_NESTED :: string where
  "RE_NESTED = ''(?i)(base64|atob|decode|unescape)'' @ bslash @ ''s*'' @ bslash @ ''(.*?(base64|atob|decode|unescape)''"

text \<open>\<open>matches(w).count()\<close> for a pattern that is not empty.\<close>

function count_matches :: "string \<Rightarrow> string \<Rightarrow> nat" where
  "count_matches w [] = 0"
| "count_matches w (x # xs) = (if prefix w (x # xs) then Suc (count_matches w (drop (length w - 1) xs)) else count_matches w xs)"
  by pat_completeness auto
termination by (relation "measure (\<lambda>(w, s). length s)") auto

definition is_whitespace :: "string \<Rightarrow> bool" where
  "is_whitespace c \<longleftrightarrow> c \<in> set white_spaces"

text \<open>Each check adds a match and a score.\<close>

type_synonym stage_hits = "(pattern_match \<times> u32) list"

definition structural :: "string \<Rightarrow> string \<Rightarrow> string \<Rightarrow> string \<Rightarrow> u32 \<Rightarrow> pattern_match \<times> u32" where
  "structural name severity txt category score =
     (\<lparr>pm_pattern_name = name, pm_severity = severity, pm_matched_text = txt, pm_category = category\<rparr>, score)"

definition homoglyph_hits :: "firewall_lib \<Rightarrow> string \<Rightarrow> stage_hits" where
  "homoglyph_hits l txt =
     (if contains_mixed_script_token l txt
      then [structural ''homoglyph_attack'' ''high'' ''mixed Latin/Cyrillic token'' ''obfuscation'' 75] else [])"

definition entropy_hits :: "firewall_lib \<Rightarrow> string \<Rightarrow> stage_hits" where
  "entropy_hits l txt =
     (let entropy = shannon_entropy l txt in
      if 11 / 2 < entropy then
        [structural ''high_entropy'' (if 13 / 2 < entropy then ''high'' else ''medium'') (''entropy='' @ show_fixed 2 entropy) ''structural''
          (if 13 / 2 < entropy then 80 else 50)]
      else [])"

definition role_hits :: "firewall_lib \<Rightarrow> string \<Rightarrow> stage_hits" where
  "role_hits l txt =
     (let role_count = length (filter (\<lambda>m. sublist (lowercase (fl_lower l) m) (lowercase (fl_lower l) txt)) ROLE_MARKERS) in
      if 2 \<le> role_count
      then [structural ''role_boundary_confusion'' ''critical'' (show_nat role_count @ '' role markers found'') ''structural'' 85] else [])"

definition delimiter_hits :: "string \<Rightarrow> stage_hits" where
  "delimiter_hits txt =
     (let delim_count = length (filter (\<lambda>d. sublist d txt) DELIMITERS) in
      if 3 \<le> delim_count
      then [structural ''delimiter_flooding'' ''medium'' (show_nat delim_count @ '' delimiter types'') ''structural'' 60] else [])"

definition special_hits :: "firewall_lib \<Rightarrow> string \<Rightarrow> stage_hits" where
  "special_hits l txt =
     (let cs = chars txt; special = length (filter (\<lambda>c. \<not> fl_alphanumeric l c \<and> \<not> is_whitespace c) cs);
          ratio = fdiv (of_nat special) (of_nat (max (length cs) 1)) in
      if rnd64 (4 / 10) < ratio \<and> 50 < length cs
      then [structural ''special_char_heavy'' ''medium'' (show_nat (nat (round_half_even (fmul ratio 100))) @ ''% special chars'') ''structural'' 55]
      else [])"

definition hammering_hits :: "firewall_lib \<Rightarrow> string \<Rightarrow> stage_hits" where
  "hammering_hits l txt =
     (let instruction_count = sum_list (map (\<lambda>w. count_matches w (lowercase (fl_lower l) txt)) INSTRUCTION_WORDS) in
      if 5 < instruction_count
      then [structural ''instruction_hammering'' ''high'' (show_nat instruction_count @ '' instruction keywords'') ''structural'' 65] else [])"

definition length_hits :: "string \<Rightarrow> stage_hits" where
  "length_hits txt =
     (let char_total = length (chars txt) in
      if 5000 < char_total then [structural ''length_anomaly'' ''low'' (show_nat char_total @ '' chars'') ''structural'' 35] else [])"

definition nested_hits :: "firewall_lib \<Rightarrow> string \<Rightarrow> stage_hits" where
  "nested_hits l txt =
     (if fl_find l RE_NESTED txt \<noteq> []
      then [structural ''nested_encoding'' ''critical'' ''nested encoding/decoding detected'' ''structural'' 85] else [])"

definition stage2_hits :: "firewall_lib \<Rightarrow> string \<Rightarrow> stage_hits" where
  "stage2_hits l txt =
     homoglyph_hits l txt @ entropy_hits l txt @ role_hits l txt @ delimiter_hits txt @ special_hits l txt @ hammering_hits l txt @
     length_hits txt @ nested_hits l txt"

definition stage_of :: "u32 \<Rightarrow> string \<Rightarrow> stage_hits \<Rightarrow> u64 \<times> u64 \<Rightarrow> stage_result" where
  "stage_of n name hits clock =
     \<lparr>st_stage = n, st_name = name, st_triggered = (hits \<noteq> []), st_score = max_score (map snd hits), st_matches = map fst hits,
      st_duration_us = snd clock - fst clock\<rparr>"

definition run_stage2 :: "firewall_lib \<Rightarrow> u64 \<times> u64 \<Rightarrow> string \<Rightarrow> stage_result" where
  "run_stage2 l clock txt = stage_of 2 ''structural_analysis'' (stage2_hits l txt) clock"

section \<open>Stage 3\<close>

definition SEMANTIC_PATTERNS :: "(string \<times> string \<times> u32 \<times> string) list" where
  "SEMANTIC_PATTERNS =
     [
      (''data_theft'', ''(?is)(steal|exfiltrate|extract|dump|harvest|scrape)'' @ bslash @ ''s+.*(data|credentials|secrets|tokens|keys|passwords|information)'', 90, ''critical''),
      (''system_compromise'', ''(?is)(compromise|hack|exploit|penetrate|attack|breach)'' @ bslash @ ''s+.*(system|server|network|database|infrastructure)'', 90, ''critical''),
      (''persistence'', ''(?is)(install|create|add|set'' @ bslash @ ''s+up)'' @ bslash @ ''s+.*(backdoor|trojan|rootkit|persistent'' @ bslash @ ''s+access|reverse'' @ bslash @ ''s+shell|c2|beacon)'', 95, ''critical''),
      (''reconnaissance'', ''(?is)(enumerate|scan|discover|map|fingerprint)'' @ bslash @ ''s+.*(network|ports|services|users|hosts|infrastructure)'', 60, ''medium''),
      (''social_engineering'', ''(?is)(phishing|impersonate|social'' @ bslash @ ''s+engineer|deceive|manipulate)'' @ bslash @ ''s+.*(users?|employees?|targets?|victims?)'', 85, ''high''),
      (''denial_of_service'', ''(?is)(dos|ddos|flood|overwhelm|crash|exhaust)'' @ bslash @ ''s+.*(server|service|api|endpoint|resource)'', 80, ''high'')]"

definition DIRECTIVE_PREFIXES :: "string list" where
  "DIRECTIVE_PREFIXES = [[], ''please'', ''then'', ''now'', ''please then'', ''can you'', ''could you'', ''would you'', ''will you'',
     ''you should'', ''you must'', ''we should'', ''we must'', ''i want you to'', ''i need you to'', ''i will'',
     ''let'' @ [CHR 0x27] @ ''s'', ''help me'', ''teach me to'', ''how do i'', ''how can i'']"

definition ends_clause :: "char \<Rightarrow> bool" where
  "ends_clause ch \<longleftrightarrow> ch \<in> set ''.!?;:'' \<or> ch = CHR 0x0A"

definition strips_quote :: "char \<Rightarrow> bool" where
  "strips_quote ch \<longleftrightarrow> ch \<in> {CHR 0x22, CHR 0x27, CHR 0x5C, CHR ''{'', CHR ''['', CHR '',''}"

definition trim_quotes :: "string \<Rightarrow> string" where
  "trim_quotes s = rev (dropWhile strips_quote (rev (dropWhile strips_quote s)))"

definition is_directive_clause :: "string \<Rightarrow> nat \<Rightarrow> bool" where
  "is_directive_clause txt verb_start \<longleftrightarrow>
     to_ascii_lowercase (str_trim (trim_quotes (str_trim (last (split_on ends_clause [] (take verb_start txt)))))) \<in> set DIRECTIVE_PREFIXES"

definition semantic_hit :: "firewall_lib \<Rightarrow> string \<Rightarrow> string \<times> string \<times> u32 \<times> string \<Rightarrow> stage_hits" where
  "semantic_hit l txt = (\<lambda>(name, re, score, severity).
     case find (\<lambda>(i, m). is_directive_clause txt i) (fl_find l re txt) of
       None \<Rightarrow> []
     | Some (i, m) \<Rightarrow>
         [(\<lparr>pm_pattern_name = name, pm_severity = severity, pm_matched_text = truncate_on_char_boundary m 100, pm_category = ''semantic''\<rparr>, score)])"

definition says_any :: "firewall_lib \<Rightarrow> string list \<Rightarrow> string \<Rightarrow> bool" where
  "says_any l ws seg = list_ex (\<lambda>w. sublist w (lowercase (fl_lower l) seg)) ws"

fun switches :: "firewall_lib \<Rightarrow> bool \<Rightarrow> string list \<Rightarrow> bool" where
  "switches l has_override [] = False"
| "switches l has_override (seg # segs) =
     (let o1 = (has_override \<or> says_any l [''ignore'', ''forget'', ''disregard''] seg)
      in o1 \<and> says_any l [''instead'', ''now'', ''actually''] seg \<or> switches l o1 segs)"

definition context_switch_hits :: "firewall_lib \<Rightarrow> string \<Rightarrow> stage_hits" where
  "context_switch_hits l txt =
     (if switches l False (split_on (\<lambda>ch. ch = CHR ''.'') [] txt)
      then [structural ''context_switch_attack'' ''critical'' ''instruction override followed by redirect'' ''semantic'' 85] else [])"

definition hiding_hits :: "firewall_lib \<Rightarrow> string \<Rightarrow> stage_hits" where
  "hiding_hits l txt =
     (if says_any l [''ignore''] txt \<and> says_any l [''json'', ''xml'', ''csv''] txt
      then [structural ''payload_instruction_hiding'' ''high'' ''instructions embedded in data format context'' ''semantic'' 70] else [])"

definition run_stage3 :: "firewall_lib \<Rightarrow> u64 \<times> u64 \<Rightarrow> string \<Rightarrow> stage_result" where
  "run_stage3 l clock txt =
     stage_of 3 ''semantic_analysis''
       (concat (map (semantic_hit l txt) SEMANTIC_PATTERNS) @ context_switch_hits l txt @ hiding_hits l txt) clock"

section \<open>The firewall\<close>

definition composite_score :: "stage_result \<Rightarrow> stage_result \<Rightarrow> stage_result \<Rightarrow> u32" where
  "composite_score s1 s2 s3 =
     (let r0 = max (max (st_score s1) (st_score s2)) (st_score s3);
          n = length (filter id [st_triggered s1, st_triggered s2, st_triggered s3]);
          r1 = (if 2 \<le> n then min (r0 + 10) 100 else r0)
      in if n = 3 then min (r1 + 5) 100 else r1)"

definition firewall_summary :: "bool \<Rightarrow> u32 \<Rightarrow> stage_result list \<Rightarrow> string" where
  "firewall_summary blocked score results =
     (if blocked then
        ''BLOCKED: injection detected (score='' @ show_nat (unat score) @ '', categories: '' @
        join_with '', '' (remdups_adj (sort (concat (map (\<lambda>s. map pm_category (st_matches s)) results)))) @ '')''
      else if 0 < score then ''FLAGGED: potential injection (score='' @ show_nat (unat score) @ '')''
      else ''CLEAN: no injection detected'')"

definition count_scan :: "bool \<Rightarrow> bool \<Rightarrow> bool \<Rightarrow> bool \<Rightarrow> firewall_stats \<Rightarrow> firewall_stats" where
  "count_scan blocked c1 c2 c3 s =
     s\<lparr>ft_total_scanned := ft_total_scanned s + 1, ft_total_blocked := ft_total_blocked s + (if blocked then 1 else 0),
       ft_stage1_catches := ft_stage1_catches s + (if c1 then 1 else 0), ft_stage2_catches := ft_stage2_catches s + (if c2 then 1 else 0),
       ft_stage3_catches := ft_stage3_catches s + (if c3 then 1 else 0)\<rparr>"

text \<open>\<open>clock n\<close> holds the start and the end of stage \<open>n\<close>.\<close>

definition scan_prompt ::
  "firewall_lib \<Rightarrow> (nat \<Rightarrow> u64 \<times> u64) \<Rightarrow> u64 \<Rightarrow> string \<Rightarrow> firewall_stats \<Rightarrow> firewall_result \<times> firewall_stats" where
  "scan_prompt l clock now txt stats =
     (let normalized = normalize_compat_ascii txt;
          s1 = run_stage1 l (clock 1) normalized;
          s2 = run_stage2 l (clock 2) txt;
          s3 = run_stage3 l (clock 3) normalized;
          score = composite_score s1 s2 s3;
          blocked = (75 \<le> score)
      in (\<lparr>fr_blocked = blocked, fr_risk_score = score, fr_stages_run = 3, fr_stage_results = [s1, s2, s3],
           fr_summary = firewall_summary blocked score [s1, s2, s3], fr_timestamp = now\<rparr>,
          count_scan blocked (st_triggered s1) (st_triggered s2) (0 < st_score s3) stats))"

section \<open>Scores\<close>

lemma fold_max_acc: "a \<le> fold max xs (a :: u32)"
proof (induction xs arbitrary: a)
  case (Cons y ys)
  have "a \<le> max y a" by (rule max.cobounded2)
  also have "\<dots> \<le> fold max ys (max y a)" by (rule Cons.IH)
  finally show ?case by (simp only: fold_Cons o_apply)
qed simp

lemma fold_max_ge: "(x :: u32) \<in> set xs \<Longrightarrow> x \<le> fold max xs a"
proof (induction xs arbitrary: a)
  case (Cons y ys)
  show ?case
  proof (cases "x = y")
    case True
    have "y \<le> max y a" by (rule max.cobounded1)
    also have "\<dots> \<le> fold max ys (max y a)" by (rule fold_max_acc)
    finally show ?thesis by (simp only: True fold_Cons o_apply)
  next
    case False
    then have "x \<in> set ys" using Cons.prems by simp
    from Cons.IH [OF this] show ?thesis by (simp only: fold_Cons o_apply)
  qed
qed simp

lemma fold_max_le: "(\<forall>x \<in> set xs. x \<le> b) \<Longrightarrow> a \<le> b \<Longrightarrow> fold max xs a \<le> (b :: u32)"
  by (induction xs arbitrary: a) simp_all

lemma max_score_ge: "x \<in> set xs \<Longrightarrow> x \<le> max_score xs"
  by (simp add: max_score_def fold_max_ge)

lemma max_score_le: "(\<And>x. x \<in> set xs \<Longrightarrow> x \<le> b) \<Longrightarrow> max_score xs \<le> b"
  by (simp add: max_score_def fold_max_le)

lemma signature_scores: "s \<in> set signatures \<Longrightarrow> sg_score s \<le> 95"
  by (auto simp: signatures_def signature_row_def)

lemma stage1_score_le: "st_score (run_stage1 l clock txt) \<le> 95"
  by (auto simp: run_stage1_def Let_def intro!: max_score_le signature_scores)

lemma stage2_score_le: "st_score (run_stage2 l clock txt) \<le> 95"
proof -
  have "x \<le> 95" if "x \<in> snd ` set (stage2_hits l txt)" for x
    using that by (auto simp: stage2_hits_def homoglyph_hits_def entropy_hits_def role_hits_def delimiter_hits_def special_hits_def
        hammering_hits_def length_hits_def nested_hits_def structural_def Let_def split: if_splits)
  then show ?thesis by (auto simp: run_stage2_def stage_of_def intro!: max_score_le)
qed

lemma semantic_scores: "p \<in> set SEMANTIC_PATTERNS \<Longrightarrow> x \<in> snd ` set (semantic_hit l txt p) \<Longrightarrow> x \<le> 95"
  by (cases p) (auto simp: SEMANTIC_PATTERNS_def semantic_hit_def split: option.splits)

lemma stage3_score_le: "st_score (run_stage3 l clock txt) \<le> 95"
proof -
  have "x \<le> 95" if "x \<in> snd ` set (context_switch_hits l txt @ hiding_hits l txt)" for x
    using that by (auto simp: context_switch_hits_def hiding_hits_def structural_def split: if_splits)
  moreover have "x \<le> 95" if x: "x \<in> snd ` set (concat (map (semantic_hit l txt) SEMANTIC_PATTERNS))" for x
  proof -
    obtain h p where "x = snd h" "h \<in> set (semantic_hit l txt p)" "p \<in> set SEMANTIC_PATTERNS" using x by auto
    then show ?thesis by (metis semantic_scores imageI)
  qed
  ultimately have "x \<le> 95"
    if "x \<in> set (map snd (concat (map (semantic_hit l txt) SEMANTIC_PATTERNS) @ context_switch_hits l txt @ hiding_hits l txt))" for x
    using that unfolding set_map set_append image_Un by blast
  then show ?thesis unfolding run_stage3_def stage_of_def stage_result.simps by (rule max_score_le)
qed

lemma add_cap: "x \<le> 100 \<Longrightarrow> y \<le> 100 \<Longrightarrow> x \<le> min (x + y) (100 :: u32)"
proof -
  assume "x \<le> 100" "y \<le> (100 :: u32)"
  then have "unat x \<le> 100" "unat y \<le> 100" by (simp_all add: word_le_nat_alt)
  then have "unat (x + y) = unat x + unat y" by (simp add: unat_word_ariths)
  then have "x \<le> x + y" by (simp add: word_le_nat_alt)
  then show "x \<le> min (x + y) 100" using \<open>x \<le> 100\<close> by simp
qed

text \<open>The composite never exceeds one hundred and is at least the score of every stage.\<close>

lemma composite_bounds:
  assumes "st_score s1 \<le> 95" "st_score s2 \<le> 95" "st_score s3 \<le> 95"
  shows "composite_score s1 s2 s3 \<le> 100" "max (max (st_score s1) (st_score s2)) (st_score s3) \<le> composite_score s1 s2 s3"
proof -
  define r0 where "r0 = max (max (st_score s1) (st_score s2)) (st_score s3)"
  define n where "n = length (filter id [st_triggered s1, st_triggered s2, st_triggered s3])"
  define r1 where "r1 = (if 2 \<le> n then min (r0 + 10) 100 else r0)"
  have "r0 \<le> 95" using assms by (simp add: r0_def)
  then have r0: "r0 \<le> 100" by (rule order_trans) simp
  then have r1: "r1 \<le> 100" "r0 \<le> r1" using add_cap [OF r0, of 10] by (simp_all add: r1_def)
  have c: "composite_score s1 s2 s3 = (if n = 3 then min (r1 + 5) 100 else r1)"
    unfolding composite_score_def Let_def r1_def n_def r0_def by (rule refl)
  show "composite_score s1 s2 s3 \<le> 100" using r1(1) by (simp add: c)
  have "r1 \<le> composite_score s1 s2 s3" using add_cap [OF r1(1), of 5] by (simp add: c)
  then show "max (max (st_score s1) (st_score s2)) (st_score s3) \<le> composite_score s1 s2 s3"
    using r1(2) unfolding r0_def by (rule order_trans [rotated])
qed

lemma scan_score_le: "fr_risk_score (fst (scan_prompt l clock now txt stats)) \<le> 100"
  by (simp add: scan_prompt_def Let_def composite_bounds(1) stage1_score_le stage2_score_le stage3_score_le)

lemma scan_blocked_iff: "fr_blocked (fst (scan_prompt l clock now txt stats)) \<longleftrightarrow> 75 \<le> fr_risk_score (fst (scan_prompt l clock now txt stats))"
  by (simp add: scan_prompt_def Let_def)

text \<open>A signature of at least 75 that matches the normalized text blocks, whatever else the text holds.\<close>

lemma signature_blocks:
  assumes "s \<in> set signatures" "75 \<le> sg_score s" "fl_find l (sg_pattern s) (normalize_compat_ascii txt) \<noteq> []"
  shows "fr_blocked (fst (scan_prompt l clock now txt stats))"
proof -
  let ?n = "normalize_compat_ascii txt"
  have "signature_match l ?n s \<noteq> None" using assms(3) by (auto simp: signature_match_def split: list.splits prod.splits)
  then have "sg_score s \<le> st_score (run_stage1 l (clock 1) ?n)"
    using assms(1) by (auto simp: run_stage1_def Let_def intro!: max_score_ge)
  then have "75 \<le> composite_score (run_stage1 l (clock 1) ?n) (run_stage2 l (clock 2) txt) (run_stage3 l (clock 3) ?n)"
    using composite_bounds(2) [OF stage1_score_le stage2_score_le stage3_score_le, of l "clock 1" ?n l "clock 2" "txt" l "clock 3" ?n] assms(2)
    by (meson max.boundedE order_trans)
  then show ?thesis by (simp add: scan_prompt_def Let_def)
qed

section \<open>Full-width text\<close>

lemma concat_chars [simp]: "concat (chars s) = s"
  by (induction s rule: chars.induct) simp_all

text \<open>The three bytes of a code point, and the full-width form of a printable ASCII character.\<close>

definition encode3 :: "nat \<Rightarrow> string" where
  "encode3 n = map char_of [224 + n div 4096, 128 + n div 64 mod 64, 128 + n mod 64]"

definition full_width :: "char \<Rightarrow> string" where
  "full_width ch =
     (let n = (of_char ch :: nat) in if n = 32 then encode3 0x3000 else if 33 \<le> n \<and> n \<le> 126 then encode3 (n + 0xFEE0) else [ch])"

definition one_char :: "string \<Rightarrow> bool" where
  "one_char c \<longleftrightarrow> c \<noteq> [] \<and> \<not> is_continuation (hd c) \<and> list_all is_continuation (tl c)"

lemma while_stops: "s = [] \<or> \<not> P (hd s) \<Longrightarrow> takeWhile P s = [] \<and> dropWhile P s = s"
  by (cases s) auto

lemma chars_concat: "list_all one_char cs \<Longrightarrow> chars (concat cs) = cs"
proof (induction cs)
  case (Cons c cs)
  obtain x xs where c: "c = x # xs" "list_all is_continuation xs" using Cons.prems by (cases c) (auto simp: one_char_def)
  have h: "concat cs = [] \<or> \<not> is_continuation (hd (concat cs))"
    using Cons.prems by (cases cs) (auto simp: one_char_def)
  have stop: "takeWhile is_continuation (concat cs) = []" "dropWhile is_continuation (concat cs) = concat cs"
    using while_stops [of "concat cs" is_continuation] h by simp_all
  have all: "\<And>a. a \<in> set xs \<Longrightarrow> is_continuation a" using c(2) by (simp add: list_all_iff)
  have "takeWhile is_continuation (xs @ concat cs) = xs" "dropWhile is_continuation (xs @ concat cs) = concat cs"
    using takeWhile_append2 [of xs is_continuation "concat cs", OF all] dropWhile_append2 [of xs is_continuation "concat cs", OF all] stop by simp_all
  then show ?case using Cons c(1) by simp
qed simp

lemma encode3_char:
  assumes "0x800 \<le> n" "n < 65536"
  shows "one_char (encode3 n)" "codepoint3 (encode3 n) = Some n"
proof -
  have d: "n div 4096 < 16" "n div 64 mod 64 < 64" "n mod 64 < 64" using assms(2) by (simp_all add: less_mult_imp_div_less)
  then have b: "(of_char (char_of (224 + n div 4096) :: char) :: nat) = 224 + n div 4096"
    "(of_char (char_of (128 + n div 64 mod 64) :: char) :: nat) = 128 + n div 64 mod 64"
    "(of_char (char_of (128 + n mod 64) :: char) :: nat) = 128 + n mod 64"
    by simp_all
  show "one_char (encode3 n)" using d by (simp add: one_char_def encode3_def is_continuation_def b del: of_char_of)
  have alg: "(a * 64 + b) * 64 + c = a * 4096 + b * 64 + (c :: nat)" for a b c by simp
  have q: "n div 4096 = n div 64 div 64" by (simp add: div_mult2_eq [symmetric])
  have "n = (n div 64 div 64 * 64 + n div 64 mod 64) * 64 + n mod 64" by simp
  also have "\<dots> = n div 4096 * 4096 + n div 64 mod 64 * 64 + n mod 64" unfolding q by (rule alg)
  finally have "n div 4096 * 4096 + n div 64 mod 64 * 64 + n mod 64 = n" by (rule sym)
  then show "codepoint3 (encode3 n) = Some n" using d by (simp add: codepoint3_def encode3_def b Let_def del: of_char_of)
qed

lemma full_width_char:
  assumes "(of_char ch :: nat) < 128"
  shows "one_char (full_width ch)" "normalize_char (full_width ch) = [ch]"
proof -
  define n where "n = (of_char ch :: nat)"
  have ch: "ch = char_of n" by (simp add: n_def)
  consider "n = 32" | "33 \<le> n" "n \<le> 126" | "n < 32 \<or> n = 127" using assms unfolding n_def by linarith
  then have "one_char (full_width ch) \<and> normalize_char (full_width ch) = [ch]"
  proof cases
    case 1
    then have "(of_char ch :: nat) = of_char (CHR '' '')" by (simp add: n_def)
    then have "ch = CHR '' ''" by (simp only: of_char_eq_iff)
    then show ?thesis using encode3_char [of "0x3000"] by (simp add: full_width_def normalize_char_def)
  next
    case 2
    then show ?thesis using encode3_char [of "n + 0xFEE0"]
      by (simp add: full_width_def normalize_char_def n_def [symmetric] Let_def ch)
  next
    case 3
    then show ?thesis by (auto simp: full_width_def n_def [symmetric] one_char_def is_continuation_def normalize_char_def codepoint3_def)
  qed
  then show "one_char (full_width ch)" "normalize_char (full_width ch) = [ch]" by simp_all
qed

text \<open>Normalizing undoes the full-width disguise of ASCII text.\<close>

lemma normalize_full_width:
  assumes "is_ascii s"
  shows "normalize_compat_ascii (concat (map full_width s)) = s"
proof -
  have a: "(of_char ch :: nat) < 128" if "ch \<in> set s" for ch using assms that by (simp add: is_ascii_def)
  have "chars (concat (map full_width s)) = map full_width s"
    using a full_width_char(1) by (intro chars_concat) (simp add: list_all_iff)
  moreover have "map (\<lambda>ch. normalize_char (full_width ch)) s = map (\<lambda>ch. [ch]) s" using a full_width_char(2) by simp
  ultimately show ?thesis by (simp add: normalize_compat_ascii_def o_def del: map_eq_conv)
qed

lemma disguised_signature_blocks:
  assumes "is_ascii s" "g \<in> set signatures" "75 \<le> sg_score g" "fl_find l (sg_pattern g) s \<noteq> []"
  shows "fr_blocked (fst (scan_prompt l clock now (concat (map full_width s)) stats))"
  using assms by (intro signature_blocks) (simp_all add: normalize_full_width)

section \<open>Truncation\<close>

lemma snap_down_boundary: "is_char_boundary s (snap_down s i)" "snap_down s i \<le> i"
  by (induction i) (simp_all add: is_char_boundary_def)

text \<open>The cut is a character boundary of the text and keeps at most the given number of bytes.\<close>

lemma truncate_on_boundary:
  "\<exists>i. is_char_boundary s i \<and> truncate_on_char_boundary s n = take i s \<and> length (truncate_on_char_boundary s n) \<le> n"
proof (cases "length s \<le> n")
  case True
  then show ?thesis by (intro exI [of _ "length s"]) (simp add: truncate_on_char_boundary_def is_char_boundary_def)
next
  case False
  then show ?thesis using snap_down_boundary [of s n]
    by (intro exI [of _ "snap_down s n"]) (simp add: truncate_on_char_boundary_def)
qed

end
