(* ===== verification/Pipeline.thy ===== *)
theory Pipeline
  imports Taint_Tracker Session_Dag Tool_Risk Rules_Engine Cost_Ledger Rate_Limiter Dictum_Overlay Policy_Hash
    Threat_Feed Protocol Adaptive_Scorer Prompt_Firewall
begin

text \<open>
  The governance pipeline of \<open>crates/iaga-sentinel-core/src/pipeline/execute_pipeline.rs\<close>: scope, rate
  limit, session graph, taint, policy, rules and secrets, the combination of the layers into one
  minimum decision and one risk score, the policy overlay, the session budget, and the records a
  request leaves behind. The prompt firewall, the threat feed, the schema validation and the adaptive
  scorer are called as modelled; the plugins and the reasoning engine answer through
  \<open>outside_answers\<close>, and what they answer is arbitrary.
\<close>

section \<open>Messages\<close>

fun action_type_str :: "action_type \<Rightarrow> string" where
  "action_type_str Shell = ''shell''"
| "action_type_str FileRead = ''file_read''"
| "action_type_str FileWrite = ''file_write''"
| "action_type_str Http = ''http''"
| "action_type_str DbQuery = ''db_query''"
| "action_type_str Email = ''email''"
| "action_type_str Custom = ''custom''"

fun protocol_name :: "protocol_kind \<Rightarrow> string" where
  "protocol_name Mcp = ''mcp''"
| "protocol_name Acp = ''acp''"
| "protocol_name A2a = ''a2a''"
| "protocol_name HttpFunction = ''http-function''"
| "protocol_name UnknownProtocol = ''unknown''"

text \<open>\<open>{:?}\<close> of a role prints the variant.\<close>

fun debug_role :: "agent_role \<Rightarrow> string" where
  "debug_role Builder = ''Builder''"
| "debug_role Researcher = ''Researcher''"
| "debug_role Operator = ''Operator''"

text \<open>The text of a policy finding; \<open>debug_list\<close> is \<open>{:?}\<close> of a list of strings, which escapes them.\<close>

fun show_finding :: "(string list \<Rightarrow> string) \<Rightarrow> policy_finding \<Rightarrow> string" where
  "show_finding dbg (ProtocolNotAllowed p w) = ''protocol '' @ debug_protocol p @ '' is not allowed for workspace '' @ w"
| "show_finding dbg (ToolNotRegistered t) = ''tool '' @ t @ '' is not registered in workspace policy''"
| "show_finding dbg (ActionTypeNotAllowed t a) = ''tool '' @ t @ '' cannot run action type '' @ debug_action_type a"
| "show_finding dbg (RequiresHumanReview t) = ''tool '' @ t @ '' requires human review''"
| "show_finding dbg (PinnedToBlock t) = ''tool '' @ t @ '' is pinned to block in workspace policy''"
| "show_finding dbg (CappedAtReview t) = ''tool '' @ t @ '' is capped at review in workspace policy''"
| "show_finding dbg (AgentNotApproved a t) = ''agent '' @ a @ '' is not approved for tool '' @ t"
| "show_finding dbg (OutsideBaseline a g) = ''action type '' @ debug_action_type a @ '' is outside baseline for agent '' @ g"
| "show_finding dbg (DestinationOutside d h) =
     ''destination '' @ d @ '' (host '' @ h @ '') is outside allowed workspace domains''"
| "show_finding dbg (NoDeclaredDestination t ds) =
     ''tool '' @ t @ '' declares its egress destination in '' @ dbg ds @
     '' but the payload exposes none of them, so the workspace domain allowlist cannot be applied''"
| "show_finding dbg (UndeclaredHost f h esc) =
     ''payload key `'' @ f @ ''` carries host '' @ h @ '', which is outside allowed workspace domains and is not among this '' @
     ''tool'' @ [CHR 0x27] @ ''s declared destinationFields'' @
     (if esc then '' '' @ [CHR 0xE2, CHR 0x80, CHR 0x94] @ '' escalating for human review; declare it to have it enforced as a refusal'' else [])"
| "show_finding dbg RequestMatched = ''request matched registered tool and workspace policy''"

fun show_reason :: "anomaly_reason \<Rightarrow> string" where
  "show_reason (PermanentlyBlocked n why) = ''session permanently blocked after '' @ show_nat (unat n) @ '' strikes: '' @ why"
| "show_reason (InCooldown ms why) =
     ''session in cooldown ('' @ show_rounded (fdiv (rnd64 (of_nat (unat ms))) 1000) @ ''s remaining): '' @ why"
| "show_reason (HighToolDiversity n) = ''high tool diversity: '' @ show_nat n @ '' distinct tools''"
| "show_reason (HighTaintAccumulation ls) = ''high taint accumulation: '' @ join_with '', '' ls"
| "show_reason (ExtremelyDeepSession n) = ''extremely deep session: '' @ show_nat n @ '' calls''"
| "show_reason (DeepSession n) = ''deep session: '' @ show_nat n @ '' calls''"
| "show_reason (CollectionEgressArc n a) =
     ''multi-step collection '' @ [CHR 0xE2, CHR 0x86, CHR 0x92] @ '' egress arc: '' @ show_nat n @ '' read steps before '' @ a"
| "show_reason (FanInBeforeEgress n) = ''fan-in before egress: '' @ show_nat n @ '' distinct read tools''"
| "show_reason (StagedBeforeEgress a) = ''staged processing before egress: read/transform/'' @ a @ '' chain''"
| "show_reason NetworkDeliveredExecution = ''network-delivered execution arc: recent http followed by shell''"
| "show_reason (PriorBlockHistory n p) =
     ''prior block history: '' @ show_nat (unat n) @ '' strike(s) (+'' @ show_nat (unat p) @ '')''"
| "show_reason (BurstCalls n) = ''burst: '' @ show_nat n @ '' calls in 10s''"
| "show_reason (ElevatedFrequency n) = ''elevated frequency: '' @ show_nat n @ '' calls in 10s''"

section \<open>What the other layers answer\<close>

record plugin_output =
  po_plugin_name :: string
  po_risk_score :: u32
  po_findings :: "string list"
  po_decision_hint :: "string option"

record outside_answers =
  la_plugin_outputs :: "plugin_output list"
  la_plugin_errors :: "string list"
  la_reasoning :: "reasoning_outcome option"

record layer_answers = outside_answers +
  la_firewall_blocked :: bool
  la_firewall_score :: u32
  la_firewall_summary :: string
  la_threats :: "threat_match list"
  la_adaptive_score :: u32
  la_adaptive_decision :: string
  la_schema_valid :: bool
  la_schema_findings :: "string list"

section \<open>Combining the layers\<close>

text \<open>The mutable \<open>policy_findings\<close>, \<open>minimum_decision\<close> and \<open>layer_risks\<close>.\<close>

record combination =
  cb_findings :: "string list"
  cb_minimum :: governance_decision
  cb_risks :: layer_risk_contributions

definition raise_to :: "governance_decision \<Rightarrow> governance_decision \<Rightarrow> governance_decision" where
  "raise_to wanted current = (case wanted of GBlock \<Rightarrow> GBlock | GReview \<Rightarrow> if current \<noteq> GBlock then GReview else current | GAllow \<Rightarrow> current)"

definition apply_rule_match :: "rule_match option \<Rightarrow> governance_decision \<Rightarrow> governance_decision" where
  "apply_rule_match m d =
     (case m of
        None \<Rightarrow> d
      | Some r \<Rightarrow>
          (case rm_decision r of
             GBlock \<Rightarrow> GBlock
           | GReview \<Rightarrow> if d \<noteq> GBlock then GReview else d
           | GAllow \<Rightarrow> if d = GReview then GAllow else d))"

definition opening_findings ::
  "(string list \<Rightarrow> string) \<Rightarrow> policy_evaluation \<Rightarrow> rule_match option \<Rightarrow> bool \<Rightarrow> protocol_kind \<Rightarrow> layer_answers \<Rightarrow> string list" where
  "opening_findings dbg policy matched secret_denied protocol ls =
     map (show_finding dbg) (pe_findings policy) @
     (case matched of Some m \<Rightarrow> [''policy rule ['' @ rm_rule_name m @ '']: '' @ rm_reason m] | None \<Rightarrow> []) @
     (if secret_denied then [''one or more requested secrets were denied by vault policy''] else []) @
     (if la_schema_valid ls then [] else [protocol_name protocol @ '' protocol schema validation failed'']) @
     map (\<lambda>e. ''plugin runtime: '' @ e) (la_plugin_errors ls)"

definition firewall_layer :: "layer_answers \<Rightarrow> combination \<Rightarrow> combination" where
  "firewall_layer ls cb =
     (if la_firewall_blocked ls
      then cb\<lparr>cb_minimum := GBlock, cb_findings := cb_findings cb @ [''injection firewall: '' @ la_firewall_summary ls]\<rparr> else cb)"

definition threat_demand :: "layer_answers \<Rightarrow> governance_decision" where
  "threat_demand ls =
     (if list_ex (\<lambda>m. tm_severity m = ''critical'') (la_threats ls) then GBlock
      else if list_ex (\<lambda>m. tm_severity m = ''high'') (la_threats ls) then GReview else GAllow)"

definition threat_layer :: "layer_answers \<Rightarrow> combination \<Rightarrow> combination" where
  "threat_layer ls cb =
     (if la_threats ls = [] then cb
      else cb\<lparr>cb_findings := cb_findings cb @
             map (\<lambda>m. ''threat intel ['' @ show_threat_type (tm_indicator_type m) @ '']: '' @ tm_description m @ '' (severity='' @ tm_severity m @ '')'') (la_threats ls),
           cb_risks := (cb_risks cb)\<lparr>lr_threat_intel :=
             (case threat_demand ls of GBlock \<Rightarrow> 95 | GReview \<Rightarrow> 75 | GAllow \<Rightarrow> 50)\<rparr>,
           cb_minimum := raise_to (threat_demand ls) (cb_minimum cb)\<rparr>)"

definition taint_layer :: "taint_analysis_result \<Rightarrow> combination \<Rightarrow> combination" where
  "taint_layer t cb =
     (let risk = (if ta_exfiltration_detected t then 100 else if ta_blocked t then 90
            else if ta_violations t \<noteq> [] then 60 + min (of_nat (length (ta_violations t)) * 10) 30 else lr_taint (cb_risks cb));
          cb1 = cb\<lparr>cb_risks := (cb_risks cb)\<lparr>lr_taint := risk\<rparr>\<rparr>
      in if ta_blocked t
         then cb1\<lparr>cb_minimum := GBlock, cb_findings := cb_findings cb1 @ [''taint tracking: '' @ ta_summary t]\<rparr> else cb1)"

definition hint_demand :: "plugin_output \<Rightarrow> governance_decision" where
  "hint_demand p =
     (case po_decision_hint p of
        None \<Rightarrow> GAllow
      | Some h \<Rightarrow> (let k = to_ascii_lowercase h in
          if k = ''block'' then GBlock else if k = ''review'' \<or> k = ''human_review'' then GReview else GAllow))"

definition hint_layer :: "plugin_output \<Rightarrow> combination \<Rightarrow> combination" where
  "hint_layer p cb =
     cb\<lparr>cb_minimum := raise_to (hint_demand p) (cb_minimum cb),
        cb_findings := cb_findings cb @ map (\<lambda>f. ''plugin ['' @ po_plugin_name p @ '']: '' @ f) (po_findings p) @
          (case hint_demand p of
             GBlock \<Rightarrow> [''plugin ['' @ po_plugin_name p @ '']: decision hint -> block'']
           | GReview \<Rightarrow> [''plugin ['' @ po_plugin_name p @ '']: decision hint -> review'']
           | GAllow \<Rightarrow> [])\<rparr>"

definition plugin_risk :: "layer_answers \<Rightarrow> u32" where
  "plugin_risk ls = fold max (map po_risk_score (la_plugin_outputs ls)) 0"

definition plugin_layer :: "u32 \<Rightarrow> u32 \<Rightarrow> layer_answers \<Rightarrow> combination \<Rightarrow> combination" where
  "plugin_layer threshold_block threshold_review ls cb =
     (if la_plugin_outputs ls \<noteq> [] then
        (let r = plugin_risk ls; cb1 = fold hint_layer (la_plugin_outputs ls) (cb\<lparr>cb_risks := (cb_risks cb)\<lparr>lr_plugins := r\<rparr>\<rparr>) in
         if threshold_block \<le> r then
           cb1\<lparr>cb_minimum := GBlock, cb_findings := cb_findings cb1 @
             [''plugin risk: score='' @ show_nat (unat r) @ '' '' @ [CHR 0xE2, CHR 0x86, CHR 0x92] @ '' block'']\<rparr>
         else if threshold_review \<le> r \<and> cb_minimum cb1 \<noteq> GBlock then
           cb1\<lparr>cb_minimum := GReview, cb_findings := cb_findings cb1 @
             [''plugin risk: score='' @ show_nat (unat r) @ '' '' @ [CHR 0xE2, CHR 0x86, CHR 0x92] @ '' review'']\<rparr>
         else cb1)
      else if la_plugin_errors ls \<noteq> [] then cb\<lparr>cb_minimum := raise_to GReview (cb_minimum cb)\<rparr>
      else cb)"

definition attack_finding :: "string \<Rightarrow> attack_match \<Rightarrow> string" where
  "attack_finding agent_id a =
     (let others = filter (\<lambda>x. x \<noteq> agent_id) (am_agents a) in
      ''session graph attack: '' @ am_name a @
      (if others = [] then [] else '' (chain formed in this session by: '' @ join_with '', '' others @ '')''))"

definition session_layer :: "string \<Rightarrow> session_analysis_result \<Rightarrow> combination \<Rightarrow> combination" where
  "session_layer agent_id r cb =
     (let cb1 = cb\<lparr>cb_risks := (cb_risks cb)\<lparr>lr_session_graph := sr_anomaly_score r\<rparr>\<rparr>;
          cb2 = (if sr_attacks_detected r \<noteq> [] \<or> 50 \<le> sr_anomaly_score r then
              cb1\<lparr>cb_minimum := raise_to GReview (cb_minimum cb1),
                  cb_findings := cb_findings cb1 @ map (attack_finding agent_id) (sr_attacks_detected r) @
                    map (\<lambda>why. ''session graph: '' @ show_reason why) (sr_anomaly_reasons r)\<rparr>
            else cb1)
      in if \<not> sr_transition_allowed r then
           cb2\<lparr>cb_minimum := GBlock, cb_risks := (cb_risks cb2)\<lparr>lr_session_graph := max (lr_session_graph (cb_risks cb2)) 90\<rparr>,
               cb_findings := cb_findings cb2 @ [''session graph: state transition blocked'']\<rparr>
         else cb2)"

definition adaptive_layer :: "layer_answers \<Rightarrow> combination \<Rightarrow> combination" where
  "adaptive_layer ls cb =
     (let cb1 = cb\<lparr>cb_risks := (cb_risks cb)\<lparr>lr_adaptive := la_adaptive_score ls\<rparr>\<rparr> in
      if la_adaptive_decision ls = ''block'' then
        cb1\<lparr>cb_minimum := GBlock, cb_findings := cb_findings cb1 @
          [''adaptive risk: score='' @ show_nat (unat (la_adaptive_score ls)) @ '' '' @ [CHR 0xE2, CHR 0x86, CHR 0x92] @ '' block'']\<rparr>
      else if la_adaptive_decision ls = ''human_review'' \<and> cb_minimum cb1 \<noteq> GBlock then
        cb1\<lparr>cb_minimum := GReview, cb_findings := cb_findings cb1 @
          [''adaptive risk: score='' @ show_nat (unat (la_adaptive_score ls)) @ '' '' @ [CHR 0xE2, CHR 0x86, CHR 0x92] @ '' review'']\<rparr>
      else cb1)"

definition is_policy_violation :: "string \<Rightarrow> bool" where
  "is_policy_violation f \<longleftrightarrow>
     sublist ''not approved'' f \<or> sublist ''outside baseline'' f \<or> sublist ''requires human review'' f \<or> sublist ''action type'' f"

definition policy_layer :: "combination \<Rightarrow> combination" where
  "policy_layer cb =
     (let n = length (filter is_policy_violation (cb_findings cb)) in
      if 0 < n then cb\<lparr>cb_risks := (cb_risks cb)\<lparr>lr_policy := min (30 + of_nat n * 20) 100\<rparr>\<rparr> else cb)"

definition secrets_layer :: "bool \<Rightarrow> combination \<Rightarrow> combination" where
  "secrets_layer secret_denied cb =
     (if secret_denied
      then cb\<lparr>cb_risks := (cb_risks cb)\<lparr>lr_secrets := 90\<rparr>, cb_minimum := GBlock,
              cb_findings := cb_findings cb @ [''unauthorized secret access denied by vault policy'']\<rparr>
      else cb)"

definition schema_layer :: "layer_answers \<Rightarrow> combination \<Rightarrow> combination" where
  "schema_layer ls cb =
     (if \<not> la_schema_valid ls \<and> cb_minimum cb \<noteq> GBlock
      then cb\<lparr>cb_minimum := GBlock, cb_findings := cb_findings cb @
             [if la_schema_findings ls = [] then ''schema validation failed''
              else ''schema validation failed: '' @ join_with ''; '' (la_schema_findings ls)]\<rparr>
      else cb)"

definition combine_layers ::
  "(string list \<Rightarrow> string) \<Rightarrow> string \<Rightarrow> workspace_policy \<Rightarrow> policy_evaluation \<Rightarrow> rule_match option \<Rightarrow> bool \<Rightarrow> protocol_kind
   \<Rightarrow> layer_answers \<Rightarrow> taint_analysis_result \<Rightarrow> session_analysis_result \<Rightarrow> combination" where
  "combine_layers dbg agent_id wp policy matched secret_denied protocol ls taint session =
     (let cb = \<lparr>cb_findings = opening_findings dbg policy matched secret_denied protocol ls,
            cb_minimum = apply_rule_match matched (pe_minimum_decision policy),
            cb_risks = no_layer_risks\<lparr>lr_firewall := la_firewall_score ls\<rparr>\<rparr>;
          cb = firewall_layer ls cb;
          cb = threat_layer ls cb;
          cb = taint_layer taint cb;
          cb = plugin_layer (wp_threshold_block wp) (wp_threshold_review wp) ls cb;
          cb = session_layer agent_id session cb;
          cb = adaptive_layer ls cb;
          cb = policy_layer cb;
          cb = secrets_layer secret_denied cb
      in schema_layer ls cb)"

section \<open>Process and request\<close>

text \<open>
  What a running process fixes: libraries, configuration and the stores it only reads. The
  receipt store has any type, read and extended by \<open>pv_head\<close> and \<open>pv_put\<close>.
\<close>

record 's pipeline_env =
  pv_crypto :: crypto
  pv_digest :: digest_lib
  pv_taint :: taint_lib
  pv_dictum :: dictum_lib
  pv_calendar :: calendar_lib
  pv_value_string :: "json \<Rightarrow> string"
  pv_map_string :: "fields \<Rightarrow> string"
  pv_debug_list :: "string list \<Rightarrow> string"
  pv_show_f64 :: "f64 \<Rightarrow> string"
  pv_show_cents :: "f64 \<Rightarrow> string"
  pv_is_match :: "string \<Rightarrow> string \<Rightarrow> bool"
  pv_compiles :: "string \<Rightarrow> bool"
  pv_is_uuid :: "string \<Rightarrow> bool"
  pv_firewall :: firewall_lib
  pv_profile :: "string \<Rightarrow> sentinel_error + agent_profile"
  pv_policy :: "string \<Rightarrow> sentinel_error + workspace_policy"
  pv_rules :: "string \<Rightarrow> sentinel_error + policy_rule list"
  pv_sessions :: session_config
  pv_agent_window :: "nat option"
  pv_overlay :: "dictum_overlay option"
  pv_cost_control :: bool
  pv_pricing :: pricing_table
  pv_budget :: "f64 option"
  pv_capture :: bool
  pv_head :: "'s \<Rightarrow> string \<Rightarrow> receipt_error + receipt option"
  pv_put :: "'s \<Rightarrow> receipt \<Rightarrow> receipt_error + 's"

text \<open>
  What the detectors of one call read: the clock and the counters of the firewall, the feed, the
  learned weights and baselines of the scorer, the trust of the agent, the hour and the milliseconds
  of the decision time, and the clock.
\<close>

record detector_inputs =
  di_stage_clock :: "nat \<Rightarrow> u64 \<times> u64"
  di_firewall_stats :: firewall_stats
  di_feed :: threat_feed
  di_weights :: weights
  di_baselines :: baselines
  di_agent_trust :: rat
  di_hour :: nat
  di_decision_ms :: u64
  di_now_ms :: u64

text \<open>What one call meets: clock readings, a fresh identifier, answers of other layers and stores.\<close>

record 's call_context =
  cx_instant :: instant
  cx_wall :: u64
  cx_clock :: clock_readings
  cx_taint_read :: nat
  cx_taint_session :: nat
  cx_taint_agent :: nat
  cx_decision_time :: nat
  cx_timestamp :: string
  cx_event_id :: string
  cx_answers :: outside_answers
  cx_detectors :: detector_inputs
  cx_hashed_feed :: threat_feed
  cx_other_writers :: "nat \<Rightarrow> 's \<Rightarrow> 's"
  cx_audit_error :: "sentinel_error option"
  cx_review_error :: "sentinel_error option"

record review_request =
  rq_id :: string
  rq_agent_id :: string
  rq_workspace_id :: string
  rq_tool_name :: string
  rq_decision :: governance_decision
  rq_status :: string
  rq_risk_score :: u32
  rq_reasons :: "string list"
  rq_created_at :: string
  rq_updated_at :: string

record 's pipeline_state =
  ps_limiter :: rate_limiter
  ps_dags :: dag_store
  ps_session_taints :: taint_store
  ps_agent_taints :: taint_store
  ps_spend :: spend_store
  ps_audit :: "stored_audit_event list"
  ps_logger :: "signed_receipt_logger option"
  ps_receipts :: 's
  ps_reviews :: "review_request list"

record governance_result =
  gr_protocol :: protocol_kind
  gr_decision :: governance_decision
  gr_review_status :: review_status
  gr_risk :: risk_score
  gr_secret_plan :: secret_injection_plan
  gr_event :: stored_audit_event
  gr_findings :: "string list"
  gr_review_request_id :: "string option"
  gr_session :: "session_analysis_result option"
  gr_taint :: "taint_analysis_result option"

section \<open>Stages\<close>

definition payload_text :: "'s pipeline_env \<Rightarrow> inspect_request \<Rightarrow> string" where
  "payload_text env input = pv_value_string env (to_value_object (ad_payload (ir_action input)))"

definition declared_session :: "inspect_request \<Rightarrow> string option" where
  "declared_session input =
     (case Option.bind (ir_metadata input) (\<lambda>m. str_field m ''sessionId'') of
        Some s \<Rightarrow> if s = [] then None else Some s
      | None \<Rightarrow> None)"

definition claimed_workspace_ok :: "inspect_request \<Rightarrow> agent_profile \<Rightarrow> bool" where
  "claimed_workspace_ok input profile =
     (case ir_workspace_id input of Some w \<Rightarrow> w = [] \<or> w = ap_workspace_id profile | None \<Rightarrow> True)"

definition event_tenant :: "agent_profile \<Rightarrow> workspace_policy \<Rightarrow> string option" where
  "event_tenant profile wp = (case ap_tenant_id profile of Some t \<Rightarrow> Some t | None \<Rightarrow> wp_tenant_id wp)"

text \<open>Layers 1 and 2: the labels a request inherits, its node in the session graph, its taint.\<close>

definition inherited_taints :: "'s pipeline_env \<Rightarrow> 's call_context \<Rightarrow> inspect_request \<Rightarrow> 's pipeline_state \<Rightarrow> string set" where
  "inherited_taints env cx input st =
     get_session_taint (ps_session_taints st) (session_key input) \<union>
     (case pv_agent_window env of
        Some window \<Rightarrow> cross_session_inheritable (get_agent_taint (cx_taint_read cx) (ps_agent_taints st) (ir_agent_id input) window)
          (ad_payload (ir_action input))
      | None \<Rightarrow> {})"

definition session_stage ::
  "'s pipeline_env \<Rightarrow> 's call_context \<Rightarrow> inspect_request \<Rightarrow> 's pipeline_state
   \<Rightarrow> session_analysis_result \<times> taint_analysis_result \<times> 's pipeline_state" where
  "session_stage env cx input st =
     (let sid = session_key input;
          action = action_type_str (ad_action_type (ir_action input));
          tool = ad_tool_name (ir_action input);
          inherited = inherited_taints env cx input st;
          h = (\<lambda>bs. hex_encode (pv_crypto env) (sha256 (pv_crypto env) bs));
          (session, dags) = add_tool_call_to_session h (pv_sessions env) (cx_clock cx) sid (ir_agent_id input) tool action inherited (ps_dags st);
          taint = analyze_taint (pv_taint env) action tool (payload_text env input) inherited
      in (session, taint,
          st\<lparr>ps_dags := dags,
             ps_session_taints := update_session_taint (cx_taint_session cx) sid (ta_accumulated_labels taint) (ps_session_taints st),
             ps_agent_taints := update_agent_taint (cx_taint_agent cx) (ir_agent_id input) (ta_accumulated_labels taint) (ps_agent_taints st)\<rparr>))"

text \<open>The layers that are called on the request itself.\<close>

definition protocol_of :: "'s pipeline_env \<Rightarrow> inspect_request \<Rightarrow> protocol_kind" where
  "protocol_of env input = detect_protocol (tl_lower (pv_taint env)) input"

definition regex_of :: "'s pipeline_env \<Rightarrow> regex_lib" where
  "regex_of env = \<lparr>rx_compiles = pv_compiles env, rx_is_match = pv_is_match env, rx_lower = tl_lower (pv_taint env)\<rparr>"

definition threat_feed_hash :: "'s pipeline_env \<Rightarrow> 's call_context \<Rightarrow> string" where
  "threat_feed_hash env cx = feed_hash (\<lambda>bs. hex_encode (pv_crypto env) (sha256 (pv_crypto env) bs)) (cx_hashed_feed cx)"

text \<open>The trust in a tool comes from a JSON number, which is finite.\<close>

fun finite_part :: "f64 \<Rightarrow> rat" where
  "finite_part (Fin x) = x"
| "finite_part v = 0"

definition adaptive_input ::
  "'s pipeline_env \<Rightarrow> 's call_context \<Rightarrow> inspect_request \<Rightarrow> agent_profile \<Rightarrow> session_analysis_result \<Rightarrow> taint_analysis_result
   \<Rightarrow> adaptive_score_input" where
  "adaptive_input env cx input profile session taint =
     \<lparr>ai_agent_id = ir_agent_id input, ai_action_type = action_type_str (ad_action_type (ir_action input)),
      ai_tool_name = ad_tool_name (ir_action input), ai_payload_str = payload_text env input, ai_taint_result = Some taint,
      ai_session_call_count = max (sr_session_call_count session) 1,
      ai_call_timestamps = (if sr_recent_call_timestamps session = [] then [di_now_ms (cx_detectors cx)] else sr_recent_call_timestamps session),
      ai_agent_trust = di_agent_trust (cx_detectors cx), ai_tool_trust = finite_part (ap_tool_trust profile)\<rparr>"

definition adaptive_result ::
  "'s pipeline_env \<Rightarrow> 's call_context \<Rightarrow> inspect_request \<Rightarrow> agent_profile \<Rightarrow> session_analysis_result \<Rightarrow> taint_analysis_result
   \<Rightarrow> adaptive_risk_result" where
  "adaptive_result env cx input profile session taint =
     calculate_adaptive_risk (pv_is_match env) (tl_lower (pv_taint env)) (di_weights (cx_detectors cx)) (di_baselines (cx_detectors cx))
       (adaptive_input env cx input profile session taint) (di_hour (cx_detectors cx)) (di_decision_ms (cx_detectors cx))"

definition answers_of ::
  "'s pipeline_env \<Rightarrow> 's call_context \<Rightarrow> inspect_request \<Rightarrow> agent_profile \<Rightarrow> session_analysis_result \<Rightarrow> taint_analysis_result
   \<Rightarrow> layer_answers" where
  "answers_of env cx input profile session taint =
     (let firewall = fst (scan_prompt (pv_firewall env) (di_stage_clock (cx_detectors cx)) (di_now_ms (cx_detectors cx)) (payload_text env input)
            (di_firewall_stats (cx_detectors cx)));
          validation = validate_protocol_payload (pv_is_uuid env) input (protocol_of env input);
          adaptive = adaptive_result env cx input profile session taint
      in outside_answers.extend (cx_answers cx)
           (layer_answers.fields (fr_blocked firewall) (fr_risk_score firewall) (fr_summary firewall)
              (check_threats (regex_of env) (di_feed (cx_detectors cx)) (payload_text env input))
              (ar_total_score adaptive) (ar_decision adaptive) (sv_valid validation) (sv_findings validation)))"

text \<open>Policy, rules, secrets and the risk score.\<close>

definition judge ::
  "'s pipeline_env \<Rightarrow> 's call_context \<Rightarrow> inspect_request \<Rightarrow> agent_profile \<Rightarrow> workspace_policy \<Rightarrow> policy_rule list
   \<Rightarrow> session_analysis_result \<Rightarrow> taint_analysis_result \<Rightarrow> combination \<times> secret_injection_plan \<times> risk_score" where
  "judge env cx input profile wp rules session taint =
     (let protocol = protocol_of env input;
          ls = answers_of env cx input profile session taint;
          policy = evaluate_policy input profile wp protocol;
          matched = evaluate_rules (pv_calendar env) (tl_lower (pv_taint env)) (pv_map_string env) rules input (ap_role profile)
            (Some (la_adaptive_score ls)) (cx_decision_time cx);
          plan = plan_secret_injection input profile;
          cb = combine_layers (pv_debug_list env) (ir_agent_id input) wp policy matched (sp_denied plan \<noteq> []) protocol
            ls taint session
      in (cb, plan,
          score_tool_risk_with_thresholds (pv_is_match env) input (cb_minimum cb) (cb_findings cb) (cb_risks cb)
            (payload_text env input) (wp_threshold_block wp) (wp_threshold_review wp)))"

text \<open>The session budget: the decision, the cause, and the spend store.\<close>

definition budget_stage ::
  "'s pipeline_env \<Rightarrow> inspect_request \<Rightarrow> governance_decision \<Rightarrow> spend_store \<Rightarrow> governance_decision \<times> string list \<times> spend_store" where
  "budget_stage env input decision spend =
     (if \<not> pv_cost_control env then (decision, [], spend)
      else
        (let key = spend_key_of input;
             micros = (case resolve_for_request (tl_lower (pv_taint env)) (pv_pricing env) input of Some u \<Rightarrow> ud_cost_micros u | None \<Rightarrow> 0);
             (in_budget, spend1) = check_and_add key (pv_budget env) micros spend
         in if in_budget then (decision, [], spend1)
            else (GBlock,
                  (case pv_budget env of
                     Some limit \<Rightarrow> [''cost: session spend $'' @ pv_show_cents env (session_spend_usd spend key) @ '' exceeds budget $'' @ pv_show_cents env limit]
                   | None \<Rightarrow> []), spend1)))"

text \<open>Overlay and budget on top of the risk decision.\<close>

definition final_stage ::
  "'s pipeline_env \<Rightarrow> 's call_context \<Rightarrow> inspect_request \<Rightarrow> workspace_policy \<Rightarrow> risk_score \<Rightarrow> spend_store
   \<Rightarrow> governance_decision \<times> string list \<times> dictum_trace_data option \<times> spend_store" where
  "final_stage env cx input wp risk spend =
     (let (cost, limit) = (if pv_cost_control env then (Some (session_spend_usd spend (spend_key_of input)), pv_budget env) else (None, None));
          ctx = build_overlay_context input (rs_score risk) (rs_decision risk) (Some (wp_workspace_id wp)) (wp_allowed_domains wp)
            (map_option ro_scores (la_reasoning (cx_answers cx))) cost limit;
          (d1, causes1, trace) = apply_overlay (pv_dictum env) (pv_show_f64 env) (pv_overlay env) ctx (rs_decision risk);
          (d2, causes2, spend1) = budget_stage env input d1 spend
      in (d2, causes1 @ causes2, trace, spend1))"

definition audit_event ::
  "'s pipeline_env \<Rightarrow> 's call_context \<Rightarrow> inspect_request \<Rightarrow> string option \<Rightarrow> governance_decision \<Rightarrow> string list \<Rightarrow> review_status
   \<Rightarrow> u32 \<Rightarrow> usage_data option \<Rightarrow> stored_audit_event" where
  "audit_event env cx input tenant decision why review score used =
     \<lparr>ae_event_id = cx_event_id cx, ae_agent_id = ir_agent_id input, ae_tenant_id = tenant, ae_framework = ir_framework input,
      ae_action_type = ad_action_type (ir_action input), ae_tool_name = ad_tool_name (ir_action input),
      ae_input_sha256 = hex_encode (pv_crypto env) (sha256 (pv_crypto env) (as_bytes (payload_text env input))),
      ae_decision = decision, ae_timestamp = cx_timestamp cx, ae_reasons = why, ae_review_status = review,
      ae_risk_score = score, ae_usage = used, ae_session_id = declared_session input\<rparr>"

text \<open>\<open>rl.record(...)\<close> when receipts are on.\<close>

definition record_stage ::
  "'s pipeline_env \<Rightarrow> 's call_context \<Rightarrow> stored_audit_event \<Rightarrow> reasoning_outcome option \<Rightarrow> usage_data option \<Rightarrow> receipt_context
   \<Rightarrow> 's pipeline_state \<Rightarrow> (sentinel_error + unit) \<times> 's pipeline_state" where
  "record_stage env cx e evidence used rc st =
     (case ps_logger st of
        None \<Rightarrow> (Inr (), st)
      | Some lg \<Rightarrow>
          (case record_event (pv_crypto env) (pv_head env) (pv_put env) (cx_other_writers cx) (pv_capture env) lg e evidence used rc (ps_receipts st) of
             (res, lg', s') \<Rightarrow> (res, st\<lparr>ps_logger := Some lg', ps_receipts := s'\<rparr>)))"

section \<open>The pipeline\<close>

text \<open>The early return of a rate-limited call; a failed audit write is only logged.\<close>

definition rate_limited ::
  "'s pipeline_env \<Rightarrow> 's call_context \<Rightarrow> inspect_request \<Rightarrow> agent_profile \<Rightarrow> workspace_policy \<Rightarrow> rate_limit_result
   \<Rightarrow> 's pipeline_state \<Rightarrow> (sentinel_error + governance_result) \<times> 's pipeline_state" where
  "rate_limited env cx input profile wp rate st =
     (let why = ''Rate limit exceeded (remaining='' @ show_nat (unat (rr_remaining rate)) @ '', retry_after='' @
            show_nat (unat (case rr_retry_after_secs rate of Some n \<Rightarrow> n | None \<Rightarrow> 0)) @ ''s)'';
          said = [why, ''non-replayable:rate-limit''];
          e = audit_event env cx input (event_tenant profile wp) GBlock said NotRequired 0 None;
          st1 = (if cx_audit_error cx = None then st\<lparr>ps_audit := ps_audit st @ [e]\<rparr> else st);
          (res, st2) = record_stage env cx e None None
            \<lparr>rc_policy_hash = Some (workspace_policy_hash (pv_digest env) wp), rc_threat_feed_hash = Some (threat_feed_hash env cx),
             rc_dictum_trace = None\<rparr> st1
      in case res of
          Inl err \<Rightarrow> (Inl err, st2)
        | Inr _ \<Rightarrow> (Inr \<lparr>gr_protocol = protocol_of env input, gr_decision = GBlock, gr_review_status = NotRequired,
            gr_risk = \<lparr>rs_score = 0, rs_decision = GBlock, rs_reasons = said\<rparr>, gr_secret_plan = \<lparr>sp_approved = [], sp_denied = []\<rparr>,
            gr_event = e, gr_findings = [why], gr_review_request_id = None, gr_session = None, gr_taint = None\<rparr>, st2))"

text \<open>The end of an evaluated call: audit, receipt, and a review request when a human must decide.\<close>

definition settle ::
  "'s pipeline_env \<Rightarrow> 's call_context \<Rightarrow> inspect_request \<Rightarrow> agent_profile \<Rightarrow> workspace_policy \<Rightarrow> governance_result
   \<Rightarrow> dictum_trace_data option \<Rightarrow> 's pipeline_state \<Rightarrow> (sentinel_error + governance_result) \<times> 's pipeline_state" where
  "settle env cx input profile wp g trace st =
     (case cx_audit_error cx of
        Some err \<Rightarrow> (Inl err, st)
      | None \<Rightarrow>
          (let e = gr_event g;
               (res, st1) = record_stage env cx e (la_reasoning (cx_answers cx)) (ae_usage e)
                 \<lparr>rc_policy_hash = (if pv_overlay env = None then Some (workspace_policy_hash (pv_digest env) wp) else None),
                  rc_threat_feed_hash = Some (threat_feed_hash env cx), rc_dictum_trace = trace\<rparr>
                 (st\<lparr>ps_audit := ps_audit st @ [e]\<rparr>)
           in case res of
               Inl err \<Rightarrow> (Inl err, st1)
             | Inr _ \<Rightarrow>
                 if gr_decision g = GReview then
                   (case cx_review_error cx of
                      Some err \<Rightarrow> (Inl err, st1)
                    | None \<Rightarrow>
                        (let rq = \<lparr>rq_id = ae_event_id e, rq_agent_id = ap_agent_id profile, rq_workspace_id = ap_workspace_id profile,
                               rq_tool_name = ae_tool_name e, rq_decision = gr_decision g, rq_status = ''pending'',
                               rq_risk_score = rs_score (gr_risk g), rq_reasons = gr_findings g @ rs_reasons (gr_risk g),
                               rq_created_at = cx_timestamp cx, rq_updated_at = cx_timestamp cx\<rparr>
                         in (Inr (g\<lparr>gr_review_request_id := Some (rq_id rq), gr_review_status := Pending\<rparr>),
                             st1\<lparr>ps_reviews := ps_reviews st1 @ [rq]\<rparr>)))
                 else (Inr g, st1)))"

definition govern ::
  "'s pipeline_env \<Rightarrow> 's call_context \<Rightarrow> inspect_request \<Rightarrow> agent_profile \<Rightarrow> workspace_policy \<Rightarrow> 's pipeline_state
   \<Rightarrow> (sentinel_error + governance_result) \<times> 's pipeline_state" where
  "govern env cx input profile wp st =
     (case session_stage env cx input st of
        (session, taint, st1) \<Rightarrow>
          (case pv_rules env (ap_workspace_id profile) of
             Inl err \<Rightarrow> (Inl err, st1)
           | Inr rules \<Rightarrow>
               (let (cb, plan, risk) = judge env cx input profile wp rules session taint;
                    (decision, causes, trace, spend) = final_stage env cx input wp risk (ps_spend st1);
                    used = (if pv_cost_control env then resolve_for_request (tl_lower (pv_taint env)) (pv_pricing env) input else None);
                    review = (if decision = GReview then Pending else NotRequired);
                    said = rs_reasons risk @ [lowercase (tl_lower (pv_taint env)) (''agent-role:'' @ debug_role (ap_role profile))] @ causes;
                    e = audit_event env cx input (event_tenant profile wp) decision said review (rs_score risk) used;
                    g = \<lparr>gr_protocol = protocol_of env input, gr_decision = decision, gr_review_status = review,
                      gr_risk = risk\<lparr>rs_reasons := rs_reasons risk @ causes\<rparr>, gr_secret_plan = plan, gr_event = e,
                      gr_findings = cb_findings cb, gr_review_request_id = None, gr_session = Some session, gr_taint = Some taint\<rparr>
                in settle env cx input profile wp g trace (st1\<lparr>ps_spend := spend\<rparr>))))"

definition execute_pipeline_at ::
  "'s pipeline_env \<Rightarrow> 's call_context \<Rightarrow> inspect_request \<Rightarrow> 's pipeline_state \<Rightarrow> (sentinel_error + governance_result) \<times> 's pipeline_state" where
  "execute_pipeline_at env cx input st =
     (case pv_profile env (ir_agent_id input) of
        Inl err \<Rightarrow> (Inl err, st)
      | Inr profile \<Rightarrow>
          if \<not> claimed_workspace_ok input profile then
            (Inl (WorkspaceScopeMismatch (ir_agent_id input) (ap_workspace_id profile) (the (ir_workspace_id input))), st)
          else
            (case pv_policy env (ap_workspace_id profile) of
               Inl err \<Rightarrow> (Inl err, st)
             | Inr wp \<Rightarrow>
                 (case check_rate (ir_agent_id input) (Some (ad_tool_name (ir_action input))) (cx_instant cx) (cx_wall cx) (ps_limiter st) of
                    (rate, limiter) \<Rightarrow>
                      (let st0 = st\<lparr>ps_limiter := limiter\<rparr> in
                       if \<not> rr_allowed rate then rate_limited env cx input profile wp rate st0
                       else govern env cx input profile wp st0))))"

end
