(* ===== verification/Risk_Properties.thy ===== *)
theory Risk_Properties
  imports Tool_Risk
begin

text \<open>
  The composite score and the decision it carries: they agree with the thresholds of the workspace,
  respect what the other layers demanded, and do not depend on the order of the findings.
\<close>

section \<open>Escalation stays in its band\<close>

lemma raw_score_le: "raw_score c \<le> 100"
  by (simp add: raw_score_def)

lemma escalate_unat:
  assumes "unat s \<le> 100" "unat base + unat headroom \<le> 100"
  shows "unat (escalate base headroom s) = unat base + min (unat s * unat headroom div 100) (unat headroom)"
proof -
  have "unat s * unat headroom \<le> 100 * 100" using assms by (intro mult_mono) auto
  then have p: "unat (s * headroom) = unat s * unat headroom" by (simp add: unat_mult_lem [THEN iffD1])
  have m: "unat (min a b) = min (unat a) (unat b)" for a b :: u32 by (simp add: min_def word_le_nat_alt)
  have "unat (min (s * headroom div 100) headroom) = min (unat s * unat headroom div 100) (unat headroom)"
    by (simp add: m unat_div p)
  then show ?thesis
    unfolding escalate_def using assms(2) by (subst unat_plus_simple [THEN iffD1]) (auto simp: word_le_nat_alt unat_word_ariths)
qed

lemma saturating_unat: "unat (saturating_u32_sub a b) = unat a - unat b"
  by (auto simp: saturating_u32_sub_def word_le_nat_alt unat_sub)

lemma score_decision_unat:
  "score_decision tb tr s = (if unat tb \<le> unat s then GBlock else if unat tr \<le> unat s then GReview else GAllow)"
  by (simp add: score_decision_def word_le_nat_alt)

text \<open>A raised score lands in the band of the demanded decision, and not above it.\<close>

lemma adjusted_band:
  assumes "tr < tb" "tb \<le> 100" "s \<le> 100" "adjust_score minimum tb tr c (s, rs) = (s', rs')"
  shows "s' \<le> 100 \<and> score_decision tb tr s' = max minimum (score_decision tb tr s)"
proof -
  have le: "unat s \<le> 100" "unat tr < unat tb" "unat tb \<le> 100"
    using assms(1-3) by (simp_all add: word_less_nat_alt word_le_nat_alt)
  show ?thesis
  proof (cases minimum)
    case GAllow
    with assms show ?thesis by (simp add: adjust_score_def max_def)
  next
    case GBlock
    show ?thesis
    proof (cases "s < tb")
      case True
      then have "unat s' = unat tb + min (unat s * (100 - unat tb) div 100) (100 - unat tb)"
        using GBlock assms(4) le escalate_unat [of s tb "saturating_u32_sub 100 tb"] by (auto simp: adjust_score_def saturating_unat)
      with le GBlock show ?thesis by (simp add: score_decision_unat word_le_nat_alt max_def less_eq_governance_decision_def)
    qed (use GBlock assms in \<open>auto simp: adjust_score_def score_decision_def not_less max_def split: if_splits\<close>)
  next
    case GReview
    show ?thesis
    proof (cases "s < tr")
      case True
      then have s: "unat s < unat tr" by (simp add: word_less_nat_alt)
      have s': "unat s' = unat tr + min (unat s * (unat tb - unat tr) div 100) (unat tb - unat tr)"
        using GReview assms(4) le True escalate_unat [of s tr "saturating_u32_sub tb tr"]
        by (auto simp: adjust_score_def saturating_unat)
      have "unat s * (unat tb - unat tr) < 100 * (unat tb - unat tr)" using s le by simp
      then have "unat s * (unat tb - unat tr) div 100 < unat tb - unat tr"
        by (simp add: div_less_iff_less_mult mult.commute)
      with s' s le GReview show ?thesis
        by (simp add: score_decision_unat word_le_nat_alt max_def less_eq_governance_decision_def)
    next
      case False
      then have "s' = s" "tr \<le> s" using GReview assms(4) by (auto simp: adjust_score_def)
      with GReview assms(3) show ?thesis by (simp add: score_decision_def max_def)
    qed
  qed
qed

text \<open>Whatever the thresholds, an adjustment never lowers the score, so the band of the raw score is kept.\<close>

lemma escalate_ge: "base \<le> escalate base (saturating_u32_sub upper base) s"
proof -
  let ?x = "min (s * saturating_u32_sub upper base div 100) (saturating_u32_sub upper base)"
  have "unat ?x \<le> unat upper - unat base" by (metis min.cobounded2 saturating_unat word_le_nat_alt)
  moreover have "unat base < 2 ^ LENGTH(32)" "unat upper < 2 ^ LENGTH(32)" by (rule unsigned_less)+
  ultimately have "unat base + unat ?x < 2 ^ LENGTH(32)" by linarith
  then show ?thesis unfolding escalate_def by (simp only: no_olen_add_nat)
qed

lemma adjust_never_lowers: "s \<le> fst (adjust_score minimum tb tr c (s, rs))"
  using escalate_ge [of tb 100 s] escalate_ge [of tr tb s] unfolding adjust_score_def
  by (auto split: governance_decision.splits intro: order.trans [OF less_imp_le])

lemma score_decision_mono: "s \<le> s' \<Longrightarrow> score_decision tb tr s \<le> score_decision tb tr s'"
  by (auto simp: score_decision_def less_eq_governance_decision_def intro: order.trans)

lemma risk_at_least:
  assumes "r = score_tool_risk_with_thresholds is_match input minimum findings layers payload tb tr"
    and "raw = raw_score (composite (pattern_score (local_hits is_match input findings payload)) layers)"
  shows "max minimum (score_decision tb tr raw) \<le> rs_decision r"
proof -
  define c where "c = composite (pattern_score (local_hits is_match input findings payload)) layers"
  define rs where "rs = (if minimum \<noteq> GAllow then surface_findings findings (map snd (local_hits is_match input findings payload))
    else map snd (local_hits is_match input findings payload))"
  define s1 where "s1 = fst (adjust_score minimum tb tr c (raw_score c, rs))"
  have "raw \<le> min s1 100"
    using adjust_never_lowers [of "raw_score c"] raw_score_le [of c] unfolding s1_def assms(2) c_def by simp
  moreover have "rs_decision r = max minimum (score_decision tb tr (min s1 100))"
    unfolding assms(1) score_tool_risk_with_thresholds_def Let_def c_def [symmetric] rs_def [symmetric] s1_def
    by (auto simp: case_prod_beta max_def not_le split: if_splits)
  ultimately show ?thesis by (metis max.mono order.refl score_decision_mono)
qed

text \<open>With equal thresholds, which nothing forbids, a demand for review is escalated into the block band.\<close>

lemma equal_thresholds_overshoot: "score_decision 70 70 (fst (adjust_score GReview 70 70 c (10, rs))) = GBlock"
  by (simp add: adjust_score_def escalate_def saturating_u32_sub_def score_decision_def)

section \<open>Canonical reasons\<close>

lemma distinct_remdups_adj_sorted: "sorted xs \<Longrightarrow> distinct (remdups_adj xs)"
  by (induction xs rule: remdups_adj.induct) auto

lemma canonical_reasons: "remdups_adj (sort xs) = sorted_list_of_set (set xs)"
proof (rule sorted_distinct_set_unique)
  show "distinct (remdups_adj (sort xs))" by (rule distinct_remdups_adj_sorted) simp
qed simp_all

lemma set_surface_findings: "set (surface_findings fs rs) = set rs \<union> {f \<in> set fs. \<not> sublist MATCHED_TEXT f}"
  by (induction fs arbitrary: rs) auto

lemma local_hits_cong: "set fs = set gs \<Longrightarrow> local_hits m i fs p = local_hits m i gs p"
  by (simp add: local_hits_def list_ex_iff)

section \<open>Properties\<close>

text \<open>
  With a review threshold below the block threshold and a block threshold of at most 100, the
  decision is exactly the stricter of what the layers demand and what the raw composite score
  reaches, and the reported score lies in the band of the reported decision.
\<close>

lemma risk_decision_matches_score:
  assumes "threshold_review < threshold_block" "threshold_block \<le> 100"
    and "r = score_tool_risk_with_thresholds is_match input minimum findings layers payload threshold_block threshold_review"
    and "raw = raw_score (composite (pattern_score (local_hits is_match input findings payload)) layers)"
  shows "rs_decision r = max minimum (score_decision threshold_block threshold_review raw)
    \<and> rs_decision r = score_decision threshold_block threshold_review (rs_score r) \<and> rs_score r \<le> 100"
proof -
  define c where "c = composite (pattern_score (local_hits is_match input findings payload)) layers"
  define rs where "rs = (if minimum \<noteq> GAllow then surface_findings findings (map snd (local_hits is_match input findings payload))
    else map snd (local_hits is_match input findings payload))"
  obtain s1 rs1 where adj: "adjust_score minimum threshold_block threshold_review c (raw_score c, rs) = (s1, rs1)" by fastforce
  from adjusted_band [OF assms(1,2) raw_score_le adj]
  have band: "s1 \<le> 100" "score_decision threshold_block threshold_review s1 = max minimum (score_decision threshold_block threshold_review raw)"
    by (simp_all add: assms(4) c_def)
  have s1: "min s1 100 = s1" using band(1) by (simp add: min_def)
  have "rs_score r = s1" "rs_decision r = max minimum (score_decision threshold_block threshold_review s1)"
    unfolding assms(3) score_tool_risk_with_thresholds_def Let_def c_def [symmetric] rs_def [symmetric]
    by (auto simp: adj s1 max_def not_le split: if_splits)
  then show ?thesis using band by (simp add: max.left_idem)
qed

text \<open>
  C34. The risk score is a function of the set of findings: neither their order nor repetitions
  change the score, the decision or the signed list of reasons, which is never empty.
\<close>

theorem risk_ignores_finding_order:
  assumes "set findings = set findings'"
  shows "score_tool_risk_with_thresholds is_match input minimum findings layers payload tb tr =
      score_tool_risk_with_thresholds is_match input minimum findings' layers payload tb tr
    \<and> rs_reasons (score_tool_risk_with_thresholds is_match input minimum findings layers payload tb tr) \<noteq> []"
proof -
  let ?hits = "local_hits is_match input findings payload"
  have hits: "local_hits is_match input findings' payload = ?hits" using local_hits_cong [OF assms [symmetric]] .
  have same: "set (if minimum \<noteq> GAllow then surface_findings findings (map snd ?hits) else map snd ?hits) =
      set (if minimum \<noteq> GAllow then surface_findings findings' (map snd ?hits) else map snd ?hits)"
    by (simp add: set_surface_findings assms)
  have adj: "fst (adjust_score minimum tb tr c (s, rs)) = fst (adjust_score minimum tb tr c (s, rs'))"
    "set (snd (adjust_score minimum tb tr c (s, rs))) = set (snd (adjust_score minimum tb tr c (s, rs')))"
    if "set rs = set rs'" for c s rs rs'
    using that by (auto simp: adjust_score_def split: governance_decision.splits)
  show ?thesis
    unfolding score_tool_risk_with_thresholds_def Let_def hits canonical_reasons case_prod_beta
    using adj [OF same, of "composite (pattern_score ?hits) layers" "raw_score (composite (pattern_score ?hits) layers)"]
    by (simp add: set_empty [symmetric] del: set_empty split del: if_split) (auto simp: set_empty [symmetric] simp del: set_empty)
qed

definition plain_request :: inspect_request where
  "plain_request = \<lparr>ir_agent_id = [], ir_tenant_id = None, ir_workspace_id = None, ir_framework = [], ir_protocol = None,
     ir_action = \<lparr>ad_action_type = Shell, ad_tool_name = [], ad_payload = []\<rparr>, ir_requested_secrets = None,
     ir_metadata = None, ir_usage = None\<rparr>"

theorem risk_ignores_finding_order_witness:
  "score_tool_risk_with_thresholds (\<lambda>_ _. False) plain_request GBlock [''b'', ''a''] no_layer_risks [] 70 35 =
   score_tool_risk_with_thresholds (\<lambda>_ _. False) plain_request GBlock [''a'', ''b'', ''a''] no_layer_risks [] 70 35"
  using risk_ignores_finding_order [of "[''b'', ''a'']" "[''a'', ''b'', ''a'']"] by (simp add: insert_commute)

end
