(* ===== verification/Session_Properties.thy ===== *)
theory Session_Properties
  imports Session_Dag
begin

text \<open>
  What the session graph guarantees. The graph is a path whose labels only grow; every strike is
  counted and bounded; a session that struck out, or whose history contains a critical attack chain,
  refuses every later call as long as it stays in the store, whatever other sessions do meanwhile. A
  sweep drops a session only when it has been idle for the time to live; a dropped session starts
  afresh, strikes included.
\<close>

section \<open>Well-formed graphs\<close>

fun path_edges :: "tool_call_node list \<Rightarrow> data_flow_edge list" where
  "path_edges [] = []"
| "path_edges [n] = []"
| "path_edges (m # n # ns) =
     \<lparr>ed_from = tc_id m, ed_to = tc_id n, ed_data_keys = [''implicit_sequence''], ed_taint_propagated = tc_taint_labels m\<rparr>
     # path_edges (n # ns)"

definition id_at :: "(bytes \<Rightarrow> string) \<Rightarrow> string \<Rightarrow> nat \<Rightarrow> tool_call_node \<Rightarrow> string" where
  "id_at h session_id i n = derive_node_id h session_id i (tc_tool_name n) (tc_action_type n)"

definition strike_limit :: "session_config \<Rightarrow> u32" where
  "strike_limit cfg = max 1 (MAX_BLOCK_COUNT cfg)"

definition dag_ok :: "(bytes \<Rightarrow> string) \<Rightarrow> session_config \<Rightarrow> session_dag \<Rightarrow> bool" where
  "dag_ok h cfg s \<longleftrightarrow>
     sd_edges s = path_edges (sd_nodes s)
     \<and> (\<forall>i < length (sd_nodes s). tc_id (sd_nodes s ! i) = id_at h (sd_session_id s) i (sd_nodes s ! i))
     \<and> sorted_wrt (\<lambda>m n. tc_taint_labels m \<subseteq> tc_taint_labels n) (sd_nodes s)
     \<and> (sd_blocked s \<longleftrightarrow> sd_state s = FBlocked)
     \<and> sd_block_count s \<le> strike_limit cfg
     \<and> (\<not> sd_blocked s \<longrightarrow> sd_block_count s < strike_limit cfg)"

definition store_ok :: "(bytes \<Rightarrow> string) \<Rightarrow> session_config \<Rightarrow> dag_store \<Rightarrow> bool" where
  "store_ok h cfg store \<longleftrightarrow> (\<forall>(k, s) \<in> set store. sd_session_id s = k \<and> dag_ok h cfg s)"

text \<open>
  The states of the store: calls, pruning, clearing, and loading a session that a store of the same
  kind held.
\<close>

inductive dag_reachable :: "(bytes \<Rightarrow> string) \<Rightarrow> session_config \<Rightarrow> dag_store \<Rightarrow> bool" for h cfg where
  cleared: "dag_reachable h cfg []"
| called: "dag_reachable h cfg store \<Longrightarrow>
    dag_reachable h cfg (snd (add_tool_call_to_session h cfg clk sid agent tool action labels store))"
| pruned: "dag_reachable h cfg store \<Longrightarrow> dag_reachable h cfg (snd (prune_stale_sessions now ttl store))"
| hydrated: "dag_reachable h cfg store \<Longrightarrow> dag_reachable h cfg saved \<Longrightarrow> get_session saved sid = Some s \<Longrightarrow>
    dag_reachable h cfg (hydrate_session s store)"

section \<open>Every operation keeps the graphs well formed\<close>

lemma path_edges_snoc:
  "ns \<noteq> [] \<Longrightarrow> path_edges (ns @ [n]) = path_edges ns @
     [\<lparr>ed_from = tc_id (last ns), ed_to = tc_id n, ed_data_keys = [''implicit_sequence''],
       ed_taint_propagated = tc_taint_labels (last ns)\<rparr>]"
  by (induction ns rule: path_edges.induct) auto

lemma labels_le_last:
  "sorted_wrt (\<lambda>m n. tc_taint_labels m \<subseteq> tc_taint_labels n) ns \<Longrightarrow> n \<in> set ns \<Longrightarrow>
     tc_taint_labels n \<subseteq> tc_taint_labels (last ns)"
  by (induction ns) (auto split: if_splits)

lemma push_call_ok:
  assumes "dag_ok h cfg s" "push_call h clk (sd_session_id s) agent tool action labels s = (node, s1)"
  shows "dag_ok h cfg s1" "sd_session_id s1 = sd_session_id s" "sd_nodes s1 = sd_nodes s @ [node]"
    "tc_action_type node = action" "labels \<subseteq> tc_taint_labels node"
    "sd_blocked s1 = sd_blocked s" "sd_state s1 = sd_state s" "sd_block_count s1 = sd_block_count s"
proof -
  have inc: "\<And>n. n \<in> set (sd_nodes s) \<Longrightarrow> tc_taint_labels n \<subseteq> tc_taint_labels (last (sd_nodes s))"
    using assms(1) by (intro labels_le_last) (auto simp: dag_ok_def)
  note [simp] = push_call_def Let_def path_edges_snoc id_at_def nth_append sorted_wrt_append less_Suc_eq
  show "dag_ok h cfg s1" using assms inc unfolding dag_ok_def by (cases "sd_nodes s = []") (fastforce split: if_splits)+
qed (use assms in \<open>auto simp: push_call_def Let_def\<close>)

lemma check_transition_allows: "check_transition st a ts = (True, st') \<Longrightarrow> st' \<noteq> FBlocked \<and> st \<noteq> FBlocked"
  by (auto simp: check_transition_def default_transitions_def split: if_splits option.splits)

lemma strike_below_limit: "c < strike_limit cfg \<Longrightarrow> c + 1 \<le> strike_limit cfg"
  by (rule inc_le)

lemma apply_transition_ok:
  assumes "dag_ok h cfg s" "\<not> sd_blocked s" "apply_transition clk agent node s = (allowed, s1)"
  shows "dag_ok h cfg s1" "sd_session_id s1 = sd_session_id s" "sd_nodes s1 = sd_nodes s"
    "sd_blocked s1 \<longleftrightarrow> \<not> allowed"
  using assms check_transition_allows
  by (auto simp: apply_transition_def dag_ok_def strike_below_limit split: prod.splits bool.splits)

lemma apply_attacks_ok:
  assumes "dag_ok h cfg s" "apply_attacks clk attacks (allowed, s) = (allowed1, s1)"
  shows "dag_ok h cfg s1" "sd_session_id s1 = sd_session_id s" "sd_nodes s1 = sd_nodes s"
  using assms by (auto simp: apply_attacks_def dag_ok_def strike_below_limit split: if_splits)

lemma evaluate_call_ok:
  assumes "dag_ok h cfg s" "\<not> sd_blocked s"
    and "evaluate_call h clk (sd_session_id s) agent tool action labels s = (r, s')"
  obtains node where "dag_ok h cfg s'" "sd_session_id s' = sd_session_id s" "sd_nodes s' = sd_nodes s @ [node]"
    "tc_action_type node = action" "labels \<subseteq> tc_taint_labels node"
    "sr_attacks_detected r = match_attack_signatures s'"
    "sr_transition_allowed r \<longrightarrow> \<not> list_ex is_critical (match_attack_signatures s')"
proof -
  obtain node s1 where 1: "push_call h clk (sd_session_id s) agent tool action labels s = (node, s1)" by fastforce
  obtain b2 s2 where 2: "apply_transition clk agent node s1 = (b2, s2)" by fastforce
  obtain b3 s3 where 3: "apply_attacks clk (match_attack_signatures s2) (b2, s2) = (b3, s3)" by fastforce
  note ok1 = push_call_ok [OF assms(1) 1]
  note ok2 = apply_transition_ok [OF ok1(1) _ 2]
  note ok3 = apply_attacks_ok [OF ok2(1) 3]
  have nb: "\<not> sd_blocked s1" using ok1 assms(2) by simp
  have same: "match_attack_signatures s3 = match_attack_signatures s2"
    using ok3(3) [OF nb] by (simp add: match_attack_signatures_def)
  have r: "s' = s3" "sr_attacks_detected r = match_attack_signatures s2" "sr_transition_allowed r = b3"
    using assms(3) by (auto simp: evaluate_call_def 1 2 3 Let_def split: prod.splits)
  have crit: "b3 \<longrightarrow> \<not> list_ex is_critical (match_attack_signatures s2)"
    using 3 by (auto simp: apply_attacks_def split: if_splits)
  show thesis
  proof (rule that [of node])
    show "dag_ok h cfg s'" using ok3(1) [OF nb] r(1) by simp
    show "sd_session_id s' = sd_session_id s" using ok3(2) [OF nb] ok2(2) [OF nb] ok1(2) r(1) by simp
    show "sd_nodes s' = sd_nodes s @ [node]" using ok3(3) [OF nb] ok2(3) [OF nb] ok1(3) r(1) by simp
    show "sr_attacks_detected r = match_attack_signatures s'" using r same by simp
    show "sr_transition_allowed r \<longrightarrow> \<not> list_ex is_critical (match_attack_signatures s')" using crit r same by simp
  qed (use ok1 in simp_all)
qed

lemma evaluate_call_effect:
  assumes "evaluate_call h clk sid agent tool action labels s = (r, s')"
  shows "\<exists>node. sd_nodes s' = sd_nodes s @ [node] \<and> tc_action_type node = action \<and> labels \<subseteq> tc_taint_labels node"
  using assms
  by (auto simp: evaluate_call_def push_call_def apply_transition_def apply_attacks_def Let_def
      split: prod.splits bool.splits if_splits)

lemma evaluate_call_activity:
  "evaluate_call h clk sid agent tool action labels s = (r, s') \<Longrightarrow> sd_last_activity s' = sd_last_activity s"
  by (auto simp: evaluate_call_def push_call_def apply_transition_def apply_attacks_def Let_def
      split: prod.splits bool.splits if_splits)

lemma reading_refuses_send:
  assumes "sd_state s = FReading" "\<not> sd_blocked s" "is_egress_action action"
    and "labels \<inter> {''local_fs'', ''secret'', ''internal_api''} \<noteq> {}"
    and "evaluate_call h clk sid agent tool action labels s = (r, s')"
  shows "\<not> sr_transition_allowed r \<and> sd_blocked s' \<and> sd_block_count s' = sd_block_count s + 1"
proof -
  have "check_transition FReading action (labels \<union> ts) = (False, FBlocked)" for ts
    using assms(3,4) by (auto simp: check_transition_def is_egress_action_def)
  from this [of "{}"] this [of "tc_taint_labels (last (sd_nodes s))"] show ?thesis
    using assms(1,2,5)
    by (auto simp: evaluate_call_def push_call_def apply_transition_def apply_attacks_def Let_def split: prod.splits if_splits)
qed

lemma decay_block_ok:
  assumes "dag_ok h cfg s" "decay_block cfg clk sid s = Inr s1"
  shows "dag_ok h cfg s1" "\<not> sd_blocked s1" "sd_session_id s1 = sd_session_id s" "sd_nodes s1 = sd_nodes s"
proof -
  have "\<not> MAX_BLOCK_COUNT cfg \<le> c \<Longrightarrow> c < strike_limit cfg" for c
    by (simp add: strike_limit_def not_le less_max_iff_disj)
  then show "dag_ok h cfg s1" "\<not> sd_blocked s1" "sd_session_id s1 = sd_session_id s" "sd_nodes s1 = sd_nodes s"
    using assms by (auto simp: decay_block_def Let_def dag_ok_def split: if_splits)
qed

lemma enter_session_ok:
  assumes "store_ok h cfg store"
  shows "dag_ok h cfg (enter_session clk sid agent store)" "sd_session_id (enter_session clk sid agent store) = sid"
proof -
  have "dag_ok h cfg (new_session clk sid agent)"
    by (simp add: dag_ok_def new_session_def strike_limit_def less_max_iff_disj)
  then show "dag_ok h cfg (enter_session clk sid agent store)" "sd_session_id (enter_session clk sid agent store) = sid"
    using assms map_of_SomeD [of store sid]
    by (auto simp: enter_session_def store_ok_def dag_ok_def new_session_def split: option.splits)
qed

lemma store_ok_update:
  "store_ok h cfg store \<Longrightarrow> sd_session_id s = k \<Longrightarrow> dag_ok h cfg s \<Longrightarrow> store_ok h cfg (AList.update k s store)"
  by (induction store) (auto simp: store_ok_def)

lemma store_ok_retain: "store_ok h cfg store \<Longrightarrow> store_ok h cfg (retain_recent now ttl store)"
  by (auto simp: store_ok_def retain_recent_def)

lemma make_room_ok: "store_ok h cfg store \<Longrightarrow> store_ok h cfg (make_room cfg clk sid store)"
  by (simp add: make_room_def store_ok_retain)

lemma add_tool_call_ok:
  assumes "store_ok h cfg store"
  shows "store_ok h cfg (snd (add_tool_call_to_session h cfg clk sid agent tool action labels store))"
proof -
  let ?st = "make_room cfg clk sid store" and ?s = "enter_session clk sid agent (make_room cfg clk sid store)"
  have st: "store_ok h cfg ?st" using assms by (rule make_room_ok)
  note s = enter_session_ok [OF st, of clk sid agent]
  show ?thesis
  proof (cases "decay_block cfg clk sid ?s")
    case (Inl r)
    then show ?thesis using store_ok_update [OF st s(2,1)] by (simp add: add_tool_call_to_session_def Let_def)
  next
    case (Inr s1)
    note s1 = decay_block_ok [OF s(1) Inr]
    obtain r s2 where e: "evaluate_call h clk (sd_session_id s1) agent tool action labels s1 = (r, s2)" by fastforce
    have id1: "sd_session_id s1 = sid" using s1(3) s(2) by simp
    from evaluate_call_ok [OF s1(1,2) e] have "dag_ok h cfg s2" "sd_session_id s2 = sid" using id1 by metis+
    then show ?thesis
      using Inr e id1 store_ok_update [OF st, of s2 sid] by (simp add: add_tool_call_to_session_def Let_def)
  qed
qed

lemma reachable_ok: "dag_reachable h cfg store \<Longrightarrow> store_ok h cfg store"
proof (induction rule: dag_reachable.induct)
  case (hydrated store saved sid s)
  then have "sd_session_id s = sid" "dag_ok h cfg s"
    using map_of_SomeD [of saved sid s] by (auto simp: store_ok_def get_session_def)
  then show ?case using hydrated by (auto simp: hydrate_session_def intro: store_ok_update)
qed (simp_all add: store_ok_def [of _ _ "[]"] add_tool_call_ok prune_stale_sessions_def Let_def store_ok_retain)

lemma reachable_session_ok:
  "dag_reachable h cfg store \<Longrightarrow> get_session store sid = Some s \<Longrightarrow> dag_ok h cfg s \<and> sd_session_id s = sid"
  using map_of_SomeD [of store sid s] by (auto dest!: reachable_ok simp: store_ok_def get_session_def)

lemma reachable_distinct: "dag_reachable h cfg store \<Longrightarrow> distinct (map fst store)"
proof (induction rule: dag_reachable.induct)
  case (called store clk sid agent tool action labels)
  then show ?case
    by (simp add: add_tool_call_to_session_def make_room_def retain_recent_def Let_def distinct_update distinct_map_filter
        split: sum.split prod.split)
qed (simp_all add: prune_stale_sessions_def retain_recent_def Let_def hydrate_session_def distinct_update distinct_map_filter)

section \<open>Attack chains stay in the history\<close>

definition critical_chain :: "session_dag \<Rightarrow> bool" where
  "critical_chain s \<longleftrightarrow> list_ex is_critical (match_attack_signatures s)"

lemma scan_pattern_append: "scan_pattern ps ns = Some m \<Longrightarrow> scan_pattern ps (ns @ xs) = Some m"
  by (induction ps ns arbitrary: m rule: scan_pattern.induct) (auto split: if_splits)

lemma scan_pattern_subseq: "scan_pattern ps ns \<noteq> None \<longleftrightarrow> subseq ps (map tc_action_type ns)"
  by (induction ps ns rule: scan_pattern.induct) auto

lemma match_signature_Some:
  "match_signature ns sig \<noteq> None \<longleftrightarrow>
     length (sig_pattern sig) \<le> length ns \<and> (\<exists>i \<le> length ns - length (sig_pattern sig). match_from sig ns i \<noteq> None)"
proof -
  have "List.map_filter f xs \<noteq> [] \<longleftrightarrow> (\<exists>x \<in> set xs. f x \<noteq> None)" for f :: "nat \<Rightarrow> tool_call_node list option" and xs
    by (induction xs) (auto simp: List.map_filter_simps split: option.splits)
  from this [of "match_from sig ns" "[0 ..< length ns - length (sig_pattern sig) + 1]"] show ?thesis
    by (auto simp: match_signature_def less_Suc_eq_le split: list.splits if_splits simp del: upt_Suc)
qed

lemma match_signature_append: "match_signature ns sig \<noteq> None \<Longrightarrow> match_signature (ns @ xs) sig \<noteq> None"
proof -
  assume "match_signature ns sig \<noteq> None"
  then obtain i where len: "length (sig_pattern sig) \<le> length ns"
    and i: "i \<le> length ns - length (sig_pattern sig)" "match_from sig ns i \<noteq> None"
    by (auto simp only: match_signature_Some)
  then have "drop i (ns @ xs) = drop i ns @ xs" by simp
  then have "match_from sig (ns @ xs) i \<noteq> None"
    using i(2) scan_pattern_append by (fastforce simp: match_from_def split: option.splits if_splits)
  moreover have "i \<le> length (ns @ xs) - length (sig_pattern sig)" using i(1) by simp
  ultimately show ?thesis using len unfolding match_signature_Some by fastforce
qed

lemma match_signature_severity: "match_signature ns sig = Some a \<Longrightarrow> am_severity a = sig_severity sig"
  by (auto simp: match_signature_def split: if_splits list.splits)

lemma critical_chain_iff:
  "critical_chain s \<longleftrightarrow>
     (\<exists>sig \<in> set attack_signatures. sig_severity sig = ''critical'' \<and> match_signature (sd_nodes s) sig \<noteq> None)"
proof -
  have "list_ex is_critical (List.map_filter f sigs) \<longleftrightarrow> (\<exists>sig \<in> set sigs. \<exists>a. f sig = Some a \<and> is_critical a)"
    for f and sigs :: "attack_signature list"
    by (induction sigs) (auto simp: List.map_filter_simps split: option.splits)
  then have "critical_chain s \<longleftrightarrow>
      (\<exists>sig \<in> set attack_signatures. \<exists>a. match_signature (sd_nodes s) sig = Some a \<and> am_severity a = ''critical'')"
    unfolding critical_chain_def match_attack_signatures_def is_critical_def .
  then show ?thesis using match_signature_severity by (metis not_None_eq)
qed

lemma critical_chain_persists:
  "critical_chain s \<Longrightarrow> sd_nodes s' = sd_nodes s @ ns \<Longrightarrow> critical_chain s'"
  by (auto simp only: critical_chain_iff intro!: match_signature_append)

lemma scan_one: "scan_pattern [p] ns = map_option (\<lambda>n. [n]) (find (\<lambda>n. tc_action_type n = p) ns)"
  by (induction ns) auto

text \<open>A read, then the first request after it, carrying a sensitive label.\<close>

lemma exfiltration_chain:
  assumes "sd_nodes s = pre @ rd # mid @ snd_node # post"
    and "tc_action_type rd = ''file_read''" "tc_action_type snd_node = ''http''"
    and "\<forall>n \<in> set mid. tc_action_type n \<noteq> ''http''"
    and "''local_fs'' \<in> tc_taint_labels snd_node \<or> ''secret'' \<in> tc_taint_labels snd_node"
  shows "critical_chain s"
proof -
  let ?sig = "hd attack_signatures"
  have "find (\<lambda>n. tc_action_type n = ''http'') (mid @ snd_node # post) = Some snd_node"
    using assms(3,4) by (induction mid) auto
  then have "scan_pattern [''file_read'', ''http''] (drop (length pre) (sd_nodes s)) = Some [rd, snd_node]"
    using assms(1,2) by (simp add: scan_one)
  then have "match_from ?sig (sd_nodes s) (length pre) \<noteq> None"
    using assms(5) by (auto simp: match_from_def attack_signatures_def taints_suffice_def)
  moreover have "length pre \<le> length (sd_nodes s) - length (sig_pattern ?sig)" "length (sig_pattern ?sig) \<le> length (sd_nodes s)"
    using assms(1) by (simp_all add: attack_signatures_def)
  ultimately have "match_signature (sd_nodes s) ?sig \<noteq> None" unfolding match_signature_Some by blast
  then show ?thesis unfolding critical_chain_iff by (intro bexI [of _ ?sig]) (simp_all add: attack_signatures_def)
qed

section \<open>Closed sessions\<close>

record dag_call =
  dc_clock :: clock_readings
  dc_agent :: string
  dc_tool :: string
  dc_action :: string
  dc_labels :: "string set"

text \<open>One call of any agent in the session \<open>sid\<close>.\<close>

definition call_in :: "(bytes \<Rightarrow> string) \<Rightarrow> session_config \<Rightarrow> string \<Rightarrow> dag_call \<Rightarrow> dag_store \<Rightarrow> session_analysis_result \<times> dag_store" where
  "call_in h cfg sid c store =
     add_tool_call_to_session h cfg (dc_clock c) sid (dc_agent c) (dc_tool c) (dc_action c) (dc_labels c) store"

text \<open>
  What happens to the store while the server runs: a call in any session, which may first sweep out
  idle sessions to make room, or the periodic pruning.
\<close>

datatype dag_op = SessionCall string dag_call | SessionPrune u64 u64

fun dag_step :: "(bytes \<Rightarrow> string) \<Rightarrow> session_config \<Rightarrow> dag_op \<Rightarrow> dag_store \<Rightarrow> session_analysis_result option \<times> dag_store" where
  "dag_step h cfg (SessionCall sid c) store = (case call_in h cfg sid c store of (r, store') \<Rightarrow> (Some r, store'))"
| "dag_step h cfg (SessionPrune now ttl_ms) store = (None, snd (prune_stale_sessions now ttl_ms store))"

definition holds_session :: "string \<Rightarrow> dag_store \<Rightarrow> bool" where
  "holds_session sid store \<longleftrightarrow> get_session store sid \<noteq> None"

text \<open>The session \<open>sid\<close> is in the store before each of the operations up to the one at \<open>i\<close>.\<close>

definition stays_held :: "(bytes \<Rightarrow> string) \<Rightarrow> session_config \<Rightarrow> string \<Rightarrow> dag_op list \<Rightarrow> dag_store \<Rightarrow> nat \<Rightarrow> bool" where
  "stays_held h cfg sid ops store i \<longleftrightarrow> holds_until (dag_step h cfg) (holds_session sid) ops store i"

fun call_of :: "string \<Rightarrow> dag_op \<Rightarrow> bool" where
  "call_of sid (SessionCall sid' c) \<longleftrightarrow> sid' = sid"
| "call_of sid (SessionPrune now ttl_ms) \<longleftrightarrow> False"

definition refuses :: "session_analysis_result \<Rightarrow> bool" where
  "refuses r \<longleftrightarrow> \<not> sr_transition_allowed r"

fun op_refused :: "session_analysis_result option \<Rightarrow> bool" where
  "op_refused None \<longleftrightarrow> False"
| "op_refused (Some r) \<longleftrightarrow> refuses r"

fun op_refused_fully :: "session_analysis_result option \<Rightarrow> bool" where
  "op_refused_fully None \<longleftrightarrow> False"
| "op_refused_fully (Some r) \<longleftrightarrow> refuses r \<and> sr_anomaly_score r = 100"

definition keyed_ok :: "(bytes \<Rightarrow> string) \<Rightarrow> session_config \<Rightarrow> dag_store \<Rightarrow> bool" where
  "keyed_ok h cfg store \<longleftrightarrow> store_ok h cfg store \<and> distinct (map fst store)"

definition condemned :: "(bytes \<Rightarrow> string) \<Rightarrow> session_config \<Rightarrow> string \<Rightarrow> dag_store \<Rightarrow> bool" where
  "condemned h cfg sid store \<longleftrightarrow> keyed_ok h cfg store \<and> (\<exists>s. get_session store sid = Some s \<and> critical_chain s)"

text \<open>The session is the struck-out \<open>s\<close>, but for the time of its last call.\<close>

definition struck_out :: "(bytes \<Rightarrow> string) \<Rightarrow> session_config \<Rightarrow> string \<Rightarrow> session_dag \<Rightarrow> dag_store \<Rightarrow> bool" where
  "struck_out h cfg sid s store \<longleftrightarrow> keyed_ok h cfg store \<and> sd_blocked s \<and> MAX_BLOCK_COUNT cfg \<le> sd_block_count s
     \<and> (\<exists>t. get_session store sid = Some (s\<lparr>sd_last_activity := t\<rparr>))"

lemma reachable_keyed: "dag_reachable h cfg store \<Longrightarrow> keyed_ok h cfg store"
  by (simp add: keyed_ok_def reachable_ok reachable_distinct)

subsection \<open>What an operation does to the other sessions\<close>

lemma get_retained:
  "distinct (map fst store) \<Longrightarrow> get_session (retain_recent now ttl store) sid =
     (case get_session store sid of None \<Rightarrow> None
      | Some s \<Rightarrow> if saturating_u64_sub now (sd_last_activity s) < ttl then Some s else None)"
  by (induction store) (auto simp: get_session_def retain_recent_def map_of_eq_None_iff split: option.splits if_splits)

lemma retained_distinct: "distinct (map fst store) \<Longrightarrow> distinct (map fst (retain_recent now ttl store))"
  by (simp add: retain_recent_def distinct_map_filter)

lemma get_after_update [simp]: "get_session (AList.update k s store) k = Some s"
  by (simp add: get_session_def update_conv')

lemma get_other_update: "k \<noteq> sid \<Longrightarrow> get_session (AList.update k s store) sid = get_session store sid"
  by (simp add: get_session_def update_conv')

lemma call_updates_room: "\<exists>s. snd (call_in h cfg sid c store) = AList.update sid s (make_room cfg (dc_clock c) sid store)"
  by (auto simp: call_in_def add_tool_call_to_session_def Let_def split: sum.split prod.split)

lemma call_holds_session: "holds_session sid (snd (call_in h cfg sid c store))"
  using call_updates_room [of h cfg sid c store] by (auto simp: holds_session_def)

lemma dag_step_ok: "keyed_ok h cfg store \<Longrightarrow> keyed_ok h cfg (snd (dag_step h cfg op store))"
proof (cases op)
  case (SessionCall sid c)
  assume ok: "keyed_ok h cfg store"
  from call_updates_room obtain s where "snd (call_in h cfg sid c store) = AList.update sid s (make_room cfg (dc_clock c) sid store)" by blast
  with ok SessionCall show ?thesis
    using add_tool_call_ok [of h cfg store "dc_clock c" sid "dc_agent c" "dc_tool c" "dc_action c" "dc_labels c"]
    by (auto simp: keyed_ok_def call_in_def make_room_def case_prod_beta retained_distinct distinct_update)
qed (simp add: keyed_ok_def prune_stale_sessions_def Let_def store_ok_retain retained_distinct)

text \<open>The sweep an operation makes, if any: the clock reading and the time to live it applies.\<close>

fun sweep_of :: "session_config \<Rightarrow> dag_op \<Rightarrow> dag_store \<Rightarrow> (u64 \<times> u64) option" where
  "sweep_of cfg (SessionCall sid c) store =
     (if get_session store sid = None \<and> MAX_SESSIONS cfg \<le> length store then Some (at_evict (dc_clock c), SESSION_TTL_MS cfg) else None)"
| "sweep_of cfg (SessionPrune now ttl_ms) store = Some (now, ttl_ms)"

lemma other_session_after:
  assumes "distinct (map fst store)" "\<not> call_of sid op" "get_session store sid = Some s"
  shows "get_session (snd (dag_step h cfg op store)) sid =
     (case sweep_of cfg op store of
        Some (now, ttl) \<Rightarrow> if saturating_u64_sub now (sd_last_activity s) < ttl then Some s else None
      | None \<Rightarrow> Some s)"
proof (cases op)
  case (SessionCall k c)
  from call_updates_room obtain x where "snd (call_in h cfg k c store) = AList.update k x (make_room cfg (dc_clock c) k store)" by blast
  with assms SessionCall show ?thesis
    by (auto simp: case_prod_beta get_other_update make_room_def get_retained get_session_def [of store k, symmetric])
qed (use assms in \<open>simp add: prune_stale_sessions_def Let_def get_retained\<close>)

lemma unheld_stays_unheld:
  assumes "distinct (map fst store)" "\<not> call_of sid op" "get_session store sid = None"
  shows "get_session (snd (dag_step h cfg op store)) sid = None"
proof (cases op)
  case (SessionCall k c)
  from call_updates_room obtain x where "snd (call_in h cfg k c store) = AList.update k x (make_room cfg (dc_clock c) k store)" by blast
  with assms SessionCall show ?thesis
    by (auto simp: case_prod_beta get_other_update make_room_def get_retained)
qed (use assms in \<open>simp add: prune_stale_sessions_def Let_def get_retained\<close>)

lemma untouched_session:
  "keyed_ok h cfg store \<Longrightarrow> \<not> call_of sid op \<Longrightarrow> get_session store sid = Some s \<Longrightarrow>
     holds_session sid (snd (dag_step h cfg op store)) \<Longrightarrow> get_session (snd (dag_step h cfg op store)) sid = Some s"
  using other_session_after [of store sid op s h cfg]
  by (auto simp: keyed_ok_def holds_session_def split: option.splits prod.splits if_splits)

text \<open>A held session is lost only to a sweep that finds it idle for the whole time to live.\<close>

lemma lost_only_when_idle:
  assumes "keyed_ok h cfg store" "get_session store sid = Some s" "\<not> holds_session sid (snd (dag_step h cfg op store))"
  shows "\<exists>now ttl. sweep_of cfg op store = Some (now, ttl) \<and> ttl \<le> saturating_u64_sub now (sd_last_activity s)"
proof -
  have "\<not> call_of sid op"
    using assms(3) call_holds_session [of sid h cfg _ store] by (cases op) (auto simp: case_prod_beta)
  then show ?thesis
    using assms other_session_after [of store sid op s h cfg]
    by (auto simp: keyed_ok_def holds_session_def not_less split: option.splits prod.splits if_splits)
qed

text \<open>What a sweep drops is forgotten: the next call in the session is answered like a first call.\<close>

lemma new_session_answer:
  "get_session store sid = None \<Longrightarrow> fst (call_in h cfg sid c store) = fst (call_in h cfg sid c [])"
proof -
  assume none: "get_session store sid = None"
  have "map_of (make_room cfg (dc_clock c) sid store) sid = None"
    using none by (auto simp: make_room_def retain_recent_def get_session_def map_of_eq_None_iff)
  then show ?thesis
    by (simp add: call_in_def add_tool_call_to_session_def enter_session_def Let_def make_room_def [of _ _ _ "[]"] retain_recent_def [of _ _ "[]"]
        split: sum.split prod.split)
qed

lemma swept_session_reopens:
  assumes "keyed_ok h cfg store" "get_session store sid = Some s" "ttl \<le> saturating_u64_sub now (sd_last_activity s)"
  shows "fst (run_steps (dag_step h cfg) [SessionPrune now ttl, SessionCall sid c] store) = [None, Some (fst (call_in h cfg sid c []))]"
proof -
  have "get_session (snd (prune_stale_sessions now ttl store)) sid = None"
    using assms by (simp add: keyed_ok_def prune_stale_sessions_def Let_def get_retained not_less)
  from new_session_answer [OF this, of h cfg c] show ?thesis by (simp add: case_prod_beta)
qed

subsection \<open>Calls in a closed session\<close>

lemma add_to_known_session:
  assumes "get_session store sid = Some s" and "s0 = s\<lparr>sd_last_activity := at_activity clk\<rparr>"
  shows "add_tool_call_to_session h cfg clk sid agent tool action labels store =
     (case decay_block cfg clk sid s0 of
        Inl refusal \<Rightarrow> (refusal, AList.update sid s0 store)
      | Inr s1 \<Rightarrow> (case evaluate_call h clk sid agent tool action labels s1 of (r, s2) \<Rightarrow> (r, AList.update sid s2 store)))"
  using assms(1) unfolding assms(2)
  by (simp add: add_tool_call_to_session_def make_room_def enter_session_def get_session_def Let_def
      cong: sum.case_cong)

lemma condemned_call:
  assumes "condemned h cfg sid store" and "call_in h cfg sid c store = (r, store')"
  shows "condemned h cfg sid store' \<and> refuses r"
proof -
  from assms(1) obtain s where s: "get_session store sid = Some s" "critical_chain s" and ok: "keyed_ok h cfg store"
    by (auto simp: condemned_def)
  have st: "store_ok h cfg store" using ok by (simp add: keyed_ok_def)
  define s0 where "s0 = s\<lparr>sd_last_activity := at_activity (dc_clock c)\<rparr>"
  note add = add_to_known_session [OF s(1) s0_def]
  have keeps: "keyed_ok h cfg store'"
    using dag_step_ok [OF ok, of "SessionCall sid c"] assms(2) by simp
  have "dag_ok h cfg s" "sd_session_id s = sid"
    using st s(1) map_of_SomeD by (fastforce simp: store_ok_def get_session_def)+
  then have s0: "dag_ok h cfg s0" "sd_session_id s0 = sid" "critical_chain s0"
    using s(2) by (simp_all add: s0_def dag_ok_def critical_chain_iff)
  show ?thesis
  proof (cases "decay_block cfg (dc_clock c) sid s0")
    case (Inl e)
    then have "refuses e" by (auto simp: decay_block_def Let_def refused_result_def refuses_def split: if_splits)
    then show ?thesis using assms(2) add Inl keeps s0(3) by (auto simp: call_in_def condemned_def)
  next
    case (Inr s1)
    note s1 = decay_block_ok [OF s0(1) Inr]
    obtain r2 s2 where e: "evaluate_call h (dc_clock c) sid (dc_agent c) (dc_tool c) (dc_action c) (dc_labels c) s1 = (r2, s2)"
      by fastforce
    from e have "evaluate_call h (dc_clock c) (sd_session_id s1) (dc_agent c) (dc_tool c) (dc_action c) (dc_labels c) s1 = (r2, s2)"
      using s1(3) s0(2) by simp
    from evaluate_call_ok [OF s1(1,2) this] obtain node where n: "sd_nodes s2 = sd_nodes s1 @ [node]"
      and allowed: "sr_transition_allowed r2 \<longrightarrow> \<not> critical_chain s2" unfolding critical_chain_def by metis
    have "critical_chain s2" using critical_chain_persists [OF s0(3)] n s1(4) by simp
    moreover have "r = r2" "store' = AList.update sid s2 store"
      using assms(2) add Inr e by (simp_all add: call_in_def)
    ultimately show ?thesis using keeps allowed by (auto simp: condemned_def refuses_def)
  qed
qed

lemma struck_out_call:
  assumes "struck_out h cfg sid s store" and "call_in h cfg sid c store = (r, store')"
  shows "struck_out h cfg sid s store' \<and> refuses r \<and> sr_anomaly_score r = 100"
proof -
  from assms(1) obtain t where s: "get_session store sid = Some (s\<lparr>sd_last_activity := t\<rparr>)"
      "sd_blocked s" "MAX_BLOCK_COUNT cfg \<le> sd_block_count s" and ok: "keyed_ok h cfg store"
    by (auto simp: struck_out_def)
  define s0 where "s0 = (s\<lparr>sd_last_activity := t\<rparr>)\<lparr>sd_last_activity := at_activity (dc_clock c)\<rparr>"
  have "decay_block cfg (dc_clock c) sid s0 =
      Inl (refused_result sid s0 100 (PermanentlyBlocked (sd_block_count s0) (stated_reason s0)))"
    using s by (simp add: s0_def decay_block_def Let_def)
  moreover have "keyed_ok h cfg store'" using dag_step_ok [OF ok, of "SessionCall sid c"] assms(2) by simp
  ultimately show ?thesis
    using assms(2) s add_to_known_session [OF s(1) s0_def]
    by (auto simp: call_in_def struck_out_def refuses_def refused_result_def s0_def)
qed

lemma condemned_step: "condemned h cfg sid store \<Longrightarrow> holds_session sid (snd (dag_step h cfg op store)) \<Longrightarrow> condemned h cfg sid (snd (dag_step h cfg op store))"
proof (cases "call_of sid op")
  case True
  assume "condemned h cfg sid store"
  with True condemned_call show ?thesis by (cases op) (fastforce split: prod.splits)+
qed (auto simp: condemned_def dag_step_ok dest: untouched_session)

lemma struck_out_step: "struck_out h cfg sid s store \<Longrightarrow> holds_session sid (snd (dag_step h cfg op store)) \<Longrightarrow> struck_out h cfg sid s (snd (dag_step h cfg op store))"
proof (cases "call_of sid op")
  case True
  assume "struck_out h cfg sid s store"
  with True struck_out_call show ?thesis by (cases op) (fastforce split: prod.splits)+
qed (auto simp: struck_out_def dag_step_ok dest: untouched_session)

lemma condemned_refuses: "condemned h cfg sid store \<Longrightarrow> call_of sid op \<Longrightarrow> op_refused (fst (dag_step h cfg op store))"
  using condemned_call by (cases op) (fastforce split: prod.splits)+

lemma struck_out_refuses: "struck_out h cfg sid s store \<Longrightarrow> call_of sid op \<Longrightarrow> op_refused_fully (fst (dag_step h cfg op store))"
  using struck_out_call by (cases op) (fastforce split: prod.splits)+

interpretation chain: watched_monitor "dag_step h cfg" "holds_session sid" "condemned h cfg sid" "call_of sid" op_refused
  for h cfg sid
  by unfold_locales (simp_all add: condemned_step condemned_refuses)

interpretation strikes: watched_monitor "dag_step h cfg" "holds_session sid" "struck_out h cfg sid s" "call_of sid" op_refused_fully
  for h cfg sid s
  by unfold_locales (simp_all add: struck_out_step struck_out_refuses)

section \<open>Node identities\<close>

lemma to_le_bytes_inj: "to_le_bytes v = to_le_bytes w \<longleftrightarrow> v = w"
proof
  assume eq: "to_le_bytes v = to_le_bytes w"
  have "bit v n = bit w n" if n: "n < 64" for n
  proof -
    have "to_le_bytes x ! (n div 8) = ucast (drop_bit (8 * (n div 8)) x)" for x
      using n nth_upt [of 0 "n div 8" 8] by (simp add: to_le_bytes_def del: upt_Suc)
    then have "bit (to_le_bytes x ! (n div 8)) (n mod 8) = bit x n" for x
      by (simp add: bit_unsigned_iff bit_drop_bit_eq)
    with eq show ?thesis by metis
  qed
  then show "v = w" by (intro bit_word_eqI) simp
qed simp

lemma node_preimage_inj:
  assumes "node_preimage sid i t a = node_preimage sid j t' a'" "i < 2 ^ 64" "j < 2 ^ 64"
  shows "i = j"
proof -
  have "length (to_le_bytes w) = 8" for w by (simp add: to_le_bytes_def)
  then have "(of_nat i :: u64) = of_nat j"
    using assms(1) by (simp add: node_preimage_def to_le_bytes_inj)
  then have "unat (of_nat i :: u64) = unat (of_nat j :: u64)" by simp
  then show ?thesis using assms(2,3) by (simp add: unat_of_nat)
qed

lemma acyclic_path: "distinct xs \<Longrightarrow> acyclic (set (zip xs (tl xs)))"
proof (induction xs)
  case (Cons x xs)
  show ?case
  proof (cases xs)
    case (Cons y ys)
    have "b \<in> set ys" if "(a, b) \<in> set (zip xs (tl xs))" for a b
      using set_zip_rightD [OF that] Cons by simp
    then have "(y, x) \<notin> (set (zip xs (tl xs)))\<^sup>*"
      using Cons.prems \<open>xs = y # ys\<close> by (metis distinct.simps(2) list.set_intros(1,2) rtranclE)
    then show ?thesis using Cons.IH Cons.prems \<open>xs = y # ys\<close> by (simp add: acyclic_insert)
  qed (simp add: acyclic_def)
qed (simp add: acyclic_def)

definition flow :: "session_dag \<Rightarrow> (string \<times> string) set" where
  "flow s = set (map (\<lambda>e. (ed_from e, ed_to e)) (sd_edges s))"

lemma flow_path: "sd_edges s = path_edges (sd_nodes s) \<Longrightarrow> flow s = set (zip (map tc_id (sd_nodes s)) (tl (map tc_id (sd_nodes s))))"
proof -
  have "map (\<lambda>e. (ed_from e, ed_to e)) (path_edges ns) = zip (map tc_id ns) (tl (map tc_id ns))" for ns
    by (induction ns rule: path_edges.induct) auto
  then show "sd_edges s = path_edges (sd_nodes s) \<Longrightarrow> ?thesis" by (simp add: flow_def)
qed

definition node_input :: "session_dag \<Rightarrow> nat \<Rightarrow> bytes" where
  "node_input s i = node_preimage (sd_session_id s) i (tc_tool_name (sd_nodes s ! i)) (tc_action_type (sd_nodes s ! i))"

lemma distinct_node_ids:
  assumes "dag_ok h cfg s" "length (sd_nodes s) \<le> 2 ^ 64"
    and "\<forall>i < length (sd_nodes s). \<forall>j < length (sd_nodes s). \<not> collides h (node_input s i) (node_input s j)"
  shows "distinct (map tc_id (sd_nodes s))"
proof -
  have "i = j" if "i < length (sd_nodes s)" "j < length (sd_nodes s)" "tc_id (sd_nodes s ! i) = tc_id (sd_nodes s ! j)" for i j
  proof -
    have "h (node_input s i) = h (node_input s j)"
      using that assms(1) by (simp add: dag_ok_def id_at_def derive_node_id_def node_input_def)
    then have "node_input s i = node_input s j" using assms(3) that by (auto simp: collides_def)
    then show ?thesis unfolding node_input_def by (rule node_preimage_inj) (use that assms(2) in simp_all)
  qed
  then show ?thesis by (auto simp: distinct_conv_nth)
qed

section \<open>Properties\<close>

text \<open>
  C38. The recorded data flow of every session is acyclic, and the labels of its calls only grow: in
  every state the store can reach, unless two of its calls exhibit a collision of the hash that
  names them.
\<close>

theorem session_graph_acyclic:
  assumes "dag_reachable h cfg store" "get_session store sid = Some s" "length (sd_nodes s) \<le> 2 ^ 64"
    and "\<forall>i < length (sd_nodes s). \<forall>j < length (sd_nodes s). \<not> collides h (node_input s i) (node_input s j)"
  shows "acyclic (flow s) \<and> sorted_wrt (\<lambda>m n. tc_taint_labels m \<subseteq> tc_taint_labels n) (sd_nodes s)"
proof -
  have ok: "dag_ok h cfg s" using reachable_session_ok [OF assms(1,2)] by simp
  then have "acyclic (flow s)"
    using acyclic_path [OF distinct_node_ids [OF ok assms(3,4)]] by (simp add: flow_path dag_ok_def)
  with ok show ?thesis by (simp add: dag_ok_def)
qed

text \<open>
  C26. Once the history of a session contains a critical attack chain, every later call in the
  session is refused for as long as the session stays in the store: whichever agent makes the call,
  whatever the clock says, and whatever calls of other sessions and prunings come in between. (A
  sweep of the idle sessions can drop it: \<open>lost_only_when_idle\<close>, \<open>swept_session_reopens\<close>.)
\<close>

theorem critical_chain_closes_session:
  assumes "dag_reachable h cfg store" "get_session store sid = Some s" "critical_chain s"
    and "i < length ops" "ops ! i = SessionCall sid c" "stays_held h cfg sid ops store i"
  shows "\<exists>r. fst (run_steps (dag_step h cfg) ops store) ! i = Some r \<and> \<not> sr_transition_allowed r"
proof -
  have "condemned h cfg sid store" using assms(1-3) reachable_keyed by (auto simp: condemned_def)
  from chain.run_refuses [OF this assms(4)] assms(5,6) show ?thesis
    by (cases "fst (run_steps (dag_step h cfg) ops store) ! i") (simp_all add: stays_held_def refuses_def)
qed

text \<open>
  C20. Strikes are counted up to the limit and never beyond it, so the counter cannot overflow. A
  session at the limit is closed for as long as it stays in the store, whatever calls of other
  sessions and prunings come in between: every later call in it is refused with the full anomaly
  score, and nothing recorded of it changes (calls, edges, state, strikes) but the time of its last
  activity. (A sweep of the idle sessions can drop it: \<open>lost_only_when_idle\<close>,
  \<open>swept_session_reopens\<close>.)
\<close>

theorem strikes_are_final:
  assumes "dag_reachable h cfg store" "get_session store sid = Some s"
  shows "sd_block_count s \<le> strike_limit cfg \<and>
    (sd_block_count s = strike_limit cfg \<longrightarrow>
       (\<forall>i < length ops. \<forall>c. ops ! i = SessionCall sid c \<longrightarrow> stays_held h cfg sid ops store i \<longrightarrow>
          (\<exists>r. fst (run_steps (dag_step h cfg) ops store) ! i = Some r \<and> \<not> sr_transition_allowed r \<and> sr_anomaly_score r = 100))
       \<and> (stays_held h cfg sid ops store (length ops) \<longrightarrow>
          (\<exists>t. get_session (snd (run_steps (dag_step h cfg) ops store)) sid = Some (s\<lparr>sd_last_activity := t\<rparr>))))"
proof (intro conjI impI allI)
  have ok: "dag_ok h cfg s" using reachable_session_ok [OF assms] by simp
  then show "sd_block_count s \<le> strike_limit cfg" by (simp add: dag_ok_def)
  assume "sd_block_count s = strike_limit cfg"
  moreover have "s = s\<lparr>sd_last_activity := sd_last_activity s\<rparr>" by simp
  ultimately have out: "struck_out h cfg sid s store"
    using ok reachable_keyed [OF assms(1)] assms(2) unfolding struck_out_def dag_ok_def strike_limit_def
    by (metis less_irrefl max.cobounded2)
  show "\<exists>r. fst (run_steps (dag_step h cfg) ops store) ! i = Some r \<and> \<not> sr_transition_allowed r \<and> sr_anomaly_score r = 100"
    if "i < length ops" "ops ! i = SessionCall sid c" "stays_held h cfg sid ops store i" for i c
    using strikes.run_refuses [OF out that(1)] that(2,3)
    by (cases "fst (run_steps (dag_step h cfg) ops store) ! i") (simp_all add: stays_held_def refuses_def)
  show "\<exists>t. get_session (snd (run_steps (dag_step h cfg) ops store)) sid = Some (s\<lparr>sd_last_activity := t\<rparr>)"
    if "stays_held h cfg sid ops store (length ops)"
    using strikes.run_stays_closed [OF out] that by (simp add: stays_held_def struck_out_def)
qed

section \<open>Witnesses\<close>

definition demo_hash :: "bytes \<Rightarrow> string" where
  "demo_hash bs = map (\<lambda>b. char_of (unat b)) bs"

definition demo_clock :: clock_readings where
  "demo_clock = \<lparr>at_evict = 1, at_created = 1, at_opened = 1, at_activity = 1, at_cooldown = 1, at_node = 1, at_refusal = 1,
     at_attack = 1, at_anomaly = 1\<rparr>"

definition demo_config :: session_config where
  "demo_config = default_session_config\<lparr>MAX_BLOCK_COUNT := 1\<rparr>"

definition demo_call :: "string \<Rightarrow> dag_store \<Rightarrow> dag_store" where
  "demo_call action store =
     snd (add_tool_call_to_session demo_hash demo_config demo_clock ''s'' ''a'' ''t'' action {''local_fs''} store)"

lemmas demo_defs = demo_call_def add_tool_call_to_session_def make_room_def enter_session_def new_session_def
  default_session_config_def demo_config_def demo_clock_def decay_block_def evaluate_call_def push_call_def apply_transition_def
  check_transition_def default_transitions_def apply_attacks_def match_attack_signatures_def attack_signatures_def
  match_signature_def match_from_def taints_suffice_def is_critical_def get_session_def

lemma demo_reachable: "dag_reachable demo_hash demo_config (demo_call b (demo_call a []))"
  unfolding demo_call_def by (intro dag_reachable.intros)

lemma demo_read:
  "\<exists>s n. demo_call ''file_read'' [] = [(''s'', s)] \<and> sd_nodes s = [n] \<and> tc_action_type n = ''file_read''
     \<and> sd_state s = FReading \<and> \<not> sd_blocked s \<and> sd_block_count s = 0"
  by (simp add: demo_defs List.map_filter_def Let_def case_prod_beta)

lemma demo_attack:
  "\<exists>s. get_session (demo_call ''http'' (demo_call ''file_read'' [])) ''s'' = Some s \<and> critical_chain s
     \<and> sd_block_count s = strike_limit demo_config \<and> length (sd_nodes s) = 2 \<and> sd_last_activity s = 1"
proof -
  obtain s n where 1: "demo_call ''file_read'' [] = [(''s'', s)]" "sd_nodes s = [n]" "tc_action_type n = ''file_read''"
      "sd_state s = FReading" "\<not> sd_blocked s" "sd_block_count s = 0" using demo_read by blast
  define s0 where "s0 = s\<lparr>sd_last_activity := at_activity demo_clock\<rparr>"
  obtain r s2 where e: "evaluate_call demo_hash demo_clock ''s'' ''a'' ''t'' ''http'' {''local_fs''} s0 = (r, s2)" by fastforce
  have "demo_call ''http'' [(''s'', s)] = AList.update ''s'' s2 [(''s'', s)]"
    unfolding demo_call_def using add_to_known_session [OF _ s0_def, of "[(''s'', s)]" "''s''"] 1(5) e
    by (simp add: get_session_def decay_block_def s0_def)
  moreover obtain m where "sd_nodes s2 = [n, m]" "tc_action_type m = ''http''" "''local_fs'' \<in> tc_taint_labels m"
    using evaluate_call_effect [OF e] 1(2) by (auto simp: s0_def)
  moreover have "sd_block_count s2 = 1"
    using reading_refuses_send [OF _ _ _ _ e] 1(4-6) by (simp add: s0_def is_egress_action_def)
  moreover have "sd_last_activity s2 = 1"
    using evaluate_call_activity [OF e] by (simp add: s0_def demo_clock_def)
  ultimately show ?thesis
    using 1 exfiltration_chain [of s2 "[]" n "[]" m "[]"]
    by (simp add: get_session_def strike_limit_def demo_config_def default_session_config_def)
qed

lemma demo_hash_inj: "\<not> collides demo_hash x y"
proof -
  have "inj (\<lambda>b :: 8 word. (char_of (unat b) :: char))"
  proof (rule injI)
    fix b c :: "8 word"
    assume "(char_of (unat b) :: char) = char_of (unat c)"
    then have "unat b mod 256 = unat c mod 256" by (metis of_char_of)
    moreover have "unat b < 256" "unat c < 256" using unsigned_less [of b] unsigned_less [of c] by simp_all
    ultimately show "b = c" by (simp add: word_unat_eq_iff)
  qed
  then show ?thesis by (simp add: collides_def demo_hash_def inj_map_eq_map)
qed

abbreviation demo_store :: dag_store where
  "demo_store \<equiv> demo_call ''http'' (demo_call ''file_read'' [])"

definition demo_later :: dag_call where
  "demo_later = \<lparr>dc_clock = demo_clock\<lparr>at_cooldown := 99999999\<rparr>, dc_agent = ''b'', dc_tool = ''t'', dc_action = ''custom'', dc_labels = {}\<rparr>"

text \<open>A call of another session, a pruning that finds nobody idle for long enough, and a call of the closed one.\<close>

definition demo_ops :: "dag_op list" where
  "demo_ops = [SessionCall ''t'' demo_later, SessionPrune 50 100, SessionCall ''s'' demo_later]"

lemma demo_store_single: "length demo_store = 1"
proof -
  obtain s where "demo_call ''file_read'' [] = [(''s'', s)]" using demo_read by blast
  then obtain s2 where "demo_store = AList.update ''s'' s2 [(''s'', s)]"
    using call_updates_room [of demo_hash demo_config "''s''"
        "\<lparr>dc_clock = demo_clock, dc_agent = ''a'', dc_tool = ''t'', dc_action = ''http'', dc_labels = {''local_fs''}\<rparr>" "[(''s'', s)]"]
    by (auto simp: demo_call_def call_in_def make_room_def)
  then show ?thesis by simp
qed

lemma demo_held: "stays_held demo_hash demo_config ''s'' demo_ops demo_store i"
proof -
  let ?step = "dag_step demo_hash demo_config"
  let ?st1 = "snd (?step (SessionCall ''t'' demo_later) demo_store)" and ?st2 = "\<lambda>st. snd (?step (SessionPrune 50 100) st)"
  obtain s where s: "get_session demo_store ''s'' = Some s" "sd_last_activity s = 1" using demo_attack by blast
  have "sweep_of demo_config (SessionCall ''t'' demo_later) demo_store = None"
    using demo_store_single by (simp add: demo_config_def default_session_config_def)
  then have 1: "get_session ?st1 ''s'' = Some s"
    using other_session_after [OF reachable_distinct [OF demo_reachable] _ s(1), of "SessionCall ''t'' demo_later" demo_hash demo_config]
    by simp
  moreover have "distinct (map fst ?st1)"
    using dag_step_ok [OF reachable_keyed [OF demo_reachable]] unfolding keyed_ok_def by blast
  ultimately have 2: "get_session (?st2 ?st1) ''s'' = Some s"
    using other_session_after [of ?st1 "''s''" "SessionPrune 50 100" s demo_hash demo_config] s(2) by (simp add: saturating_u64_sub_def)
  have "holds_session ''s'' (snd (?step (SessionCall ''s'' demo_later) (?st2 ?st1)))"
    using call_holds_session by (simp add: case_prod_beta)
  moreover have "j = 0 \<or> j = 1 \<or> j = 2 \<or> 3 \<le> j" for j :: nat by linarith
  ultimately show ?thesis
    using s(1) 1 2 unfolding stays_held_def holds_until_def demo_ops_def
    by (auto simp: holds_session_def take_Cons' case_prod_beta)
qed

theorem session_graph_acyclic_witness:
  "\<exists>s. get_session demo_store ''s'' = Some s \<and> length (sd_nodes s) = 2 \<and> acyclic (flow s)"
proof -
  from demo_attack obtain s where s: "get_session demo_store ''s'' = Some s" "length (sd_nodes s) = 2" by blast
  with session_graph_acyclic [OF demo_reachable s(1)] show ?thesis by (simp add: demo_hash_inj)
qed

theorem critical_chain_closes_session_witness:
  "\<exists>r. fst (run_steps (dag_step demo_hash demo_config) demo_ops demo_store) ! 2 = Some r \<and> \<not> sr_transition_allowed r"
proof -
  from demo_attack obtain s where s: "get_session demo_store ''s'' = Some s" "critical_chain s" by blast
  from critical_chain_closes_session [OF demo_reachable this, of 2 demo_ops demo_later] demo_held show ?thesis
    by (simp add: demo_ops_def)
qed

theorem strikes_are_final_witness:
  "(\<exists>r. fst (run_steps (dag_step demo_hash demo_config) demo_ops demo_store) ! 2 = Some r \<and> sr_anomaly_score r = 100)
     \<and> map_option sd_nodes (get_session (snd (run_steps (dag_step demo_hash demo_config) demo_ops demo_store)) ''s'')
       = map_option sd_nodes (get_session demo_store ''s'')"
proof -
  from demo_attack obtain s where s: "get_session demo_store ''s'' = Some s" "sd_block_count s = strike_limit demo_config" by blast
  note final = conjunct2 [OF strikes_are_final [OF demo_reachable s(1), of demo_ops], rule_format, OF s(2)]
  have "2 < length demo_ops" "demo_ops ! 2 = SessionCall ''s'' demo_later" by (simp_all add: demo_ops_def)
  with final demo_held s(1) show ?thesis by fastforce
qed

end
