(* ===== verification/Pipeline_Properties.thy ===== *)
theory Pipeline_Properties
  imports Pipeline Risk_Properties Overlay_Properties Session_Properties Receipt_Properties Dictum_Properties
begin

text \<open>
  What the composed pipeline guarantees: the decision is the strictest demand of any layer, a taint
  label once acquired in a session is enforced on every later call, the scope of an evaluation comes
  from the agent profile, and an answered call has left its records.
\<close>

section \<open>Each layer only tightens\<close>

lemma max_review: "d \<noteq> GBlock \<Longrightarrow> max d GReview = GReview"
  by (cases d) (simp_all add: max_def)

locale layer_step =
  fixes step :: "combination \<Rightarrow> combination"
    and demand :: governance_decision
  assumes decides: "cb_minimum (step cb) = max (cb_minimum cb) demand"
    and extends: "prefix (cb_findings cb) (cb_findings (step cb))"
begin

lemma never_softer: "cb_minimum cb \<le> cb_minimum (step cb)"
  by (simp add: decides)

lemma keeps_findings: "set (cb_findings cb) \<subseteq> set (cb_findings (step cb))"
  using extends set_mono_prefix by blast

end

lemma layer_step_comp: "layer_step f a \<Longrightarrow> layer_step g b \<Longrightarrow> layer_step (\<lambda>cb. g (f cb)) (max a b)"
proof
  fix cb
  assume f: "layer_step f a" and g: "layer_step g b"
  show "cb_minimum (g (f cb)) = max (cb_minimum cb) (max a b)"
    using layer_step.decides [OF f, of cb] layer_step.decides [OF g, of "f cb"] by (simp add: max.assoc)
  show "prefix (cb_findings cb) (cb_findings (g (f cb)))"
    using layer_step.extends [OF f, of cb] layer_step.extends [OF g, of "f cb"] by (rule prefix_order.trans)
qed

lemma layer_step_fold:
  "(\<And>x. x \<in> set xs \<Longrightarrow> layer_step (f x) (d x)) \<Longrightarrow> layer_step (fold f xs) (foldr max (map d xs) GAllow)"
proof (induction xs)
  case Nil
  show ?case by standard simp_all
next
  case (Cons x xs)
  have "layer_step (\<lambda>cb. fold f xs (f x cb)) (max (d x) (foldr max (map d xs) GAllow))"
    using Cons by (intro layer_step_comp) auto
  then show ?case by (simp add: comp_def)
qed

lemma raise_to_max: "raise_to wanted current = max current wanted"
  by (cases wanted; cases current) (simp_all add: raise_to_def max_def)

definition veto :: "bool \<Rightarrow> governance_decision" where
  "veto c = (if c then GBlock else GAllow)"

definition plugin_demand :: "u32 \<Rightarrow> u32 \<Rightarrow> layer_answers \<Rightarrow> governance_decision" where
  "plugin_demand tb tr ls =
     (if la_plugin_outputs ls \<noteq> []
      then max (foldr max (map hint_demand (la_plugin_outputs ls)) GAllow) (score_decision tb tr (plugin_risk ls))
      else if la_plugin_errors ls \<noteq> [] then GReview else GAllow)"

definition session_demand :: "session_analysis_result \<Rightarrow> governance_decision" where
  "session_demand r =
     (if \<not> sr_transition_allowed r then GBlock
      else if sr_attacks_detected r \<noteq> [] \<or> 50 \<le> sr_anomaly_score r then GReview else GAllow)"

definition adaptive_demand :: "layer_answers \<Rightarrow> governance_decision" where
  "adaptive_demand ls =
     (if la_adaptive_decision ls = ''block'' then GBlock else if la_adaptive_decision ls = ''human_review'' then GReview else GAllow)"

interpretation firewall: layer_step "firewall_layer ls" "veto (la_firewall_blocked ls)" for ls
  by standard (simp_all add: firewall_layer_def veto_def)

interpretation threat: layer_step "threat_layer ls" "threat_demand ls" for ls
  by standard (simp_all add: threat_layer_def raise_to_max threat_demand_def)

interpretation taint: layer_step "taint_layer t" "veto (ta_blocked t)" for t
  by standard (simp_all add: taint_layer_def Let_def veto_def)

interpretation hint: layer_step "hint_layer p" "hint_demand p" for p
  by standard (simp_all add: hint_layer_def raise_to_max)

interpretation session: layer_step "session_layer a r" "session_demand r" for a r
  by standard (simp_all add: session_layer_def Let_def session_demand_def raise_to_max)

interpretation adaptive: layer_step "adaptive_layer ls" "adaptive_demand ls" for ls
  by standard (auto simp: adaptive_layer_def Let_def adaptive_demand_def max_review)

interpretation policy: layer_step policy_layer GAllow
  by standard (simp_all add: policy_layer_def Let_def)

interpretation secrets: layer_step "secrets_layer d" "veto d" for d
  by standard (simp_all add: secrets_layer_def veto_def)

interpretation schema: layer_step "schema_layer ls" "veto (\<not> la_schema_valid ls)" for ls
  by standard (simp_all add: schema_layer_def veto_def)

lemma plugin_step: "layer_step (plugin_layer tb tr ls) (plugin_demand tb tr ls)"
proof -
  have hints: "layer_step (fold hint_layer ps) (foldr max (map hint_demand ps) GAllow)" for ps
    by (rule layer_step_fold) (rule hint.layer_step_axioms)
  show ?thesis
  proof
    fix cb
    define cb1 where "cb1 = fold hint_layer (la_plugin_outputs ls) (cb\<lparr>cb_risks := (cb_risks cb)\<lparr>lr_plugins := plugin_risk ls\<rparr>\<rparr>)"
    note d = layer_step.decides [OF hints, of "la_plugin_outputs ls" "cb\<lparr>cb_risks := (cb_risks cb)\<lparr>lr_plugins := plugin_risk ls\<rparr>\<rparr>",
        folded cb1_def, simplified]
    note x = layer_step.extends [OF hints, of "cb\<lparr>cb_risks := (cb_risks cb)\<lparr>lr_plugins := plugin_risk ls\<rparr>\<rparr>" "la_plugin_outputs ls",
        folded cb1_def, simplified]
    show "cb_minimum (plugin_layer tb tr ls cb) = max (cb_minimum cb) (plugin_demand tb tr ls)"
      unfolding plugin_layer_def plugin_demand_def Let_def cb1_def [symmetric] score_decision_def
      by (simp add: raise_to_max d [symmetric] max_review max.assoc [symmetric])
    show "prefix (cb_findings cb) (cb_findings (plugin_layer tb tr ls cb))"
      unfolding plugin_layer_def Let_def cb1_def [symmetric] using x by (simp add: prefix_prefix)
  qed
qed

interpretation plugins: layer_step "plugin_layer tb tr ls" "plugin_demand tb tr ls" for tb tr ls
  by (rule plugin_step)

definition layer_demands :: "workspace_policy \<Rightarrow> bool \<Rightarrow> layer_answers \<Rightarrow> taint_analysis_result \<Rightarrow> session_analysis_result \<Rightarrow> governance_decision list" where
  "layer_demands wp secret_denied ls t r =
     [veto (la_firewall_blocked ls), threat_demand ls, veto (ta_blocked t),
      plugin_demand (wp_threshold_block wp) (wp_threshold_review wp) ls, session_demand r, adaptive_demand ls,
      veto secret_denied, veto (\<not> la_schema_valid ls)]"

lemma combined_minimum:
  "cb_minimum (combine_layers dbg agent wp pol matched denied protocol ls t r) =
     foldr max (apply_rule_match matched (pe_minimum_decision pol) # layer_demands wp denied ls t r) GAllow"
  unfolding combine_layers_def Let_def layer_demands_def
  by (simp only: schema.decides secrets.decides policy.decides adaptive.decides session.decides plugins.decides
      taint.decides threat.decides firewall.decides combination.select_convs foldr_Cons foldr_Nil o_apply id_apply
      max.assoc max_decision)

section \<open>The answers of a call\<close>

lemma answers_of_fields [simp]:
  "la_firewall_blocked (answers_of env cx input profile session taint) =
     fr_blocked (fst (scan_prompt (pv_firewall env) (di_stage_clock (cx_detectors cx)) (di_now_ms (cx_detectors cx)) (payload_text env input)
       (di_firewall_stats (cx_detectors cx))))"
  "la_plugin_outputs (answers_of env cx input profile session taint) = la_plugin_outputs (cx_answers cx)"
  "la_threats (answers_of env cx input profile session taint) =
     check_threats (regex_of env) (di_feed (cx_detectors cx)) (payload_text env input)"
  "la_schema_valid (answers_of env cx input profile session taint) =
     sv_valid (validate_protocol_payload (pv_is_uuid env) input (protocol_of env input))"
  by (simp_all add: answers_of_def outside_answers.defs layer_answers.defs Let_def)

lemma answers_of_score:
  "la_adaptive_score (answers_of env cx input profile session taint) = ar_total_score (adaptive_result env cx input profile session taint)"
  "la_adaptive_decision (answers_of env cx input profile session taint) = ar_decision (adaptive_result env cx input profile session taint)"
  by (simp_all add: answers_of_def outside_answers.defs layer_answers.defs Let_def)

section \<open>The final decision\<close>

definition budget_demand :: "'s pipeline_env \<Rightarrow> inspect_request \<Rightarrow> spend_store \<Rightarrow> governance_decision" where
  "budget_demand env input ledger =
     veto (pv_cost_control env \<and>
       (case pv_budget env of Some limit \<Rightarrow> f64_gt (session_spend_usd ledger (spend_key_of input)) limit | None \<Rightarrow> False))"

definition overlay_context :: "'s pipeline_env \<Rightarrow> 's call_context \<Rightarrow> inspect_request \<Rightarrow> workspace_policy \<Rightarrow> risk_score \<Rightarrow> spend_store \<Rightarrow> json" where
  "overlay_context env cx input wp risk ledger =
     (let (cost, limit) = (if pv_cost_control env then (Some (session_spend_usd ledger (spend_key_of input)), pv_budget env) else (None, None))
      in build_overlay_context input (rs_score risk) (rs_decision risk) (Some (wp_workspace_id wp)) (wp_allowed_domains wp)
           (map_option ro_scores (la_reasoning (cx_answers cx))) cost limit)"

lemma budget_stage_decision: "fst (budget_stage env input d ledger) = max d (budget_demand env input ledger)"
  by (auto simp: budget_stage_def budget_demand_def check_and_add_def session_spend_usd_def Let_def veto_def
      split: prod.splits option.splits if_splits)

lemma final_stage_decision:
  "fst (final_stage env cx input wp risk ledger) =
     max (max (rs_decision risk) (overlay_demand (pv_dictum env) (overlay_context env cx input wp risk ledger) (pv_overlay env)))
       (budget_demand env input ledger)"
proof -
  let ?ctx = "overlay_context env cx input wp risk ledger"
  have "fst (final_stage env cx input wp risk ledger) =
      fst (budget_stage env input (fst (apply_overlay (pv_dictum env) (pv_show_f64 env) (pv_overlay env) ?ctx (rs_decision risk))) ledger)"
    by (simp add: final_stage_def overlay_context_def Let_def case_prod_beta split: if_splits)
  then show ?thesis by (simp add: budget_stage_decision apply_overlay_merges)
qed

lemma judge_decision:
  assumes "wp_threshold_review wp < wp_threshold_block wp" "wp_threshold_block wp \<le> 100"
    and "judge env cx input profile wp rules r t = (cb, plan, risk)"
  shows "rs_decision risk = max (cb_minimum cb) (score_decision (wp_threshold_block wp) (wp_threshold_review wp)
    (raw_score (composite (pattern_score (local_hits (pv_is_match env) input (cb_findings cb) (payload_text env input))) (cb_risks cb))))"
proof -
  have "risk = score_tool_risk_with_thresholds (pv_is_match env) input (cb_minimum cb) (cb_findings cb) (cb_risks cb)
      (payload_text env input) (wp_threshold_block wp) (wp_threshold_review wp)"
    using assms(3) by (auto simp: judge_def Let_def)
  from risk_decision_matches_score [OF assms(1,2) this refl] show ?thesis by simp
qed

lemma risk_at_least_minimum:
  "minimum \<le> rs_decision (score_tool_risk_with_thresholds m input minimum fs ls p tb tr)"
  by (auto simp: score_tool_risk_with_thresholds_def Let_def case_prod_beta)

lemma foldr_max_ge: "d \<in> set ds \<Longrightarrow> d \<le> foldr max ds GAllow"
  by (induction ds) (auto simp: le_max_iff_disj)

lemma judge_minimum:
  assumes "judge env cx input profile wp rules r t = (cb, plan, risk)"
  shows "veto (ta_blocked t) \<le> rs_decision risk" "session_demand r \<le> rs_decision risk"
    "threat_demand (answers_of env cx input profile r t) \<le> rs_decision risk"
    "veto (la_firewall_blocked (answers_of env cx input profile r t)) \<le> rs_decision risk"
proof -
  define ls where "ls = answers_of env cx input profile r t"
  from assms obtain pol matched denied protocol where
    "cb = combine_layers (pv_debug_list env) (ir_agent_id input) wp pol matched denied protocol ls t r"
    by (auto simp: judge_def Let_def ls_def)
  then have min: "cb_minimum cb = foldr max (apply_rule_match matched (pe_minimum_decision pol) # layer_demands wp denied ls t r) GAllow"
    by (simp only: combined_minimum)
  have "d \<le> rs_decision risk" if "d \<in> set (layer_demands wp denied ls t r)" for d
  proof -
    have "d \<le> cb_minimum cb" unfolding min by (rule foldr_max_ge) (use that in simp)
    also have "\<dots> \<le> rs_decision risk" using assms risk_at_least_minimum by (auto simp: judge_def Let_def)
    finally show ?thesis .
  qed
  then show "veto (ta_blocked t) \<le> rs_decision risk" "session_demand r \<le> rs_decision risk"
    "threat_demand (answers_of env cx input profile r t) \<le> rs_decision risk"
    "veto (la_firewall_blocked (answers_of env cx input profile r t)) \<le> rs_decision risk"
    unfolding ls_def by (simp_all only: layer_demands_def list.set insert_iff simp_thms)
qed

section \<open>What a call does to the stores\<close>

definition reaches_layers ::
  "'s pipeline_env \<Rightarrow> 's call_context \<Rightarrow> inspect_request \<Rightarrow> 's pipeline_state \<Rightarrow> agent_profile \<Rightarrow> workspace_policy \<Rightarrow> bool" where
  "reaches_layers env cx input st profile wp \<longleftrightarrow>
     pv_profile env (ir_agent_id input) = Inr profile \<and> claimed_workspace_ok input profile \<and>
     pv_policy env (ap_workspace_id profile) = Inr wp \<and>
     rr_allowed (fst (check_rate (ir_agent_id input) (Some (ad_tool_name (ir_action input))) (cx_instant cx) (cx_wall cx) (ps_limiter st)))"

definition after_rate :: "'s call_context \<Rightarrow> inspect_request \<Rightarrow> 's pipeline_state \<Rightarrow> 's pipeline_state" where
  "after_rate cx input st =
     st\<lparr>ps_limiter := snd (check_rate (ir_agent_id input) (Some (ad_tool_name (ir_action input))) (cx_instant cx) (cx_wall cx) (ps_limiter st))\<rparr>"

lemma execute_reaches:
  "reaches_layers env cx input st profile wp \<Longrightarrow>
     execute_pipeline_at env cx input st = govern env cx input profile wp (after_rate cx input st)"
  by (simp add: reaches_layers_def execute_pipeline_at_def after_rate_def case_prod_beta Let_def)

text \<open>Every call ends in one of three ways.\<close>

lemma execute_cases:
  obtains (error) err where "execute_pipeline_at env cx input st = (Inl err, st)"
  | (limited) profile wp rate where "pv_profile env (ir_agent_id input) = Inr profile" "claimed_workspace_ok input profile"
      "execute_pipeline_at env cx input st = rate_limited env cx input profile wp rate (after_rate cx input st)"
  | (governed) profile wp where "reaches_layers env cx input st profile wp"
      "execute_pipeline_at env cx input st = govern env cx input profile wp (after_rate cx input st)"
proof (cases "pv_profile env (ir_agent_id input)")
  case (Inr profile)
  show thesis
  proof (cases "claimed_workspace_ok input profile")
    case claim: True
    show thesis
    proof (cases "pv_policy env (ap_workspace_id profile)")
      case (Inr wp)
      let ?r = "fst (check_rate (ir_agent_id input) (Some (ad_tool_name (ir_action input))) (cx_instant cx) (cx_wall cx) (ps_limiter st))"
      show thesis
      proof (cases "rr_allowed ?r")
        case True
        then have "reaches_layers env cx input st profile wp"
          using Inr claim \<open>pv_profile env (ir_agent_id input) = Inr profile\<close> by (simp add: reaches_layers_def)
        then show thesis using governed execute_reaches by blast
      next
        case False
        then have "execute_pipeline_at env cx input st = rate_limited env cx input profile wp ?r (after_rate cx input st)"
          using Inr claim \<open>pv_profile env (ir_agent_id input) = Inr profile\<close>
          by (simp add: execute_pipeline_at_def after_rate_def case_prod_beta Let_def)
        then show thesis using limited claim \<open>pv_profile env (ir_agent_id input) = Inr profile\<close> by blast
      qed
    qed (use error Inr claim in \<open>simp add: execute_pipeline_at_def\<close>)
  qed (use error Inr in \<open>simp add: execute_pipeline_at_def\<close>)
qed (use error in \<open>simp add: execute_pipeline_at_def\<close>)

lemma record_stage_keeps [simp]:
  "ps_session_taints (snd (record_stage env cx e ev used rc st)) = ps_session_taints st"
  "ps_audit (snd (record_stage env cx e ev used rc st)) = ps_audit st"
  "ps_reviews (snd (record_stage env cx e ev used rc st)) = ps_reviews st"
  by (auto simp: record_stage_def split: option.splits prod.splits)

lemma settle_taints [simp]: "ps_session_taints (snd (settle env cx input profile wp g trace st)) = ps_session_taints st"
  using record_stage_keeps(1)
  by (auto simp: settle_def Let_def case_prod_beta split: option.splits sum.splits if_splits)

lemma rate_limited_taints [simp]: "ps_session_taints (snd (rate_limited env cx input profile wp rate st)) = ps_session_taints st"
  using record_stage_keeps(1)
  by (auto simp: rate_limited_def Let_def case_prod_beta split: sum.splits if_splits)

lemma govern_taints:
  "ps_session_taints (snd (govern env cx input profile wp st)) =
     update_session_taint (cx_taint_session cx) (session_key input)
       (ta_accumulated_labels (analyze_taint (pv_taint env) (action_type_str (ad_action_type (ir_action input))) (ad_tool_name (ir_action input))
          (payload_text env input) (inherited_taints env cx input st))) (ps_session_taints st)"
  by (auto simp: govern_def session_stage_def Let_def case_prod_beta split: sum.splits)

lemma execute_keeps_labels:
  "get_session_taint (ps_session_taints st) sid \<subseteq> get_session_taint (ps_session_taints (snd (execute_pipeline_at env cx input st))) sid"
  by (rule execute_cases [of env cx input st]) (auto simp: govern_taints after_rate_def)

section \<open>Labels are enforced\<close>

definition carries_label :: "'s pipeline_env \<Rightarrow> inspect_request \<Rightarrow> string \<Rightarrow> bool" where
  "carries_label env input l \<longleftrightarrow>
     l \<in> set (classify_source (pv_taint env) (action_type_str (ad_action_type (ir_action input))) (ad_tool_name (ir_action input)) (payload_text env input))"

definition forbids_label :: "'s pipeline_env \<Rightarrow> inspect_request \<Rightarrow> string \<Rightarrow> bool" where
  "forbids_label env input l \<longleftrightarrow>
     (\<exists>pol \<in> set default_policies. classify_sink (pv_taint env) (action_type_str (ad_action_type (ir_action input))) (ad_tool_name (ir_action input)) = Some (tpol_sink pol)
        \<and> l \<in> set (tpol_forbidden pol) \<and> (tpol_severity pol = ''critical'' \<or> tpol_severity pol = ''high''))"

definition blocked_or_error :: "sentinel_error + governance_result \<Rightarrow> bool" where
  "blocked_or_error r \<longleftrightarrow> (case r of Inl _ \<Rightarrow> True | Inr g \<Rightarrow> gr_decision g = GBlock)"

lemma taint_blocked:
  assumes "pol \<in> set default_policies" "classify_sink lib a t = Some (tpol_sink pol)" "l \<in> set (tpol_forbidden pol)"
    and "tpol_severity pol = ''critical'' \<or> tpol_severity pol = ''high''" "l \<in> inherited"
  shows "ta_blocked (analyze_taint lib a t p inherited)"
proof -
  let ?acc = "inherited \<union> set (classify_source lib a t p)"
  have "filter (\<lambda>t. t \<in> ?acc) (tpol_forbidden pol) \<noteq> []" using assms(3,5) by (auto simp: filter_empty_conv)
  then obtain v where v: "policy_violation ?acc pol = Some v" "tv_blocked v"
    using assms(4) unfolding policy_violation_def Let_def by (simp only: if_False taint_violation.select_convs simp_thms option.inject)
  have "pol \<in> set (filter (\<lambda>p. tpol_sink p = tpol_sink pol) default_policies)" using assms(1) by simp
  then have "v \<in> set (taint_violations (Some (tpol_sink pol)) ?acc)"
    using v(1) by (force simp: taint_violations_def List.map_filter_def)
  then show ?thesis using v(2) assms(2) by (auto simp: analyze_taint_def Let_def list_ex_iff)
qed

text \<open>A settled call reports the decision it was given.\<close>

lemma settle_decision: "fst (settle env cx input profile wp g trace st) = Inr g' \<Longrightarrow> gr_decision g' = gr_decision g"
  by (auto simp: settle_def Let_def case_prod_beta split: option.splits sum.splits if_splits)

lemma govern_decision:
  assumes "fst (govern env cx input profile wp st) = Inr g"
    and "session_stage env cx input st = (r, t, st1)"
  shows "veto (ta_blocked t) \<le> gr_decision g" "session_demand r \<le> gr_decision g"
    "threat_demand (answers_of env cx input profile r t) \<le> gr_decision g"
    "veto (la_firewall_blocked (answers_of env cx input profile r t)) \<le> gr_decision g"
proof -
  obtain rules where rules: "pv_rules env (ap_workspace_id profile) = Inr rules"
    using assms by (cases "pv_rules env (ap_workspace_id profile)") (auto simp: govern_def)
  obtain cb plan risk where j: "judge env cx input profile wp rules r t = (cb, plan, risk)" by (metis prod_cases3)
  have "gr_decision g = fst (final_stage env cx input wp risk (ps_spend st1))"
    using assms rules j by (auto simp: govern_def Let_def case_prod_beta dest: settle_decision)
  then have "rs_decision risk \<le> gr_decision g" by (simp add: final_stage_decision le_max_iff_disj)
  note below = order_trans [OF _ this]
  show "veto (ta_blocked t) \<le> gr_decision g" "session_demand r \<le> gr_decision g"
    "threat_demand (answers_of env cx input profile r t) \<le> gr_decision g"
    "veto (la_firewall_blocked (answers_of env cx input profile r t)) \<le> gr_decision g"
    using judge_minimum [OF j] by (auto intro: below)
qed

lemma block_is_top: "GBlock \<le> d \<Longrightarrow> d = GBlock"
  by (cases d) simp_all

lemma threat_found:
  assumes "i \<in> set (tf_indicators (di_feed (cx_detectors cx)))" "ti_active i" "ti_severity i = ''critical''"
    and "indicator_matches (regex_of env) (tf_cache (di_feed (cx_detectors cx))) (payload_text env input) i"
  shows "threat_demand (answers_of env cx input profile r t) = GBlock"
  using assms by (auto simp: threat_demand_def list_ex_iff check_threats_def match_of_def)

lemma labelled_call_blocked:
  assumes "l \<in> get_session_taint (ps_session_taints st) (session_key input)" "forbids_label env input l"
  shows "blocked_or_error (fst (execute_pipeline_at env cx input st))"
proof (rule execute_cases [of env cx input st])
  fix profile wp
  let ?st = "after_rate cx input st"
  assume e: "execute_pipeline_at env cx input st = govern env cx input profile wp ?st"
  obtain r t st1 where s: "session_stage env cx input ?st = (r, t, st1)" by (metis prod_cases3)
  have "l \<in> inherited_taints env cx input ?st" using assms(1) by (simp add: inherited_taints_def after_rate_def)
  then have "ta_blocked t"
    using s assms(2) taint_blocked by (fastforce simp: session_stage_def Let_def case_prod_beta forbids_label_def)
  then show ?thesis
    using e govern_decision(1) [OF _ s] by (auto simp: blocked_or_error_def veto_def block_is_top split: sum.splits)
qed (auto simp: blocked_or_error_def rate_limited_def Let_def case_prod_beta split: sum.splits)

type_synonym 's pipeline_call = "'s call_context \<times> inspect_request"

definition pipeline_step :: "'s pipeline_env \<Rightarrow> 's pipeline_call \<Rightarrow> 's pipeline_state \<Rightarrow> (sentinel_error + governance_result) \<times> 's pipeline_state" where
  "pipeline_step env c st = execute_pipeline_at env (fst c) (snd c) st"

interpretation labels: closing_monitor "pipeline_step env"
    "\<lambda>st. l \<in> get_session_taint (ps_session_taints st) sid"
    "\<lambda>c. session_key (snd c) = sid \<and> forbids_label env (snd c) l" blocked_or_error
  for env l sid
proof
  fix st :: "'a pipeline_state" and c
  show "l \<in> get_session_taint (ps_session_taints st) sid \<Longrightarrow>
      l \<in> get_session_taint (ps_session_taints (snd (pipeline_step env c st))) sid"
    using execute_keeps_labels [of st sid env "fst c" "snd c"] by (auto simp: pipeline_step_def)
  show "l \<in> get_session_taint (ps_session_taints st) sid \<Longrightarrow> session_key (snd c) = sid \<and> forbids_label env (snd c) l \<Longrightarrow>
      blocked_or_error (fst (pipeline_step env c st))"
    using labelled_call_blocked [of l st "snd c" env "fst c"] by (auto simp: pipeline_step_def)
qed

lemma reaching_call_labels:
  assumes "reaches_layers env cx input st profile wp" "carries_label env input l"
  shows "l \<in> get_session_taint (ps_session_taints (snd (execute_pipeline_at env cx input st))) (session_key input)"
  using assms(2) unfolding execute_reaches [OF assms(1)] govern_taints
  by (simp add: analyze_accumulates carries_label_def)

text \<open>
  C39. Data flow is enforced across calls: when a call that got past the rate limit brings a label
  into its session (reading a file brings \<open>local_fs\<close>), then in every later sequence of calls of any
  sessions and agents, each call of that session whose action forbids the label (sending over the
  network forbids \<open>local_fs\<close>) is blocked or fails; it is never allowed and never left to review. The
  run consists of calls; the periodic pruning of idle taint sessions, which forgets labels, is no part
  of it.
\<close>

theorem labels_enforced_in_session:
  assumes "reaches_layers env cx input st profile wp" "carries_label env input l"
    and "execute_pipeline_at env cx input st = (first, st1)"
    and "j < length cs" "session_key (snd (cs ! j)) = session_key input" "forbids_label env (snd (cs ! j)) l"
  shows "blocked_or_error (fst (run_steps (pipeline_step env) cs st1) ! j)"
  by (rule labels.run_refuses) (use assms reaching_call_labels [OF assms(1,2)] in auto)

section \<open>Every layer is heard\<close>

text \<open>
  C22. A known attack does not pass. When an active indicator of critical severity matches the
  payload, or the firewall scores it at 75 or more, the call is blocked or fails, whatever agent,
  policy, rules, session history and plugins say; one signature of the firewall with such a score
  that matches the normalized payload is enough for that.
\<close>

theorem detected_attack_blocked:
  assumes "(\<exists>i \<in> set (tf_indicators (di_feed (cx_detectors cx))). ti_active i \<and> ti_severity i = ''critical''
        \<and> indicator_matches (regex_of env) (tf_cache (di_feed (cx_detectors cx))) (payload_text env input) i)
    \<or> (\<exists>s \<in> set signatures. 75 \<le> sg_score s \<and> fl_find (pv_firewall env) (sg_pattern s) (normalize_compat_ascii (payload_text env input)) \<noteq> [])
    \<or> 75 \<le> fr_risk_score (fst (scan_prompt (pv_firewall env) (di_stage_clock (cx_detectors cx)) (di_now_ms (cx_detectors cx)) (payload_text env input)
        (di_firewall_stats (cx_detectors cx))))"
  shows "case fst (execute_pipeline_at env cx input st) of Inl err \<Rightarrow> True | Inr g \<Rightarrow> gr_decision g = GBlock"
proof -
  have "blocked_or_error (fst (execute_pipeline_at env cx input st))"
  proof (rule execute_cases [of env cx input st])
    fix profile wp
    let ?st = "after_rate cx input st"
    assume e: "execute_pipeline_at env cx input st = govern env cx input profile wp ?st"
    obtain r t st1 where s: "session_stage env cx input ?st = (r, t, st1)" by (metis prod_cases3)
    have "GBlock \<le> gr_decision g" if g: "fst (govern env cx input profile wp ?st) = Inr g" for g
    proof (cases "threat_demand (answers_of env cx input profile r t) = GBlock")
      case True
      then show ?thesis using govern_decision(3) [OF g s] by simp
    next
      case False
      then have "fr_blocked (fst (scan_prompt (pv_firewall env) (di_stage_clock (cx_detectors cx)) (di_now_ms (cx_detectors cx))
          (payload_text env input) (di_firewall_stats (cx_detectors cx))))"
        using assms threat_found signature_blocks by (metis scan_blocked_iff)
      then show ?thesis using govern_decision(4) [OF g s] by (simp add: veto_def)
    qed
    then show ?thesis using e by (auto simp: blocked_or_error_def block_is_top split: sum.splits)
  qed (auto simp: blocked_or_error_def rate_limited_def Let_def case_prod_beta split: sum.splits)
  then show ?thesis by (simp add: blocked_or_error_def)
qed

text \<open>
  C40. No layer is overruled: whatever the thresholds of the workspace, the decision of a call is at
  least as strict as every demand that was made: by the workspace policy after the matching rule was
  applied (the only step that can soften, and only review to allow), by each security layer, by the
  band of the raw composite score, by the policy overlay, and by the session budget. When the review
  threshold is below the block threshold and the block threshold is at most 100, the decision is
  exactly the strictest of these demands. (Thresholds are not validated; with equal ones a demand for
  review can end in a block: \<open>equal_thresholds_overshoot\<close>.)
\<close>

theorem decision_is_strictest_layer:
  assumes "judge env cx input profile wp rules session taint = (cb, plan, risk)"
    and "matched = evaluate_rules (pv_calendar env) (tl_lower (pv_taint env)) (pv_map_string env) rules input (ap_role profile)
        (Some (ar_total_score (adaptive_result env cx input profile session taint))) (cx_decision_time cx)"
    and "raw = raw_score (composite (pattern_score (local_hits (pv_is_match env) input (cb_findings cb) (payload_text env input))) (cb_risks cb))"
    and "strictest = foldr max
      (apply_rule_match matched (pe_minimum_decision (evaluate_policy input profile wp (protocol_of env input)))
       # layer_demands wp (sp_denied (plan_secret_injection input profile) \<noteq> []) (answers_of env cx input profile session taint) taint session
       @ [score_decision (wp_threshold_block wp) (wp_threshold_review wp) raw,
          overlay_demand (pv_dictum env) (overlay_context env cx input wp risk ledger) (pv_overlay env),
          budget_demand env input ledger]) GAllow"
  shows "strictest \<le> fst (final_stage env cx input wp risk ledger) \<and>
    (wp_threshold_review wp < wp_threshold_block wp \<and> wp_threshold_block wp \<le> 100 \<longrightarrow>
       fst (final_stage env cx input wp risk ledger) = strictest)"
proof -
  let ?base = "apply_rule_match matched (pe_minimum_decision (evaluate_policy input profile wp (protocol_of env input)))
       # layer_demands wp (sp_denied (plan_secret_injection input profile) \<noteq> []) (answers_of env cx input profile session taint) taint session"
  let ?band = "score_decision (wp_threshold_block wp) (wp_threshold_review wp) raw"
  have "cb = combine_layers (pv_debug_list env) (ir_agent_id input) wp (evaluate_policy input profile wp (protocol_of env input))
      matched (sp_denied (plan_secret_injection input profile) \<noteq> []) (protocol_of env input) (answers_of env cx input profile session taint) taint session"
    using assms(1) by (auto simp: judge_def assms(2) Let_def answers_of_score)
  then have min: "cb_minimum cb = foldr max ?base GAllow" by (simp only: combined_minimum)
  have app: "foldr max (xs @ ys) GAllow = max (foldr max xs GAllow) (foldr max ys GAllow)" for xs ys :: "governance_decision list"
    by (induction xs) (simp_all only: append_Nil append_Cons foldr_Nil foldr_Cons o_apply id_apply max_decision max.assoc)
  have strictest: "strictest = max (max (max (cb_minimum cb) ?band)
      (overlay_demand (pv_dictum env) (overlay_context env cx input wp risk ledger) (pv_overlay env))) (budget_demand env input ledger)"
    unfolding assms(4) min append_Cons [symmetric] app
    by (simp only: foldr_Nil foldr_Cons o_apply id_apply max_decision max.assoc)
  have "risk = score_tool_risk_with_thresholds (pv_is_match env) input (cb_minimum cb) (cb_findings cb) (cb_risks cb)
      (payload_text env input) (wp_threshold_block wp) (wp_threshold_review wp)"
    using assms(1) by (auto simp: judge_def Let_def)
  then have "max (cb_minimum cb) ?band \<le> rs_decision risk" using assms(3) by (rule risk_at_least)
  then have least: "strictest \<le> fst (final_stage env cx input wp risk ledger)"
    unfolding final_stage_decision strictest by (intro max.mono order.refl)
  have risk: "rs_decision risk = max (cb_minimum cb) ?band"
    if "wp_threshold_review wp < wp_threshold_block wp" "wp_threshold_block wp \<le> 100"
    using judge_decision [OF that assms(1)] assms(3) by simp
  have "fst (final_stage env cx input wp risk ledger) = strictest"
    if "wp_threshold_review wp < wp_threshold_block wp" "wp_threshold_block wp \<le> 100"
    unfolding final_stage_decision strictest risk [OF that] by (rule refl)
  with least show ?thesis by blast
qed

section \<open>Scope\<close>

named_theorems scope_simps "functions of a request that do not read its workspace and tenant"

lemma scope_of_parts [scope_simps]:
  "payload_text env (input\<lparr>ir_workspace_id := w, ir_tenant_id := t\<rparr>) = payload_text env input"
  "session_key (input\<lparr>ir_workspace_id := w, ir_tenant_id := t\<rparr>) = session_key input"
  "declared_session (input\<lparr>ir_workspace_id := w, ir_tenant_id := t\<rparr>) = declared_session input"
  "spend_key_of (input\<lparr>ir_workspace_id := w, ir_tenant_id := t\<rparr>) = spend_key_of input"
  "resolve_for_request tbl pt (input\<lparr>ir_workspace_id := w, ir_tenant_id := t\<rparr>) = resolve_for_request tbl pt input"
  "plan_secret_injection (input\<lparr>ir_workspace_id := w, ir_tenant_id := t\<rparr>) profile = plan_secret_injection input profile"
  "local_hits m (input\<lparr>ir_workspace_id := w, ir_tenant_id := t\<rparr>) fs p = local_hits m input fs p"
  "matches_criteria c (input\<lparr>ir_workspace_id := w, ir_tenant_id := t\<rparr>) r = matches_criteria c input r"
  "build_overlay_context (input\<lparr>ir_workspace_id := w, ir_tenant_id := t\<rparr>) = build_overlay_context input"
  by (simp_all add: fun_eq_iff payload_text_def session_key_def declared_session_def spend_key_of_def resolve_for_request_def plan_secret_injection_def
      local_hits_def matches_criteria_def build_overlay_context_def Let_def cong: option.case_cong)

lemma scope_of_checks [scope_simps]:
  "check_tool_type (input\<lparr>ir_workspace_id := w, ir_tenant_id := t\<rparr>) = check_tool_type input"
  "check_tool_review (input\<lparr>ir_workspace_id := w, ir_tenant_id := t\<rparr>) = check_tool_review input"
  "check_tool_floor (input\<lparr>ir_workspace_id := w, ir_tenant_id := t\<rparr>) = check_tool_floor input"
  "check_approved (input\<lparr>ir_workspace_id := w, ir_tenant_id := t\<rparr>) = check_approved input"
  "check_baseline (input\<lparr>ir_workspace_id := w, ir_tenant_id := t\<rparr>) = check_baseline input"
  "check_declared (input\<lparr>ir_workspace_id := w, ir_tenant_id := t\<rparr>) = check_declared input"
  "check_sweep (input\<lparr>ir_workspace_id := w, ir_tenant_id := t\<rparr>) = check_sweep input"
  by (rule ext, simp add: check_tool_type_def check_tool_review_def check_tool_floor_def check_approved_def check_baseline_def
      check_declared_def check_sweep_def fun_eq_iff cong: if_cong)+

lemma scope_of_tool [scope_simps]:
  "check_tool (input\<lparr>ir_workspace_id := w, ir_tenant_id := t\<rparr>) = check_tool input"
  by (simp add: check_tool_def fun_eq_iff scope_simps cong: option.case_cong)

lemma scope_of_policy [scope_simps]:
  "evaluate_policy (input\<lparr>ir_workspace_id := w, ir_tenant_id := t\<rparr>) profile wp protocol = evaluate_policy input profile wp protocol"
  by (simp add: evaluate_policy_def scope_simps)

lemma scope_of_stages [scope_simps]:
  "evaluate_rules cl tbl to_str rules (input\<lparr>ir_workspace_id := w, ir_tenant_id := t\<rparr>) role risk now =
     evaluate_rules cl tbl to_str rules input role risk now"
  "score_tool_risk_with_thresholds m (input\<lparr>ir_workspace_id := w, ir_tenant_id := t\<rparr>) minimum fs ls p tb tr =
     score_tool_risk_with_thresholds m input minimum fs ls p tb tr"
  "inherited_taints env cx (input\<lparr>ir_workspace_id := w, ir_tenant_id := t\<rparr>) st = inherited_taints env cx input st"
  "budget_stage env (input\<lparr>ir_workspace_id := w, ir_tenant_id := t\<rparr>) d ledger = budget_stage env input d ledger"
  "audit_event env cx (input\<lparr>ir_workspace_id := w, ir_tenant_id := t\<rparr>) = audit_event env cx input"
  by (simp_all add: fun_eq_iff evaluate_rules_def rule_applies_def [abs_def] score_tool_risk_with_thresholds_def inherited_taints_def budget_stage_def
      audit_event_def scope_simps cong: option.case_cong)

lemma scope_of_answers [scope_simps]:
  "protocol_of env (input\<lparr>ir_workspace_id := w, ir_tenant_id := t\<rparr>) = protocol_of env input"
  "adaptive_result env cx (input\<lparr>ir_workspace_id := w, ir_tenant_id := t\<rparr>) profile session taint =
     adaptive_result env cx input profile session taint"
  "answers_of env cx (input\<lparr>ir_workspace_id := w, ir_tenant_id := t\<rparr>) profile session taint =
     answers_of env cx input profile session taint"
  by (simp_all add: protocol_of_def adaptive_result_def adaptive_input_def answers_of_def scope_simps)

lemma scope_of_session [scope_simps]:
  "session_stage env cx (input\<lparr>ir_workspace_id := w, ir_tenant_id := t\<rparr>) st = session_stage env cx input st"
  "final_stage env cx (input\<lparr>ir_workspace_id := w, ir_tenant_id := t\<rparr>) wp risk ledger = final_stage env cx input wp risk ledger"
  by (simp_all add: session_stage_def final_stage_def scope_simps)

lemma scope_of_settle [scope_simps]:
  "settle env cx (input\<lparr>ir_workspace_id := w, ir_tenant_id := t\<rparr>) profile wp g tr st = settle env cx input profile wp g tr st"
  by (simp add: settle_def)

text \<open>
  C14. The workspace and the tenant of an evaluation come from the agent profile. A call that claims
  another workspace changes nothing and is refused by name; otherwise whatever the request says
  about its workspace or tenant makes no difference to the answer or to any store.
\<close>

theorem scope_from_profile:
  assumes "pv_profile env (ir_agent_id input) = Inr profile"
  shows "execute_pipeline_at env cx input st =
    (if claimed_workspace_ok input profile
     then execute_pipeline_at env cx (input\<lparr>ir_workspace_id := None, ir_tenant_id := None\<rparr>) st
     else (Inl (WorkspaceScopeMismatch (ir_agent_id input) (ap_workspace_id profile) (the (ir_workspace_id input))), st))"
proof (cases "claimed_workspace_ok input profile")
  case True
  let ?i = "input\<lparr>ir_workspace_id := None, ir_tenant_id := None\<rparr>"
  have "claimed_workspace_ok ?i profile" by (simp add: claimed_workspace_ok_def)
  moreover have "govern env cx ?i profile wp st = govern env cx input profile wp st" for wp st
  proof -
    have "judge env cx ?i profile wp rules r t = judge env cx input profile wp rules r t" for rules r t
      by (simp add: judge_def scope_simps)
    then show ?thesis by (simp add: govern_def scope_simps cong: if_cong sum.case_cong)
  qed
  moreover have "rate_limited env cx ?i profile wp r st = rate_limited env cx input profile wp r st" for wp r st
    unfolding rate_limited_def scope_simps by (rule refl)
  ultimately show ?thesis
    using True assms(1) by (simp add: execute_pipeline_at_def Let_def cong: sum.case_cong prod.case_cong if_cong)
qed (use assms in \<open>simp add: execute_pipeline_at_def\<close>)

section \<open>Records\<close>

definition receipt_answered :: "'s pipeline_env \<Rightarrow> 's call_context \<Rightarrow> stored_audit_event \<Rightarrow> 's pipeline_state \<Rightarrow> 's pipeline_state \<Rightarrow> bool" where
  "receipt_answered env cx e st st' \<longleftrightarrow>
     (case ps_logger st of
        None \<Rightarrow> ps_receipts st' = ps_receipts st
      | Some lg \<Rightarrow> \<exists>evidence used rc lg'. ps_logger st' = Some lg' \<and>
          record_event (pv_crypto env) (pv_head env) (pv_put env) (cx_other_writers cx) (pv_capture env) lg e evidence used rc
            (ps_receipts st) = (Inr (), lg', ps_receipts st'))"

lemma record_stage_answered:
  "record_stage env cx e ev used rc st = (Inr u, st') \<Longrightarrow> receipt_answered env cx e st st'"
  by (cases "ps_logger st") (auto simp: record_stage_def receipt_answered_def split: prod.splits, blast)

lemma settle_records:
  assumes "settle env cx input profile wp g trace st = (Inr g', st')" "ae_event_id (gr_event g) = cx_event_id cx"
  shows "gr_event g' = gr_event g \<and> ps_audit st' = ps_audit st @ [gr_event g] \<and> receipt_answered env cx (gr_event g) st st'
    \<and> (if gr_decision g = GReview
       then (\<exists>rq. ps_reviews st' = ps_reviews st @ [rq] \<and> rq_id rq = cx_event_id cx) \<and> gr_review_request_id g' = Some (cx_event_id cx)
       else ps_reviews st' = ps_reviews st \<and> gr_review_request_id g' = gr_review_request_id g)"
proof -
  have err: "cx_audit_error cx = None" using assms(1) by (cases "cx_audit_error cx") (simp_all add: settle_def)
  define rc where "rc = \<lparr>rc_policy_hash = (if pv_overlay env = None then Some (workspace_policy_hash (pv_digest env) wp) else None),
      rc_threat_feed_hash = Some (threat_feed_hash env cx), rc_dictum_trace = trace\<rparr>"
  obtain r st1 where rec: "record_stage env cx (gr_event g) (la_reasoning (cx_answers cx)) (ae_usage (gr_event g)) rc
      (st\<lparr>ps_audit := ps_audit st @ [gr_event g]\<rparr>) = (r, st1)" by fastforce
  then obtain u where r: "r = Inr u" using assms(1) err by (cases r) (simp_all add: settle_def rc_def)
  have a: "receipt_answered env cx (gr_event g) st st1" using record_stage_answered [OF rec [unfolded r]] by (simp add: receipt_answered_def cong: option.case_cong)
  have k: "ps_audit st1 = ps_audit st @ [gr_event g]" "ps_reviews st1 = ps_reviews st"
    using record_stage_keeps(2,3) [of env cx "gr_event g" "la_reasoning (cx_answers cx)" "ae_usage (gr_event g)" rc
        "st\<lparr>ps_audit := ps_audit st @ [gr_event g]\<rparr>"] rec by simp_all
  have set: "settle env cx input profile wp g trace st =
      (if gr_decision g = GReview then settle env cx input profile wp g trace st else (Inr g, st1))"
    using rec r err by (simp add: settle_def rc_def)
  show ?thesis
  proof (cases "gr_decision g = GReview")
    case True
    have keep: "receipt_answered env cx e st (st1\<lparr>ps_reviews := rqs\<rparr>) = receipt_answered env cx e st st1" for e rqs
      by (simp add: receipt_answered_def cong: option.case_cong)
    show ?thesis
      using True assms rec r err a k by (auto simp: settle_def rc_def keep Let_def split: option.splits)
  qed (use assms set a k in auto)
qed

text \<open>
  C24. Every answered call that got past the rate limit is on record when the answer is given: the
  audit log gained exactly its event, which states the decision of the answer; the receipt logger,
  when there is one, took the same event without an error; and a review request with the identifier
  of the event was queued exactly when the decision is review.
\<close>

theorem answered_call_is_recorded:
  assumes "reaches_layers env cx input st profile wp" "execute_pipeline_at env cx input st = (Inr g, st')"
  shows "ps_audit st' = ps_audit st @ [gr_event g] \<and> ae_decision (gr_event g) = gr_decision g
    \<and> receipt_answered env cx (gr_event g) st st'
    \<and> (if gr_decision g = GReview
       then (\<exists>rq. ps_reviews st' = ps_reviews st @ [rq] \<and> rq_id rq = ae_event_id (gr_event g))
         \<and> gr_review_request_id g = Some (ae_event_id (gr_event g))
       else ps_reviews st' = ps_reviews st \<and> gr_review_request_id g = None)"
proof -
  obtain r t st1 where s: "session_stage env cx input (after_rate cx input st) = (r, t, st1)" by (metis prod_cases3)
  have gov: "govern env cx input profile wp (after_rate cx input st) = (Inr g, st')"
    using assms execute_reaches by metis
  then obtain g0 trace ledger where set: "settle env cx input profile wp g0 trace (st1\<lparr>ps_spend := ledger\<rparr>) = (Inr g, st')"
    and g0: "ae_event_id (gr_event g0) = cx_event_id cx" "ae_decision (gr_event g0) = gr_decision g0" "gr_review_request_id g0 = None"
    by (auto simp: govern_def s Let_def case_prod_beta audit_event_def split: sum.splits)
  have d: "gr_decision g = gr_decision g0" using settle_decision [of env cx input profile wp g0 trace "st1\<lparr>ps_spend := ledger\<rparr>" g] set by simp
  have st1: "ps_audit st1 = ps_audit st" "ps_reviews st1 = ps_reviews st" "ps_logger st1 = ps_logger st" "ps_receipts st1 = ps_receipts st"
    using s by (auto simp: session_stage_def Let_def case_prod_beta after_rate_def)
  have answered: "receipt_answered env cx e (st1\<lparr>ps_spend := ledger\<rparr>) st' = receipt_answered env cx e st st'" for e
    using st1(3,4) by (simp add: receipt_answered_def cong: option.case_cong)
  from settle_records [OF set g0(1)] show ?thesis using g0 d st1 by (auto simp: answered split: if_splits)
qed

section \<open>Answers\<close>

text \<open>A call that no store refuses is answered.\<close>

lemma settle_answers:
  "cx_audit_error cx = None \<Longrightarrow> cx_review_error cx = None \<Longrightarrow> ps_logger st = None \<Longrightarrow>
     \<exists>g'. fst (settle env cx input profile wp g trace st) = Inr g'"
  by (simp add: settle_def record_stage_def Let_def)

lemma govern_answers:
  assumes "pv_rules env (ap_workspace_id profile) = Inr rules"
    and "cx_audit_error cx = None" "cx_review_error cx = None" "ps_logger st = None"
  shows "\<exists>g. fst (govern env cx input profile wp st) = Inr g"
proof -
  obtain r t st1 where s: "session_stage env cx input st = (r, t, st1)" by (metis prod_cases3)
  then have "ps_logger st1 = None" using assms(4) by (auto simp: session_stage_def Let_def case_prod_beta)
  then have "ps_logger (st1\<lparr>ps_spend := ledger\<rparr>) = None" for ledger by simp
  then show ?thesis
    unfolding govern_def s assms(1) Let_def case_prod_beta fst_conv snd_conv sum.case by (intro settle_answers assms)
qed

lemma execute_answers:
  assumes "pv_profile env (ir_agent_id input) = Inr profile" "claimed_workspace_ok input profile"
    and "pv_policy env (ap_workspace_id profile) = Inr wp" "pv_rules env (ap_workspace_id profile) = Inr rules"
    and "cx_audit_error cx = None" "cx_review_error cx = None" "ps_logger st = None"
  shows "\<exists>g. fst (execute_pipeline_at env cx input st) = Inr g"
  using govern_answers [OF assms(4-6), of "after_rate cx input st" input wp] assms(7)
  by (simp add: execute_pipeline_at_def assms(1-6) rate_limited_def record_stage_def after_rate_def Let_def case_prod_beta)

lemma execute_keeps_logger_off:
  assumes "ps_logger st = None"
  shows "ps_logger (snd (execute_pipeline_at env cx input st)) = None"
proof -
  have settle: "ps_logger s = None \<Longrightarrow> ps_logger (snd (settle env cx input profile wp g trace s)) = None" for profile wp g trace s
    by (auto simp: settle_def record_stage_def Let_def split: option.splits if_splits)
  have govern: "ps_logger s = None \<Longrightarrow> ps_logger (snd (govern env cx input profile wp s)) = None" for profile wp s
    by (auto simp: govern_def session_stage_def Let_def case_prod_beta settle split: sum.splits)
  have limited: "ps_logger s = None \<Longrightarrow> ps_logger (snd (rate_limited env cx input profile wp rate s)) = None" for profile wp rate s
    by (simp add: rate_limited_def record_stage_def Let_def)
  show ?thesis by (rule execute_cases [of env cx input st]) (use assms govern limited in \<open>auto simp: after_rate_def\<close>)
qed

section \<open>Witnesses\<close>

definition demo_outside_answers :: outside_answers where
  "demo_outside_answers = \<lparr>la_plugin_outputs = [], la_plugin_errors = [], la_reasoning = None\<rparr>"

definition demo_detectors :: detector_inputs where
  "demo_detectors = \<lparr>di_stage_clock = (\<lambda>_. (0, 0)), di_firewall_stats = \<lparr>ft_total_scanned = 0, ft_total_blocked = 0, ft_stage1_catches = 0,
       ft_stage2_catches = 0, ft_stage3_catches = 0, ft_false_positives_reported = 0\<rparr>, di_feed = new_feed [], di_weights = default_weights, di_baselines = [], di_agent_trust = 1 / 2, di_hour = 12,
     di_decision_ms = 0, di_now_ms = 0\<rparr>"

text \<open>A feed whose only indicator is found in every text.\<close>

definition demo_feed :: threat_feed where
  "demo_feed = \<lparr>tf_indicators = [\<lparr>ti_id = ''i'', ti_indicator_type = KnownExploit, ti_pattern = [], ti_severity = ''critical'',
     ti_description = [], ti_source = [], ti_created_at = [], ti_active = True\<rparr>], tf_last_updated = [], tf_cache = []\<rparr>"

definition demo_env :: "unit pipeline_env" where
  "demo_env = \<lparr>pv_crypto = demo_crypto, pv_digest = \<lparr>dl_to_vec = (\<lambda>_. []), dl_sha256 = id, dl_hex = (\<lambda>_. [])\<rparr>,
     pv_taint = \<lparr>tl_lower = id, tl_from_str = (\<lambda>_. None), tl_credential_patterns = []\<rparr>, pv_dictum = demo_lib,
     pv_calendar = \<lparr>cl_parse_hm = (\<lambda>_. None), cl_local = (\<lambda>_ t. (t, 0))\<rparr>, pv_value_string = (\<lambda>_. []), pv_map_string = (\<lambda>_. []),
     pv_debug_list = concat, pv_show_f64 = (\<lambda>_. []), pv_show_cents = (\<lambda>_. []), pv_is_match = (\<lambda>_ _. False),
     pv_compiles = (\<lambda>_. False), pv_is_uuid = (\<lambda>_. False),
     pv_firewall = \<lparr>fl_find = (\<lambda>_ _. []), fl_lower = id, fl_alphanumeric = (\<lambda>_. True), fl_log2 = id\<rparr>, pv_profile = (\<lambda>_. Inr demo_profile), pv_policy = (\<lambda>_. Inr demo_workspace), pv_rules = (\<lambda>_. Inr []),
     pv_sessions = default_session_config, pv_agent_window = None, pv_overlay = None, pv_cost_control = False,
     pv_pricing = builtin_pricing, pv_budget = None, pv_capture = False, pv_head = (\<lambda>_ _. Inr None), pv_put = (\<lambda>s _. Inr s)\<rparr>"

definition demo_cx :: "unit call_context" where
  "demo_cx = \<lparr>cx_instant = 0, cx_wall = 0, cx_clock = demo_clock, cx_taint_read = 0, cx_taint_session = 0, cx_taint_agent = 0,
     cx_decision_time = 0, cx_timestamp = [], cx_event_id = ''e'', cx_answers = demo_outside_answers,
     cx_detectors = demo_detectors, cx_hashed_feed = new_feed [],
     cx_other_writers = (\<lambda>_. id), cx_audit_error = None, cx_review_error = None\<rparr>"

definition demo_state :: "unit pipeline_state" where
  "demo_state = \<lparr>ps_limiter = new_limiter default_rate_limit_config, ps_dags = [], ps_session_taints = [], ps_agent_taints = [],
     ps_spend = [], ps_audit = [], ps_logger = None, ps_receipts = (), ps_reviews = []\<rparr>"

definition demo_read_request :: inspect_request where
  "demo_read_request = demo_request ''fs.read'' [] \<lparr>ir_action := \<lparr>ad_action_type = FileRead, ad_tool_name = ''fs.read'', ad_payload = []\<rparr>\<rparr>"

lemmas demo_pipeline_defs = demo_env_def demo_cx_def demo_state_def demo_read_request_def demo_request_def demo_profile_def

lemma demo_env_lookup:
  "pv_profile demo_env a = Inr demo_profile" "pv_policy demo_env w = Inr demo_workspace" "pv_rules demo_env w = Inr []"
  by (simp_all add: demo_env_def)

lemma demo_reaches: "reaches_layers demo_env demo_cx demo_read_request demo_state demo_profile demo_workspace"
  by (simp add: reaches_layers_def demo_pipeline_defs claimed_workspace_ok_def check_rate_def check_windows_def rate_verdict_def
      new_limiter_def default_rate_limit_config_def window_of_def prune_def count_in_def Let_def)

theorem labels_enforced_in_session_witness:
  "\<exists>g. fst (run_steps (pipeline_step demo_env) [(demo_cx, demo_request ''http.fetch'' [])]
       (snd (execute_pipeline_at demo_env demo_cx demo_read_request demo_state))) ! 0 = Inr g \<and> gr_decision g = GBlock"
proof -
  let ?st = "snd (execute_pipeline_at demo_env demo_cx demo_read_request demo_state)" and ?i = "demo_request ''http.fetch'' []"
  have "carries_label demo_env demo_read_request LOCAL_FS"
    by (simp add: carries_label_def demo_read_request_def file_read_labels)
  moreover have "forbids_label demo_env ?i LOCAL_FS"
    unfolding forbids_label_def by (intro bexI [of _ "hd default_policies"])
      (simp_all add: demo_request_def classify_sink_def default_policies_def)
  ultimately have "blocked_or_error (fst (run_steps (pipeline_step demo_env) [(demo_cx, ?i)] ?st) ! 0)"
    using labels_enforced_in_session [OF demo_reaches _ prod.collapse [symmetric], of LOCAL_FS 0 "[(demo_cx, ?i)]"]
    by (simp add: demo_read_request_def demo_request_def session_key_def)
  moreover have "\<exists>g. fst (execute_pipeline_at demo_env demo_cx ?i ?st) = Inr g"
    by (rule execute_answers [OF demo_env_lookup(1) _ demo_env_lookup(2,3)])
       (simp_all add: execute_keeps_logger_off claimed_workspace_ok_def demo_request_def demo_cx_def demo_state_def)
  ultimately show ?thesis by (auto simp: blocked_or_error_def pipeline_step_def case_prod_beta)
qed

lemma demo_feed_blocks: "threat_demand (answers_of env (cx\<lparr>cx_detectors := d\<lparr>di_feed := demo_feed\<rparr>\<rparr>) input profile session taint) = GBlock"
  by (simp add: threat_demand_def demo_feed_def check_threats_def match_of_def indicator_matches_def lowercase_def is_ascii_def
      to_ascii_lowercase_def REGEX_PREFIX_def)

theorem detected_attack_blocked_witness:
  "\<exists>g. fst (execute_pipeline_at demo_env (demo_cx\<lparr>cx_detectors := demo_detectors\<lparr>di_feed := demo_feed\<rparr>\<rparr>) demo_read_request demo_state) = Inr g
    \<and> gr_decision g = GBlock"
proof -
  let ?cx = "demo_cx\<lparr>cx_detectors := demo_detectors\<lparr>di_feed := demo_feed\<rparr>\<rparr>"
  have "\<exists>g. fst (execute_pipeline_at demo_env ?cx demo_read_request demo_state) = Inr g"
    by (rule execute_answers [OF demo_env_lookup(1) _ demo_env_lookup(2,3)])
       (simp_all add: claimed_workspace_ok_def demo_read_request_def demo_request_def demo_cx_def demo_state_def)
  moreover have "\<exists>i \<in> set (tf_indicators (di_feed (cx_detectors ?cx))). ti_active i \<and> ti_severity i = ''critical''
      \<and> indicator_matches (regex_of demo_env) (tf_cache (di_feed (cx_detectors ?cx))) (payload_text demo_env demo_read_request) i"
    by (simp add: demo_feed_def indicator_matches_def lowercase_def is_ascii_def to_ascii_lowercase_def REGEX_PREFIX_def)
  ultimately show ?thesis
    using detected_attack_blocked [of ?cx demo_env demo_read_request demo_state] by fastforce
qed

theorem decision_is_strictest_layer_witness:
  "\<exists>cb plan risk. judge demo_env (demo_cx\<lparr>cx_detectors := demo_detectors\<lparr>di_feed := demo_feed\<rparr>\<rparr>) demo_read_request demo_profile
      demo_workspace [] (refused_result ''a'' (new_session demo_clock ''a'' ''a'') 0 NetworkDeliveredExecution)
      (analyze_taint (pv_taint demo_env) ''file_read'' ''t'' [] {}) = (cb, plan, risk)
    \<and> fst (final_stage demo_env (demo_cx\<lparr>cx_detectors := demo_detectors\<lparr>di_feed := demo_feed\<rparr>\<rparr>) demo_read_request demo_workspace risk []) = GBlock"
proof -
  let ?cx = "demo_cx\<lparr>cx_detectors := demo_detectors\<lparr>di_feed := demo_feed\<rparr>\<rparr>"
  obtain cb plan risk where j: "judge demo_env ?cx demo_read_request demo_profile demo_workspace []
      (refused_result ''a'' (new_session demo_clock ''a'' ''a'') 0 NetworkDeliveredExecution)
      (analyze_taint (pv_taint demo_env) ''file_read'' ''t'' [] {}) = (cb, plan, risk)" by (metis prod_cases3)
  have t: "wp_threshold_review demo_workspace < wp_threshold_block demo_workspace" "wp_threshold_block demo_workspace \<le> 100"
    by (simp_all add: demo_workspace_def)
  have "GBlock \<in> set (layer_demands demo_workspace d (answers_of demo_env ?cx demo_read_request demo_profile r ta) ta r)" for d ta r
    by (simp add: layer_demands_def demo_feed_blocks)
  then have "fst (final_stage demo_env ?cx demo_read_request demo_workspace risk []) = GBlock"
    unfolding conjunct2 [OF decision_is_strictest_layer [OF j refl refl refl], THEN mp, OF conjI [OF t]] foldr_max_GBlock by simp
  then show ?thesis using j by blast
qed

theorem scope_from_profile_witness:
  "execute_pipeline_at demo_env demo_cx (demo_read_request\<lparr>ir_workspace_id := Some ''x''\<rparr>) demo_state =
     (Inl (WorkspaceScopeMismatch ''a'' ''w'' ''x''), demo_state)"
  using scope_from_profile [of demo_env "demo_read_request\<lparr>ir_workspace_id := Some ''x''\<rparr>" demo_profile demo_cx demo_state]
  by (simp add: claimed_workspace_ok_def demo_pipeline_defs)

theorem answered_call_is_recorded_witness:
  "\<exists>g st'. execute_pipeline_at demo_env demo_cx demo_read_request demo_state = (Inr g, st') \<and> ps_audit st' = [gr_event g]"
proof -
  have "\<exists>g. fst (execute_pipeline_at demo_env demo_cx demo_read_request demo_state) = Inr g"
    by (rule execute_answers [OF demo_env_lookup(1) _ demo_env_lookup(2,3)])
       (simp_all add: claimed_workspace_ok_def demo_read_request_def demo_request_def demo_cx_def demo_state_def)
  then obtain g st' where e: "execute_pipeline_at demo_env demo_cx demo_read_request demo_state = (Inr g, st')"
    by (metis prod.collapse)
  from answered_call_is_recorded [OF demo_reaches e] e show ?thesis by (simp add: demo_state_def)
qed

end
