(* ===== verification/Agent_Identity.thy ===== *)
theory Agent_Identity
  imports Rust_Strings Rust_Floats "HOL-Library.AList"
begin

text \<open>
  Agent identities of \<open>crates/iaga-sentinel-core/src/modules/nhi/crypto_identity.rs\<close>: derived HMAC
  keys, challenge and response, capability tokens, trust. The two process-global maps are the state;
  a clock reading is a number of nanoseconds. HMAC-SHA256, hexadecimal coding and the RFC 3339
  functions are parameters, and an identifier drawn at random is an argument.
\<close>

section \<open>Libraries and data\<close>

record nhi_lib =
  nl_hmac :: "bytes \<Rightarrow> bytes \<Rightarrow> bytes"
  nl_hex :: "bytes \<Rightarrow> string"
  nl_unhex :: "string \<Rightarrow> bytes option"
  nl_parse_time :: "string \<Rightarrow> int option"
  nl_show_time :: "int \<Rightarrow> string"
  nl_show_micros :: "int \<Rightarrow> string"

record agent_identity =
  id_agent_id :: string
  id_spiffe_id :: string
  id_key_commitment :: string
  id_created_at :: string
  id_attestation_status :: string
  id_trust_score :: rat
  id_capabilities :: "string list"

record stored_identity =
  si_identity :: agent_identity
  si_secret_key :: bytes

record capability_token =
  ct_token_id :: string
  ct_agent_id :: string
  ct_capabilities :: "string list"
  ct_issued_at :: string
  ct_expires_at :: string
  ct_signature :: string
  ct_valid :: bool

record attestation_result =
  at_agent_id :: string
  at_verified :: bool
  at_spiffe_id :: string
  at_trust_score :: rat
  at_reason :: string
  at_mode :: string

record pending_challenge =
  pc_challenge_id :: string
  pc_agent_id :: string
  pc_nonce :: string
  pc_expires_at :: string

record stored_challenge =
  sc_challenge :: pending_challenge
  sc_created_at :: int

record mutual_attestation_result =
  ma_initiator :: attestation_result
  ma_responder :: attestation_result
  ma_mutual_trust :: rat
  ma_session_token :: "string option"

record nhi_state =
  ns_identities :: "(string \<times> stored_identity) list"
  ns_challenges :: "(string \<times> stored_challenge) list"

definition nhi_empty :: nhi_state where
  "nhi_empty = \<lparr>ns_identities = [], ns_challenges = []\<rparr>"

definition identity_of :: "nhi_state \<Rightarrow> string \<Rightarrow> stored_identity option" where
  "identity_of st agent_id = map_of (ns_identities st) agent_id"

definition SECOND :: int where
  "SECOND = 10 ^ 9"

section \<open>Keys and signatures\<close>

definition derive_keypair :: "nhi_lib \<Rightarrow> bytes \<Rightarrow> string \<Rightarrow> bytes \<times> string" where
  "derive_keypair l seed agent_id =
     (let secret = nl_hmac l seed (as_bytes agent_id)
      in (secret, nl_hex l (nl_hmac l secret (as_bytes ''public-key-derivation''))))"

definition sign_message :: "nhi_lib \<Rightarrow> bytes \<Rightarrow> string \<Rightarrow> string" where
  "sign_message l secret message = nl_hex l (nl_hmac l secret (as_bytes message))"

definition verify_signature :: "nhi_lib \<Rightarrow> bytes \<Rightarrow> string \<Rightarrow> string \<Rightarrow> bool" where
  "verify_signature l secret message signature =
     (case nl_unhex l signature of Some sig_bytes \<Rightarrow> sig_bytes = nl_hmac l secret (as_bytes message) | None \<Rightarrow> False)"

definition build_spiffe_id :: "string \<Rightarrow> string option \<Rightarrow> string" where
  "build_spiffe_id agent_id workspace_id =
     ''spiffe://iaga-sentinel/'' @ (case workspace_id of Some w \<Rightarrow> w | None \<Rightarrow> ''default'') @ ''/agent/'' @ agent_id"

section \<open>Identities\<close>

definition insert_identity :: "string \<Rightarrow> stored_identity \<Rightarrow> nhi_state \<Rightarrow> nhi_state" where
  "insert_identity k stored st = st\<lparr>ns_identities := AList.update k stored (ns_identities st)\<rparr>"

definition register_identity ::
  "nhi_lib \<Rightarrow> bytes \<Rightarrow> int \<Rightarrow> string \<Rightarrow> string option \<Rightarrow> string list \<Rightarrow> nhi_state \<Rightarrow> agent_identity \<times> nhi_state" where
  "register_identity l seed now agent_id workspace_id capabilities st =
     (case derive_keypair l seed agent_id of
        (secret, pub_hex) \<Rightarrow>
          (let identity = \<lparr>id_agent_id = agent_id, id_spiffe_id = build_spiffe_id agent_id workspace_id, id_key_commitment = pub_hex,
                 id_created_at = nl_show_micros l now, id_attestation_status = ''registered'', id_trust_score = 1 / 2,
                 id_capabilities = capabilities\<rparr>
           in (identity, insert_identity agent_id \<lparr>si_identity = identity, si_secret_key = secret\<rparr> st)))"

definition get_identity :: "nhi_state \<Rightarrow> string \<Rightarrow> agent_identity option" where
  "get_identity st agent_id = map_option si_identity (identity_of st agent_id)"

definition get_secret_key_hex :: "nhi_lib \<Rightarrow> nhi_state \<Rightarrow> string \<Rightarrow> string option" where
  "get_secret_key_hex l st agent_id = map_option (\<lambda>s. nl_hex l (si_secret_key s)) (identity_of st agent_id)"

text \<open>A secret that does not decode becomes the empty key.\<close>

definition hydrate_identity :: "nhi_lib \<Rightarrow> agent_identity \<Rightarrow> string \<Rightarrow> nhi_state \<Rightarrow> nhi_state" where
  "hydrate_identity l identity secret_key_hex st =
     insert_identity (id_agent_id identity)
       \<lparr>si_identity = identity, si_secret_key = (case nl_unhex l secret_key_hex of Some k \<Rightarrow> k | None \<Rightarrow> [])\<rparr> st"

definition list_identities :: "nhi_state \<Rightarrow> agent_identity list" where
  "list_identities st = map (si_identity \<circ> snd) (ns_identities st)"

section \<open>Attestation\<close>

text \<open>The simulated attestation names the identity and claims nothing.\<close>

definition attest_agent :: "nhi_state \<Rightarrow> string \<Rightarrow> attestation_result" where
  "attest_agent st agent_id =
     (case identity_of st agent_id of
        Some stored \<Rightarrow>
          \<lparr>at_agent_id = agent_id, at_verified = False, at_spiffe_id = id_spiffe_id (si_identity stored),
           at_trust_score = id_trust_score (si_identity stored),
           at_reason = ''agent is registered but simulated attestation proves no key possession; use POST /v1/nhi/challenge then ''
             @ ''/v1/nhi/verify for real challenge-response verification'',
           at_mode = ''simulated''\<rparr>
      | None \<Rightarrow>
          \<lparr>at_agent_id = agent_id, at_verified = False, at_spiffe_id = [], at_trust_score = 0,
           at_reason = ''unknown agent, no identity registered'', at_mode = ''simulated''\<rparr>)"

definition create_challenge ::
  "nhi_lib \<Rightarrow> string \<Rightarrow> string \<Rightarrow> int \<Rightarrow> int \<Rightarrow> string \<Rightarrow> nhi_state \<Rightarrow> pending_challenge option \<times> nhi_state" where
  "create_challenge l challenge_id nonce now stamped agent_id st =
     (case identity_of st agent_id of
        None \<Rightarrow> (None, st)
      | Some _ \<Rightarrow>
          (let challenge = \<lparr>pc_challenge_id = challenge_id, pc_agent_id = agent_id, pc_nonce = nonce,
                 pc_expires_at = nl_show_time l (now + 60 * SECOND)\<rparr>
           in (Some challenge,
               st\<lparr>ns_challenges := AList.update challenge_id \<lparr>sc_challenge = challenge, sc_created_at = stamped div SECOND\<rparr>
                    (ns_challenges st)\<rparr>)))"

definition attestation_refused :: "string \<Rightarrow> string \<Rightarrow> attestation_result" where
  "attestation_refused agent_id why =
     \<lparr>at_agent_id = agent_id, at_verified = False, at_spiffe_id = [], at_trust_score = 0, at_reason = why, at_mode = ''verified''\<rparr>"

definition challenge_expired :: "nhi_lib \<Rightarrow> int \<Rightarrow> pending_challenge \<Rightarrow> bool" where
  "challenge_expired l now challenge =
     (case nl_parse_time l (pc_expires_at challenge) of Some expires \<Rightarrow> expires < now | None \<Rightarrow> False)"

definition verify_attestation ::
  "nhi_lib \<Rightarrow> int \<Rightarrow> string \<Rightarrow> string \<Rightarrow> string \<Rightarrow> nhi_state \<Rightarrow> attestation_result \<times> nhi_state" where
  "verify_attestation l now agent_id challenge_id signature st =
     (case map_of (ns_challenges st) challenge_id of
        None \<Rightarrow> (attestation_refused agent_id ''challenge not found or already consumed'', st)
      | Some sc \<Rightarrow>
          if pc_agent_id (sc_challenge sc) \<noteq> agent_id then (attestation_refused agent_id ''challenge was issued for a different agent'', st)
          else if challenge_expired l now (sc_challenge sc) then (attestation_refused agent_id ''challenge expired'', st)
          else
            (case identity_of st agent_id of
               None \<Rightarrow> (attestation_refused agent_id ''unknown agent, no identity registered'', st)
             | Some stored \<Rightarrow>
                 (let verified = verify_signature l (si_secret_key stored) (pc_nonce (sc_challenge sc)) signature
                  in (\<lparr>at_agent_id = agent_id, at_verified = verified, at_spiffe_id = id_spiffe_id (si_identity stored),
                       at_trust_score = id_trust_score (si_identity stored),
                       at_reason = (if verified then ''challenge-response verified successfully'' else ''signature verification failed''),
                       at_mode = ''verified''\<rparr>,
                      if verified then st\<lparr>ns_challenges := AList.delete challenge_id (ns_challenges st)\<rparr> else st))))"

definition prune_expired_challenges :: "int \<Rightarrow> nhi_state \<Rightarrow> nat \<times> nhi_state" where
  "prune_expired_challenges now st =
     (let kept = filter (\<lambda>(_, sc). now div SECOND - sc_created_at sc < 60) (ns_challenges st)
      in (length (ns_challenges st) - length kept, st\<lparr>ns_challenges := kept\<rparr>))"

definition mutual_attest :: "nhi_lib \<Rightarrow> string \<Rightarrow> nhi_state \<Rightarrow> string \<Rightarrow> string \<Rightarrow> mutual_attestation_result" where
  "mutual_attest l challenge st initiator_id responder_id =
     (let a = attest_agent st initiator_id; b = attest_agent st responder_id; both = at_verified a \<and> at_verified b
      in \<lparr>ma_initiator = a, ma_responder = b,
          ma_mutual_trust = (if both then fdiv (fadd (at_trust_score a) (at_trust_score b)) 2 else 0),
          ma_session_token =
            (if both then
               map_option (\<lambda>s. sign_message l (si_secret_key s) (initiator_id @ '':'' @ responder_id @ '':'' @ challenge))
                 (identity_of st initiator_id)
             else None)\<rparr>)"

section \<open>Capability tokens\<close>

definition CAP_READ_SELF :: string where
  "CAP_READ_SELF = ''read:self''"

definition CAP_WILDCARD :: string where
  "CAP_WILDCARD = ''*''"

definition token_payload :: "string \<Rightarrow> string \<Rightarrow> string list \<Rightarrow> string \<Rightarrow> string" where
  "token_payload token_id agent_id capabilities expires_at =
     token_id @ '':'' @ agent_id @ '':'' @ join_with '','' capabilities @ '':'' @ expires_at"

definition issue_capability_token ::
  "nhi_lib \<Rightarrow> string \<Rightarrow> int \<Rightarrow> string \<Rightarrow> string list \<Rightarrow> int \<Rightarrow> nhi_state \<Rightarrow> capability_token option" where
  "issue_capability_token l token_id now agent_id capabilities ttl_seconds st =
     map_option
       (\<lambda>stored.
         (let expires_at = nl_show_micros l (now + ttl_seconds * SECOND)
          in \<lparr>ct_token_id = token_id, ct_agent_id = agent_id, ct_capabilities = capabilities, ct_issued_at = nl_show_micros l now,
              ct_expires_at = expires_at,
              ct_signature = sign_message l (si_secret_key stored) (token_payload token_id agent_id capabilities expires_at),
              ct_valid = True\<rparr>))
       (identity_of st agent_id)"

definition verify_token_signature :: "nhi_lib \<Rightarrow> nhi_state \<Rightarrow> capability_token \<Rightarrow> bool" where
  "verify_token_signature l st token =
     (case identity_of st (ct_agent_id token) of
        None \<Rightarrow> False
      | Some stored \<Rightarrow>
          verify_signature l (si_secret_key stored)
            (token_payload (ct_token_id token) (ct_agent_id token) (ct_capabilities token) (ct_expires_at token)) (ct_signature token))"

definition token_grants :: "nhi_lib \<Rightarrow> int \<Rightarrow> nhi_state \<Rightarrow> capability_token \<Rightarrow> string \<Rightarrow> bool" where
  "token_grants l now st token required_capability =
     (if \<not> ct_valid token then False
      else if \<not> verify_token_signature l st token then False
      else
        (case nl_parse_time l (ct_expires_at token) of
           Some expires \<Rightarrow>
             if expires < now then False
             else list_ex (\<lambda>c. c = required_capability \<or> c = CAP_WILDCARD) (ct_capabilities token)
         | None \<Rightarrow> False))"

section \<open>Trust\<close>

definition clamp01 :: "rat \<Rightarrow> rat" where
  "clamp01 x = (if x < 0 then 0 else if 1 < x then 1 else x)"

definition update_trust_score :: "string \<Rightarrow> rat \<Rightarrow> nhi_state \<Rightarrow> rat option \<times> nhi_state" where
  "update_trust_score agent_id delta st =
     (case identity_of st agent_id of
        None \<Rightarrow> (None, st)
      | Some stored \<Rightarrow>
          (let t = clamp01 (fadd (id_trust_score (si_identity stored)) delta)
           in (Some t, insert_identity agent_id (stored\<lparr>si_identity := (si_identity stored)\<lparr>id_trust_score := t\<rparr>\<rparr>) st)))"

definition trust_delta :: "string \<Rightarrow> u32 \<Rightarrow> rat" where
  "trust_delta decision score =
     (if decision = ''allow'' then rnd64 (2 / 100)
      else if decision = ''review'' then rnd64 (- 5 / 1000)
      else if decision = ''block'' then
        (if 80 \<le> score then rnd64 (- 5 / 100) else if 50 \<le> score then rnd64 (- 3 / 100) else rnd64 (- 1 / 100))
      else 0)"

definition update_trust_from_decision :: "string \<Rightarrow> string \<Rightarrow> u32 \<Rightarrow> nhi_state \<Rightarrow> rat option \<times> nhi_state" where
  "update_trust_from_decision agent_id decision score st = update_trust_score agent_id (trust_delta decision score) st"

definition get_agent_trust :: "nhi_state \<Rightarrow> string \<Rightarrow> rat" where
  "get_agent_trust st agent_id = (case identity_of st agent_id of Some s \<Rightarrow> id_trust_score (si_identity s) | None \<Rightarrow> 1 / 2)"

definition nhi_reset :: "nhi_state \<Rightarrow> nhi_state" where
  "nhi_reset st = nhi_empty"

section \<open>Attestation proves the key, once\<close>

lemma identity_of_insert [simp]:
  "identity_of (insert_identity k s st) a = (if a = k then Some s else identity_of st a)"
  "ns_challenges (insert_identity k s st) = ns_challenges st"
  by (simp_all add: identity_of_def insert_identity_def update_conv')

text \<open>A verified answer is the HMAC of a pending, unexpired nonce of this agent under its stored key.\<close>

lemma verified_iff:
  "at_verified (fst (verify_attestation l now a c sig1 st)) \<longleftrightarrow>
     (\<exists>sc stored. map_of (ns_challenges st) c = Some sc \<and> pc_agent_id (sc_challenge sc) = a \<and> \<not> challenge_expired l now (sc_challenge sc)
        \<and> identity_of st a = Some stored
        \<and> nl_unhex l sig1 = Some (nl_hmac l (si_secret_key stored) (as_bytes (pc_nonce (sc_challenge sc)))))"
proof (cases "map_of (ns_challenges st) c")
  case None
  then show ?thesis by (simp add: verify_attestation_def attestation_refused_def)
next
  case (Some sc)
  show ?thesis
  proof (cases "pc_agent_id (sc_challenge sc) = a \<and> \<not> challenge_expired l now (sc_challenge sc)")
    case False
    then show ?thesis using Some by (auto simp: verify_attestation_def attestation_refused_def)
  next
    case True
    then show ?thesis using Some
      by (cases "identity_of st a"; cases "nl_unhex l sig1")
         (simp_all add: verify_attestation_def attestation_refused_def verify_signature_def Let_def)
  qed
qed

lemma simulated_attestation_proves_nothing:
  "ma_session_token (mutual_attest l ch st a b) = None" "ma_mutual_trust (mutual_attest l ch st a b) = 0"
  by (simp_all add: mutual_attest_def attest_agent_def Let_def split: option.split)

datatype nhi_op =
    Register int string "string option" "string list"
  | Hydrate agent_identity string
  | Challenge string string int int string
  | Verify int string string string
  | Prune int
  | Trust string string u32
  | Reset

text \<open>The operations of the two maps, each under their locks.\<close>

fun nhi_exec :: "nhi_lib \<Rightarrow> bytes \<Rightarrow> nhi_op \<Rightarrow> nhi_state \<Rightarrow> nhi_state" where
  "nhi_exec l seed (Register now a w caps) st = snd (register_identity l seed now a w caps st)"
| "nhi_exec l seed (Hydrate i hex) st = hydrate_identity l i hex st"
| "nhi_exec l seed (Challenge c nonce now stamped a) st = snd (create_challenge l c nonce now stamped a st)"
| "nhi_exec l seed (Verify now a c sig1) st = snd (verify_attestation l now a c sig1 st)"
| "nhi_exec l seed (Prune now) st = snd (prune_expired_challenges now st)"
| "nhi_exec l seed (Trust a d r) st = snd (update_trust_from_decision a d r st)"
| "nhi_exec l seed Reset st = nhi_reset st"

definition creates :: "string \<Rightarrow> nhi_op \<Rightarrow> bool" where
  "creates c p \<longleftrightarrow> (\<exists>nonce now stamped a. p = Challenge c nonce now stamped a)"

lemma map_of_filter_None: "map_of xs k = None \<Longrightarrow> map_of (filter P xs) k = None"
  by (auto simp: map_of_eq_None_iff)

lemma consumed_stays_consumed:
  assumes "\<not> creates c p" "map_of (ns_challenges st) c = None"
  shows "map_of (ns_challenges (nhi_exec l seed p st)) c = None"
proof (cases p)
  case (Challenge d nonce now stamped a)
  then have "d \<noteq> c" using assms(1) by (auto simp: creates_def)
  then show ?thesis using assms(2) Challenge by (simp add: create_challenge_def Let_def update_conv' split: option.split)
next
  case (Verify now a d sig1)
  then show ?thesis using assms(2)
    by (simp add: verify_attestation_def Let_def delete_conv' split: option.split)
next
  case (Prune now)
  then show ?thesis using assms(2) by (simp add: prune_expired_challenges_def Let_def map_of_filter_None)
qed (use assms(2) in \<open>simp_all add: register_identity_def hydrate_identity_def update_trust_from_decision_def update_trust_score_def
    nhi_reset_def nhi_empty_def Let_def case_prod_beta split: option.split\<close>)

lemma verified_consumes:
  "at_verified (fst (verify_attestation l now a c sig1 st)) \<Longrightarrow> map_of (ns_challenges (snd (verify_attestation l now a c sig1 st))) c = None"
  by (auto simp: verify_attestation_def attestation_refused_def Let_def delete_conv' split: option.splits if_splits)

text \<open>
  A challenge answers once: after it was verified, and whatever the server does next short of drawing
  the same identifier again, no answer to it verifies.
\<close>

lemma challenge_single_use:
  assumes "at_verified (fst (verify_attestation l now a c sig1 st))" "\<forall>p \<in> set ops. \<not> creates c p"
  shows "verify_attestation l now2 b c sig2 (fold (nhi_exec l seed) ops (snd (verify_attestation l now a c sig1 st)))
    = (attestation_refused b ''challenge not found or already consumed'', fold (nhi_exec l seed) ops (snd (verify_attestation l now a c sig1 st)))"
proof -
  have "map_of (ns_challenges s) c = None \<Longrightarrow> \<forall>p \<in> set ops. \<not> creates c p \<Longrightarrow> map_of (ns_challenges (fold (nhi_exec l seed) ops s)) c = None" for s
    by (induction ops arbitrary: s) (simp_all add: consumed_stays_consumed)
  from this [OF verified_consumes [OF assms(1)] assms(2)] show ?thesis by (simp add: verify_attestation_def)
qed

text \<open>A refused answer leaves the challenge to its owner.\<close>

lemma refusal_keeps_challenge:
  "\<not> at_verified (fst (verify_attestation l now a c sig1 st)) \<Longrightarrow> snd (verify_attestation l now a c sig1 st) = st"
  by (auto simp: verify_attestation_def Let_def split: option.splits if_splits)

text \<open>An identity restored without a readable secret is attested by anyone: its key is empty.\<close>

lemma unreadable_secret_is_forgeable:
  assumes "nl_unhex l secret_hex = None" "id_agent_id i = a" "map_of (ns_challenges st) c = Some sc"
    and "pc_agent_id (sc_challenge sc) = a" "\<not> challenge_expired l now (sc_challenge sc)" "\<And>b. nl_unhex l (nl_hex l b) = Some b"
  shows "at_verified (fst (verify_attestation l now a c (sign_message l [] (pc_nonce (sc_challenge sc))) (hydrate_identity l i secret_hex st)))"
  using assms by (simp add: verified_iff hydrate_identity_def sign_message_def)

section \<open>Trust stays between zero and one\<close>

definition trust_ok :: "nhi_state \<Rightarrow> bool" where
  "trust_ok st \<longleftrightarrow> (\<forall>a. 0 \<le> get_agent_trust st a \<and> get_agent_trust st a \<le> 1)"

fun hydrates_ok :: "nhi_op \<Rightarrow> bool" where
  "hydrates_ok (Hydrate i hex) \<longleftrightarrow> 0 \<le> id_trust_score i \<and> id_trust_score i \<le> 1"
| "hydrates_ok p \<longleftrightarrow> True"

lemma clamp01_bounds [simp]: "0 \<le> clamp01 x" "clamp01 x \<le> 1"
  by (simp_all add: clamp01_def)

lemma get_agent_trust_insert:
  "get_agent_trust (insert_identity k s st) a = (if a = k then id_trust_score (si_identity s) else get_agent_trust st a)"
  by (simp add: get_agent_trust_def)

lemma identity_of_challenges [simp]: "identity_of (ns_challenges_update f st) a = identity_of st a"
  by (simp add: identity_of_def)

lemma trust_exec: "trust_ok st \<Longrightarrow> hydrates_ok p \<Longrightarrow> trust_ok (nhi_exec l seed p st)"
proof (cases p)
  case (Challenge c nonce now stamped a)
  then show "trust_ok st \<Longrightarrow> ?thesis"
    by (simp add: trust_ok_def get_agent_trust_def create_challenge_def Let_def split: option.split)
next
  case (Verify now a c sig1)
  have "get_agent_trust (snd (verify_attestation l now a c sig1 st)) x = get_agent_trust st x" for x
    by (simp add: get_agent_trust_def verify_attestation_def Let_def split: option.split)
  then show "trust_ok st \<Longrightarrow> ?thesis" using Verify by (simp add: trust_ok_def)
next
  case (Trust a d r)
  then show "trust_ok st \<Longrightarrow> ?thesis"
    by (simp add: trust_ok_def update_trust_from_decision_def update_trust_score_def Let_def get_agent_trust_insert split: option.split)
qed (simp_all add: trust_ok_def register_identity_def hydrate_identity_def get_agent_trust_insert prune_expired_challenges_def
    nhi_reset_def nhi_empty_def get_agent_trust_def identity_of_def Let_def case_prod_beta update_conv' insert_identity_def)

lemma trust_bounded:
  assumes "\<forall>p \<in> set ops. hydrates_ok p"
  shows "0 \<le> get_agent_trust (fold (nhi_exec l seed) ops nhi_empty) a \<and> get_agent_trust (fold (nhi_exec l seed) ops nhi_empty) a \<le> 1"
proof -
  have "trust_ok st \<Longrightarrow> \<forall>p \<in> set ops. hydrates_ok p \<Longrightarrow> trust_ok (fold (nhi_exec l seed) ops st)" for st
    by (induction ops arbitrary: st) (simp_all add: trust_exec)
  moreover have "trust_ok nhi_empty" by (simp add: trust_ok_def nhi_empty_def get_agent_trust_def identity_of_def)
  ultimately show ?thesis using assms by (simp add: trust_ok_def)
qed

section \<open>Tokens\<close>

text \<open>Decoding inverts encoding, and a stored instant keeps its microseconds.\<close>

definition nhi_lib_ok :: "nhi_lib \<Rightarrow> bool" where
  "nhi_lib_ok l \<longleftrightarrow> (\<forall>b. nl_unhex l (nl_hex l b) = Some b) \<and> (\<forall>t. nl_parse_time l (nl_show_micros l t) = Some (t - t mod 1000))"

lemma token_signature_iff:
  "verify_token_signature l st token \<longleftrightarrow>
     (\<exists>stored. identity_of st (ct_agent_id token) = Some stored \<and>
        nl_unhex l (ct_signature token) = Some (nl_hmac l (si_secret_key stored)
          (as_bytes (token_payload (ct_token_id token) (ct_agent_id token) (ct_capabilities token) (ct_expires_at token)))))"
  by (auto simp: verify_token_signature_def verify_signature_def split: option.splits)

lemma token_grants_iff:
  "token_grants l now st token cap \<longleftrightarrow>
     ct_valid token \<and> verify_token_signature l st token \<and>
     (\<exists>expires. nl_parse_time l (ct_expires_at token) = Some expires \<and> now \<le> expires) \<and>
     (cap \<in> set (ct_capabilities token) \<or> CAP_WILDCARD \<in> set (ct_capabilities token))"
  by (auto simp: token_grants_def list_ex_iff split: option.splits)

text \<open>A token grants what it was issued for until it expires, and nothing else.\<close>

lemma issued_token_grants:
  assumes "nhi_lib_ok l" "issue_capability_token l k now a caps ttl st = Some token"
  shows "token_grants l later st token cap \<longleftrightarrow>
    later \<le> now + ttl * SECOND - (now + ttl * SECOND) mod 1000 \<and> (cap \<in> set caps \<or> CAP_WILDCARD \<in> set caps)"
  using assms by (auto simp: issue_capability_token_def token_grants_iff token_signature_iff sign_message_def nhi_lib_ok_def Let_def)

text \<open>A row with the same signature has the same payload, or it shows a collision of the MAC.\<close>

lemma token_tamper_evident:
  assumes "verify_token_signature l st token" "verify_token_signature l st token2"
    and "ct_agent_id token2 = ct_agent_id token" "ct_signature token2 = ct_signature token"
  shows "token_payload (ct_token_id token2) (ct_agent_id token2) (ct_capabilities token2) (ct_expires_at token2)
      = token_payload (ct_token_id token) (ct_agent_id token) (ct_capabilities token) (ct_expires_at token)
    \<or> (\<exists>k x y. x \<noteq> y \<and> nl_hmac l k x = nl_hmac l k y)"
proof -
  obtain s where s: "identity_of st (ct_agent_id token) = Some s"
    and one: "nl_unhex l (ct_signature token) = Some (nl_hmac l (si_secret_key s)
        (as_bytes (token_payload (ct_token_id token) (ct_agent_id token) (ct_capabilities token) (ct_expires_at token))))"
    using assms(1) token_signature_iff by metis
  have two: "nl_unhex l (ct_signature token) = Some (nl_hmac l (si_secret_key s)
      (as_bytes (token_payload (ct_token_id token2) (ct_agent_id token2) (ct_capabilities token2) (ct_expires_at token2))))"
    using assms(2-4) s token_signature_iff [of l st token2] by auto
  from one two show ?thesis by (metis as_bytes_inj option.inject)
qed

text \<open>The payload does not tell one capability with a comma from two.\<close>

lemma payload_splits_capabilities: "token_payload k a [x @ CHR '','' # y] e = token_payload k a [x, y] e"
  by (simp add: token_payload_def)

lemma joined_capability_widens:
  assumes "nhi_lib_ok l" "issue_capability_token l k now a [x @ '','' @ CAP_WILDCARD] ttl st = Some token"
    and "later \<le> now + ttl * SECOND - (now + ttl * SECOND) mod 1000"
  shows "token_grants l later st (token\<lparr>ct_capabilities := [x, CAP_WILDCARD]\<rparr>) cap"
  using assms by (auto simp: issue_capability_token_def token_grants_iff token_signature_iff sign_message_def nhi_lib_ok_def
      payload_splits_capabilities Let_def)

end
