(* ===== verification/Agent_Access.thy ===== *)
theory Agent_Access
  imports Agent_Identity Receipt_Logger "HOL-Library.List_Lexorder" "HOL-Library.Char_ord"
begin

text \<open>
  Who may act for an agent: the API keys and their scope (\<open>auth/middleware.rs\<close>, \<open>auth/api_keys.rs\<close>,
  the key table of \<open>storage/sqlite.rs\<close>), the cache of verified keys (\<open>auth/cache.rs\<close>), the table of
  capability tokens, and the handlers of \<open>server/create_server.rs\<close> that issue, revoke and read with
  them, all under \<open>crates/iaga-sentinel-core/src\<close>. Argon2 and the header parsing are parameters; an
  instant is a number, and a failing storage is an error that the handler is given.
\<close>

section \<open>Keys and scopes\<close>

datatype key_scope = AdminKey | AgentKey

fun scope_as_str :: "key_scope \<Rightarrow> string" where
  "scope_as_str AdminKey = ''admin''"
| "scope_as_str AgentKey = ''agent''"

definition scope_from_db :: "string \<Rightarrow> key_scope" where
  "scope_from_db raw = (if raw = ''agent'' then AgentKey else AdminKey)"

record verified_key =
  vk_key_id :: "string option"
  vk_scope :: key_scope
  vk_agent_id :: "string option"

record auth_context =
  ax_scope :: key_scope
  ax_key_id :: "string option"
  ax_agent_id :: "string option"

definition open_context :: auth_context where
  "open_context = \<lparr>ax_scope = AdminKey, ax_key_id = None, ax_agent_id = None\<rparr>"

text \<open>One row of \<open>api_keys\<close>; the verification tries the rows with the same prefix in order.\<close>

record api_key_row =
  kr_id :: string
  kr_key_hash :: string
  kr_key_prefix :: string
  kr_scope :: string
  kr_agent_id :: "string option"

definition key_prefix :: "string \<Rightarrow> string" where
  "key_prefix raw_key = take 8 raw_key"

definition store_key_scoped :: "string \<Rightarrow> string \<Rightarrow> string \<Rightarrow> key_scope \<Rightarrow> string option \<Rightarrow> api_key_row list \<Rightarrow> api_key_row list" where
  "store_key_scoped kid key_hash raw_key scope agent_id rows =
     rows @ [\<lparr>kr_id = kid, kr_key_hash = key_hash, kr_key_prefix = key_prefix raw_key, kr_scope = scope_as_str scope,
       kr_agent_id = agent_id\<rparr>]"

definition delete_key :: "string \<Rightarrow> api_key_row list \<Rightarrow> api_key_row list" where
  "delete_key kid rows = filter (\<lambda>r. kr_id r \<noteq> kid) rows"

definition verify_raw_key_scoped :: "(string \<Rightarrow> string \<Rightarrow> bool) \<Rightarrow> string \<Rightarrow> api_key_row list \<Rightarrow> verified_key option" where
  "verify_raw_key_scoped verify_key raw_key rows =
     map_option (\<lambda>r. \<lparr>vk_key_id = Some (kr_id r), vk_scope = scope_from_db (kr_scope r), vk_agent_id = kr_agent_id r\<rparr>)
       (find (\<lambda>r. verify_key raw_key (kr_key_hash r)) (filter (\<lambda>r. kr_key_prefix r = key_prefix raw_key) rows))"

definition MIN_BOOTSTRAP_LEN :: nat where
  "MIN_BOOTSTRAP_LEN = 16"

definition ascii_graphic :: "char \<Rightarrow> bool" where
  "ascii_graphic c \<longleftrightarrow> 33 \<le> (of_char c :: nat) \<and> (of_char c :: nat) \<le> 126"

definition validate_bootstrap_key :: "string \<Rightarrow> string + unit" where
  "validate_bootstrap_key raw =
     (if length raw < MIN_BOOTSTRAP_LEN then
        Inl (''must be at least '' @ show_nat MIN_BOOTSTRAP_LEN @ '' characters, got '' @ show_nat (length raw))
      else if \<not> list_all ascii_graphic raw then
        Inl (''must contain only printable ASCII with no spaces or newlines (a trailing newline from `--from-file` is the usual cause)'')
      else Inr ())"

text \<open>The scope and binding of a key to be created.\<close>

definition requested_scope :: "string option \<Rightarrow> sentinel_error + key_scope" where
  "requested_scope scope =
     (case scope of
        None \<Rightarrow> Inr AdminKey
      | Some s \<Rightarrow>
          if s = ''admin'' then Inr AdminKey else if s = ''agent'' then Inr AgentKey
          else Inl (InvalidRequest (''invalid scope `'' @ s @ ''`: expected `admin` or `agent`'')))"

definition requested_binding :: "key_scope \<Rightarrow> string option \<Rightarrow> sentinel_error + string option" where
  "requested_binding scope agent_id =
     (case scope of
        AgentKey \<Rightarrow>
          (case agent_id of
             Some a \<Rightarrow> if str_trim a \<noteq> [] then Inr (Some (str_trim a))
               else Inl (InvalidRequest ''agentId is required when scope is `agent`'')
           | None \<Rightarrow> Inl (InvalidRequest ''agentId is required when scope is `agent`''))
      | AdminKey \<Rightarrow> if agent_id \<noteq> None then Inl (InvalidRequest ''agentId is only valid when scope is `agent`'') else Inr None)"

definition authorize_agent_id :: "auth_context \<Rightarrow> string \<Rightarrow> sentinel_error + unit" where
  "authorize_agent_id ctx claimed =
     (if ax_scope ctx = AdminKey then Inr ()
      else
        (case ax_agent_id ctx of
           Some expected \<Rightarrow>
             if str_trim expected = [] then Inl AgentKeyUnbound
             else if expected = claimed then Inr () else Inl (AgentScopeMismatch expected claimed)
         | None \<Rightarrow> Inl AgentKeyUnbound))"

definition require_admin :: "auth_context option \<Rightarrow> sentinel_error + unit" where
  "require_admin ctx =
     (case ctx of Some c \<Rightarrow> if ax_scope c = AdminKey then Inr () else Inl AdminScopeRequired | None \<Rightarrow> Inl AdminScopeRequired)"

section \<open>The cache of verified keys\<close>

record cached_key =
  ck_key_id :: "string option"
  ck_scope :: key_scope
  ck_agent_id :: "string option"
  ck_inserted_at :: nat

record auth_cache =
  ac_entries :: "(bytes \<times> cached_key) list"
  ac_keys_exist :: "(bool \<times> nat) option"
  ac_ttl :: nat

definition MAX_ENTRIES :: nat where
  "MAX_ENTRIES = 1024"

definition new_cache :: "nat \<Rightarrow> auth_cache" where
  "new_cache ttl = \<lparr>ac_entries = [], ac_keys_exist = None, ac_ttl = ttl\<rparr>"

definition cache_enabled :: "auth_cache \<Rightarrow> bool" where
  "cache_enabled c \<longleftrightarrow> ac_ttl c \<noteq> 0"

definition cache_lookup :: "(bytes \<Rightarrow> bytes) \<Rightarrow> nat \<Rightarrow> string \<Rightarrow> auth_cache \<Rightarrow> auth_context option" where
  "cache_lookup h now raw_key c =
     (if \<not> cache_enabled c then None
      else
        (case map_of (ac_entries c) (h (as_bytes raw_key)) of
           None \<Rightarrow> None
         | Some e \<Rightarrow>
             if ac_ttl c < now - ck_inserted_at e then None
             else Some \<lparr>ax_scope = ck_scope e, ax_key_id = ck_key_id e, ax_agent_id = ck_agent_id e\<rparr>))"

text \<open>At the cap the entry with the smallest insertion time goes, also when the key is already there.\<close>

definition evict_oldest :: "(bytes \<times> cached_key) list \<Rightarrow> (bytes \<times> cached_key) list" where
  "evict_oldest entries =
     (if MAX_ENTRIES \<le> length entries \<and> entries \<noteq> [] then AList.delete (fst (arg_min_list (\<lambda>(_, e). ck_inserted_at e) entries)) entries
      else entries)"

definition cache_insert :: "(bytes \<Rightarrow> bytes) \<Rightarrow> nat \<Rightarrow> string \<Rightarrow> verified_key \<Rightarrow> auth_cache \<Rightarrow> auth_cache" where
  "cache_insert h now raw_key v c =
     (if \<not> cache_enabled c then c
      else c\<lparr>ac_entries := AList.update (h (as_bytes raw_key))
        \<lparr>ck_key_id = vk_key_id v, ck_scope = vk_scope v, ck_agent_id = vk_agent_id v, ck_inserted_at = now\<rparr> (evict_oldest (ac_entries c))\<rparr>)"

definition cache_remove :: "(bytes \<Rightarrow> bytes) \<Rightarrow> string \<Rightarrow> auth_cache \<Rightarrow> auth_cache" where
  "cache_remove h raw_key c = c\<lparr>ac_entries := AList.delete (h (as_bytes raw_key)) (ac_entries c)\<rparr>"

definition invalidate_key_id :: "string \<Rightarrow> auth_cache \<Rightarrow> auth_cache" where
  "invalidate_key_id kid c = c\<lparr>ac_entries := filter (\<lambda>(_, e). ck_key_id e \<noteq> Some kid) (ac_entries c)\<rparr>"

definition cache_clear :: "auth_cache \<Rightarrow> auth_cache" where
  "cache_clear c = c\<lparr>ac_entries := [], ac_keys_exist := None\<rparr>"

definition keys_exist :: "nat \<Rightarrow> auth_cache \<Rightarrow> bool option" where
  "keys_exist now c =
     (if \<not> cache_enabled c then None
      else (case ac_keys_exist c of Some (b, t) \<Rightarrow> if now - t \<le> ac_ttl c then Some b else None | None \<Rightarrow> None))"

definition set_keys_exist :: "nat \<Rightarrow> bool \<Rightarrow> auth_cache \<Rightarrow> auth_cache" where
  "set_keys_exist now b c = (if \<not> cache_enabled c then c else c\<lparr>ac_keys_exist := Some (b, now)\<rparr>)"

section \<open>The middleware\<close>

text \<open>
  A request is answered with the identity it runs under, or with 401. The part before the
  verification may already answer; else the store verifies the token, and the part after it ends the
  request. Other requests may run in between; the clock readings of one part are taken as one. \<open>listed\<close> is what \<open>list_keys\<close> returns.
\<close>

datatype auth_opening = Admitted auth_context | Unauthorized | VerifyToken string

definition auth_open ::
  "(bytes \<Rightarrow> bytes) \<Rightarrow> bool \<Rightarrow> nat \<Rightarrow> string option \<Rightarrow> sentinel_error + api_key_row list \<Rightarrow> auth_cache \<Rightarrow> auth_opening \<times> auth_cache" where
  "auth_open h open_mode now token listed c =
     (let (exist, c1) =
        (case keys_exist now c of
           Some v \<Rightarrow> (v, c)
         | None \<Rightarrow> (let e = (case listed of Inr rows \<Rightarrow> rows \<noteq> [] | Inl _ \<Rightarrow> False) in (e, set_keys_exist now e c)))
      in if \<not> exist \<and> token = None then (if open_mode then Admitted open_context else Unauthorized, c1)
         else
           (case token of
              None \<Rightarrow> (Unauthorized, c1)
            | Some t \<Rightarrow> (case cache_lookup h now t c1 of Some ctx \<Rightarrow> (Admitted ctx, c1) | None \<Rightarrow> (VerifyToken t, c1))))"

definition auth_close ::
  "(bytes \<Rightarrow> bytes) \<Rightarrow> bool \<Rightarrow> nat \<Rightarrow> string \<Rightarrow> sentinel_error + verified_key option \<Rightarrow> sentinel_error + api_key_row list \<Rightarrow> auth_cache
   \<Rightarrow> auth_context option \<times> auth_cache" where
  "auth_close h open_mode now t verified listed c =
     (case verified of
        Inr (Some v) \<Rightarrow>
          (Some \<lparr>ax_scope = vk_scope v, ax_key_id = vk_key_id v, ax_agent_id = vk_agent_id v\<rparr>,
           set_keys_exist now True (cache_insert h now t v c))
      | _ \<Rightarrow>
          if open_mode then
            (let fresh_empty = (case listed of Inr rows \<Rightarrow> rows = [] | Inl _ \<Rightarrow> False); c1 = set_keys_exist now (\<not> fresh_empty) c
             in if fresh_empty then (Some open_context, c1) else (None, cache_remove h t c1))
          else (None, cache_remove h t c))"

section \<open>Capability tokens in storage\<close>

type_synonym token_table = "(string \<times> capability_token) list"

text \<open>A second insert of an identifier updates only the validity.\<close>

definition store_capability_token :: "capability_token \<Rightarrow> token_table \<Rightarrow> token_table" where
  "store_capability_token token tbl =
     (case map_of tbl (ct_token_id token) of
        Some old \<Rightarrow> AList.update (ct_token_id token) (old\<lparr>ct_valid := ct_valid token\<rparr>) tbl
      | None \<Rightarrow> tbl @ [(ct_token_id token, token)])"

definition get_capability_token :: "token_table \<Rightarrow> string \<Rightarrow> capability_token option" where
  "get_capability_token tbl token_id = map_of tbl token_id"

definition revoke_capability_token :: "string \<Rightarrow> token_table \<Rightarrow> bool \<times> token_table" where
  "revoke_capability_token token_id tbl =
     (case map_of tbl token_id of
        Some old \<Rightarrow> (True, AList.update token_id (old\<lparr>ct_valid := False\<rparr>) tbl)
      | None \<Rightarrow> (False, tbl))"

definition prune_expired_capability_tokens :: "string \<Rightarrow> token_table \<Rightarrow> nat \<times> token_table" where
  "prune_expired_capability_tokens now_text tbl =
     (let kept = filter (\<lambda>(_, t). \<not> ct_expires_at t < now_text) tbl in (length tbl - length kept, kept))"

section \<open>Authorization and handlers\<close>

definition authorize_agent_scope ::
  "nhi_lib \<Rightarrow> int \<Rightarrow> nhi_state \<Rightarrow> (string \<Rightarrow> sentinel_error + capability_token option) \<Rightarrow> auth_context option \<Rightarrow> string option
   \<Rightarrow> string \<Rightarrow> string \<Rightarrow> sentinel_error + unit" where
  "authorize_agent_scope l now st fetch ctx presented agent_id required_capability =
     (case ctx of
        None \<Rightarrow> Inl AuthRequired
      | Some c \<Rightarrow>
          if ax_scope c = AdminKey then Inr ()
          else
            rbind (authorize_agent_id c agent_id) (\<lambda>_.
              case presented of
                Some (ch # token_id) \<Rightarrow>
                  rbind (fetch (ch # token_id)) (\<lambda>found.
                    case found of
                      None \<Rightarrow> Inl (CapabilityRequired required_capability)
                    | Some token \<Rightarrow>
                        if ct_agent_id token \<noteq> agent_id then Inl (CapabilityRequired required_capability)
                        else if \<not> token_grants l now st token required_capability then Inl (CapabilityRequired required_capability)
                        else Inr ())
              | _ \<Rightarrow> Inl (CapabilityRequired required_capability)))"

definition MAX_TTL_SECONDS :: int where
  "MAX_TTL_SECONDS = 365 * 24 * 60 * 60"

definition no_identity :: "string \<Rightarrow> sentinel_error" where
  "no_identity agent_id =
     NotFoundError (''No NHI identity for '' @ agent_id @ ''; register it with POST /v1/nhi/identities, ''
       @ ''or let the agent'' @ [CHR 0x27] @ ''s first governed action create it'')"

text \<open>\<open>store_error\<close> is the failure of the storage, if it fails.\<close>

definition issue_token_handler ::
  "nhi_lib \<Rightarrow> (int \<Rightarrow> string) \<Rightarrow> sentinel_error option \<Rightarrow> auth_context option \<Rightarrow> string \<Rightarrow> int \<Rightarrow> string \<Rightarrow> string list \<Rightarrow> int \<Rightarrow> nhi_state
   \<Rightarrow> token_table \<Rightarrow> (sentinel_error + capability_token) \<times> token_table" where
  "issue_token_handler l show_int store_error ctx token_id now agent_id capabilities ttl_seconds st tbl =
     (case require_admin ctx of
        Inl e \<Rightarrow> (Inl e, tbl)
      | Inr _ \<Rightarrow>
          if ttl_seconds \<le> 0 \<or> MAX_TTL_SECONDS < ttl_seconds then
            (Inl (InvalidRequest (''ttlSeconds must be between 1 and '' @ show_int MAX_TTL_SECONDS @ '' (one year), got '' @ show_int ttl_seconds)), tbl)
          else
            (case issue_capability_token l token_id now agent_id capabilities ttl_seconds st of
               None \<Rightarrow> (Inl (no_identity agent_id), tbl)
             | Some token \<Rightarrow>
                 (case store_error of Some e \<Rightarrow> (Inl e, tbl) | None \<Rightarrow> (Inr token, store_capability_token token tbl))))"

definition revoke_token_handler ::
  "sentinel_error option \<Rightarrow> auth_context option \<Rightarrow> string \<Rightarrow> token_table \<Rightarrow> (sentinel_error + unit) \<times> token_table" where
  "revoke_token_handler store_error ctx token_id tbl =
     (case require_admin ctx of
        Inl e \<Rightarrow> (Inl e, tbl)
      | Inr _ \<Rightarrow>
          (case store_error of
             Some e \<Rightarrow> (Inl e, tbl)
           | None \<Rightarrow>
               (case revoke_capability_token token_id tbl of
                  (True, tbl1) \<Rightarrow> (Inr (), tbl1)
                | (False, tbl1) \<Rightarrow> (Inl (NotFoundError (''Capability token not found: '' @ token_id)), tbl1))))"

definition create_challenge_handler ::
  "nhi_lib \<Rightarrow> string \<Rightarrow> string \<Rightarrow> int \<Rightarrow> int \<Rightarrow> auth_context \<Rightarrow> string \<Rightarrow> nhi_state \<Rightarrow> (sentinel_error + pending_challenge) \<times> nhi_state" where
  "create_challenge_handler l challenge_id nonce now stamped ctx agent_id st =
     (case authorize_agent_id ctx agent_id of
        Inl e \<Rightarrow> (Inl e, st)
      | Inr _ \<Rightarrow>
          (case create_challenge l challenge_id nonce now stamped agent_id st of
             (Some challenge, st1) \<Rightarrow> (Inr challenge, st1)
           | (None, st1) \<Rightarrow> (Inl (no_identity agent_id), st1)))"

definition verify_attestation_handler ::
  "nhi_lib \<Rightarrow> int \<Rightarrow> auth_context \<Rightarrow> string \<Rightarrow> string \<Rightarrow> string \<Rightarrow> nhi_state \<Rightarrow> (sentinel_error + attestation_result) \<times> nhi_state" where
  "verify_attestation_handler l now ctx agent_id challenge_id sig1 st =
     (case authorize_agent_id ctx agent_id of
        Inl e \<Rightarrow> (Inl e, st)
      | Inr _ \<Rightarrow> (case verify_attestation l now agent_id challenge_id sig1 st of (r, st1) \<Rightarrow> (Inr r, st1)))"

definition attest_handler :: "auth_context \<Rightarrow> string \<Rightarrow> nhi_state \<Rightarrow> sentinel_error + attestation_result" where
  "attest_handler ctx agent_id st = rbind (authorize_agent_id ctx agent_id) (\<lambda>_. Inr (attest_agent st agent_id))"

text \<open>The key leaves the table first and then the cache.\<close>

definition delete_api_key_handler ::
  "sentinel_error option \<Rightarrow> auth_context option \<Rightarrow> string \<Rightarrow> api_key_row list \<times> auth_cache
   \<Rightarrow> (sentinel_error + unit) \<times> api_key_row list \<times> auth_cache" where
  "delete_api_key_handler store_error ctx kid s =
     (case require_admin ctx of
        Inl e \<Rightarrow> (Inl e, s)
      | Inr _ \<Rightarrow>
          (case store_error of
             Some e \<Rightarrow> (Inl e, s)
           | None \<Rightarrow> (Inr (), delete_key kid (fst s), invalidate_key_id kid (snd s))))"

section \<open>Keys\<close>

lemma scope_from_db_as_str [simp]: "scope_from_db (scope_as_str s) = s"
  by (cases s) (simp_all add: scope_from_db_def)

text \<open>A new key verifies to the scope and agent it was created for, unless an older key matches it.\<close>

lemma find_append: "find P (xs @ ys) = (case find P xs of Some x \<Rightarrow> Some x | None \<Rightarrow> find P ys)"
  by (induction xs) simp_all

lemma stored_key_verifies:
  assumes "verify_raw_key_scoped ok raw rows = None" "ok raw hash1"
  shows "verify_raw_key_scoped ok raw (store_key_scoped k hash1 raw scope a rows)
    = Some \<lparr>vk_key_id = Some k, vk_scope = scope, vk_agent_id = a\<rparr>"
  using assms by (simp add: verify_raw_key_scoped_def store_key_scoped_def find_append)

lemma deleted_key_gone: "verify_raw_key_scoped ok raw (delete_key k rows) \<noteq> Some v \<or> vk_key_id v \<noteq> Some k"
proof -
  have "kr_id r \<noteq> k" if "find P (filter Q (delete_key k rows)) = Some r" for r P Q
    using that nth_mem by (fastforce simp: delete_key_def find_Some_iff)
  then show ?thesis by (auto simp: verify_raw_key_scoped_def)
qed

lemma authorize_agent_id_iff:
  "authorize_agent_id ctx a = Inr () \<longleftrightarrow> ax_scope ctx = AdminKey \<or> (ax_agent_id ctx = Some a \<and> str_trim a \<noteq> [])"
  by (auto simp: authorize_agent_id_def split: option.splits)

section \<open>Reading with a token\<close>

lemma scope_authorized_iff:
  "authorize_agent_scope l now st fetch (Some ctx) presented a cap = Inr () \<longleftrightarrow>
     ax_scope ctx = AdminKey \<or>
     (ax_agent_id ctx = Some a \<and> str_trim a \<noteq> [] \<and>
       (\<exists>k token. presented = Some k \<and> k \<noteq> [] \<and> fetch k = Inr (Some token) \<and> ct_agent_id token = a \<and> token_grants l now st token cap))"
  by (auto simp: authorize_agent_scope_def authorize_agent_id_iff split: option.splits list.splits if_splits)

text \<open>The answer for a missing, foreign, revoked, forged or expired token is the same.\<close>

lemma refusals_look_alike:
  assumes "authorize_agent_id ctx a = Inr ()" "ax_scope ctx = AgentKey"
  shows "authorize_agent_scope l now st (\<lambda>k. Inr (get_capability_token tbl k)) (Some ctx) presented a cap
    \<in> {Inr (), Inl (CapabilityRequired cap)}"
  using assms by (auto simp: authorize_agent_scope_def split: option.splits list.splits)

datatype token_op = Issue capability_token | Revoke string | PruneTokens string

fun token_exec :: "token_op \<Rightarrow> token_table \<Rightarrow> token_table" where
  "token_exec (Issue token) tbl = store_capability_token token tbl"
| "token_exec (Revoke k) tbl = snd (revoke_capability_token k tbl)"
| "token_exec (PruneTokens now_text) tbl = snd (prune_expired_capability_tokens now_text tbl)"

definition issues :: "string \<Rightarrow> token_op \<Rightarrow> bool" where
  "issues k p \<longleftrightarrow> (\<exists>token. p = Issue token \<and> ct_token_id token = k)"

text \<open>What becomes of one row under operations that do not insert it again.\<close>

fun row_after :: "token_op \<Rightarrow> string \<Rightarrow> capability_token option \<Rightarrow> capability_token option" where
  "row_after (Issue token) k r = r"
| "row_after (Revoke j) k r = (if j = k then map_option (\<lambda>t. t\<lparr>ct_valid := False\<rparr>) r else r)"
| "row_after (PruneTokens now_text) k r = (case r of Some t \<Rightarrow> if ct_expires_at t < now_text then None else r | None \<Rightarrow> None)"

lemma map_of_filter_snd:
  "distinct (map fst xs) \<Longrightarrow> map_of (filter (\<lambda>(_, v). P v) xs) k = (case map_of xs k of Some v \<Rightarrow> if P v then Some v else None | None \<Rightarrow> None)"
  by (induction xs) (auto simp: map_of_eq_None_iff image_iff split: option.splits)

lemma token_exec_distinct: "distinct (map fst tbl) \<Longrightarrow> distinct (map fst (token_exec p tbl))"
proof (cases p)
  case (Issue token)
  assume "distinct (map fst tbl)"
  then show ?thesis using Issue
    by (auto simp: store_capability_token_def distinct_update map_of_eq_None_iff split: option.splits)
next
  case (Revoke k)
  assume "distinct (map fst tbl)"
  then show ?thesis using Revoke by (auto simp: revoke_capability_token_def distinct_update split: option.splits)
next
  case (PruneTokens s)
  assume "distinct (map fst tbl)"
  then show ?thesis using PruneTokens
    by (simp add: prune_expired_capability_tokens_def Let_def distinct_map_filter)
qed

lemma token_exec_row:
  assumes "distinct (map fst tbl)" "\<not> issues k p"
  shows "map_of (token_exec p tbl) k = row_after p k (map_of tbl k)"
proof (cases p)
  case (Issue token)
  then have "ct_token_id token \<noteq> k" using assms(2) by (simp add: issues_def)
  then show ?thesis using Issue by (auto simp: store_capability_token_def map_add_def update_conv' split: option.splits)
next
  case (Revoke j)
  then show ?thesis by (auto simp: revoke_capability_token_def update_conv' split: option.splits)
next
  case (PruneTokens s)
  then show ?thesis using assms(1)
    by (simp add: prune_expired_capability_tokens_def Let_def map_of_filter_snd split: option.split)
qed

definition pruned :: "capability_token \<Rightarrow> token_op \<Rightarrow> bool" where
  "pruned token p \<longleftrightarrow> (\<exists>s. p = PruneTokens s \<and> ct_expires_at token < s)"

lemma pruned_valid [simp]: "pruned (token\<lparr>ct_valid := b\<rparr>) = pruned token"
  by (simp add: pruned_def fun_eq_iff)

lemma row_after_run:
  assumes "distinct (map fst tbl)" "\<forall>p \<in> set ops. \<not> issues k p" "map_of tbl k = Some token"
  shows "map_of (fold token_exec ops tbl) k =
    (if \<exists>p \<in> set ops. pruned token p then None
     else Some (token\<lparr>ct_valid := (ct_valid token \<and> Revoke k \<notin> set ops)\<rparr>))"
  using assms
proof (induction ops arbitrary: tbl token)
  case (Cons p ops)
  let ?tbl = "token_exec p tbl"
  have d: "distinct (map fst ?tbl)" using Cons.prems(1) by (rule token_exec_distinct)
  have row: "map_of ?tbl k = row_after p k (Some token)"
    using token_exec_row [OF Cons.prems(1), of k p] Cons.prems(2,3) by simp
  show ?case
  proof (cases "row_after p k (Some token)")
    case None
    then have "pruned token p" by (cases p) (auto simp: pruned_def split: if_splits)
    moreover have "map_of s k = None \<Longrightarrow> distinct (map fst s) \<Longrightarrow> map_of (fold token_exec ops s) k = None" for s
      using Cons.prems(2)
    proof (induction ops arbitrary: s)
      case (Cons q qs)
      have "map_of (token_exec q s) k = None"
        using token_exec_row [OF Cons.prems(2), of k q] Cons.prems(1,3) by (cases q) simp_all
      then show ?case using Cons token_exec_distinct by simp
    qed simp
    ultimately show ?thesis using row None d by simp
  next
    case (Some token2)
    have keep: "\<not> pruned token p"
      "token2 = token\<lparr>ct_valid := (ct_valid token \<and> p \<noteq> Revoke k)\<rparr>"
      using Some by (cases p; auto simp: pruned_def split: if_splits)+
    have "map_of (fold token_exec ops ?tbl) k =
        (if \<exists>q \<in> set ops. pruned token2 q then None else Some (token2\<lparr>ct_valid := (ct_valid token2 \<and> Revoke k \<notin> set ops)\<rparr>))"
      using Cons.IH [OF d _ ] row Some Cons.prems(2) by simp
    then have "map_of (fold token_exec ops ?tbl) k =
        (if \<exists>q \<in> set ops. pruned token q then None
         else Some (token\<lparr>ct_valid := (ct_valid token \<and> p \<noteq> Revoke k \<and> Revoke k \<notin> set ops)\<rparr>))"
      unfolding keep(2) by simp
    then show ?thesis using keep(1) by (simp add: eq_commute [of p])
  qed
qed simp

lemma token_grants_cong: "identity_of st2 (ct_agent_id token) = identity_of st (ct_agent_id token) \<Longrightarrow> token_grants l now st2 token cap = token_grants l now st token cap"
  by (simp add: token_grants_iff token_signature_iff)

lemma token_grants_valid: "token_grants l now st (token\<lparr>ct_valid := (ct_valid token \<and> b)\<rparr>) cap \<longleftrightarrow> b \<and> token_grants l now st token cap"
  by (auto simp: token_grants_iff token_signature_iff)

lemma issued_row:
  assumes "issue_token_handler l show_int None ctx k now a caps ttl st tbl = (Inr token, tbl1)" "map_of tbl k = None"
  shows "issue_capability_token l k now a caps ttl st = Some token" "tbl1 = tbl @ [(k, token)]"
    "ct_token_id token = k" "ct_agent_id token = a"
  using assms by (auto simp: issue_token_handler_def issue_capability_token_def store_capability_token_def Let_def
      split: sum.splits if_splits option.splits)

text \<open>
  C2. The life of a capability token. Once an administrator has issued a token for an agent, and
  whatever is issued, revoked or pruned after that, an agent key reads the data of an agent with it
  exactly when the key and the token belong to that agent, the token names the capability or the
  wildcard, its time has not passed, and it was neither revoked nor pruned. A revoked token never
  grants again, and no token opens the data of another agent.
\<close>

theorem capability_token_lifecycle:
  assumes "nhi_lib_ok l" "issue_token_handler l show_int None admin k now a caps ttl st tbl = (Inr token, tbl1)"
    and "distinct (map fst tbl)" "map_of tbl k = None" "k \<noteq> []" "\<forall>p \<in> set ops. \<not> issues k p"
    and "ax_scope ctx = AgentKey" "identity_of st2 a = identity_of st a"
  shows "authorize_agent_scope l later st2 (\<lambda>j. Inr (get_capability_token (fold token_exec ops tbl1) j)) (Some ctx) (Some k) b cap = Inr () \<longleftrightarrow>
    b = a \<and> ax_agent_id ctx = Some a \<and> str_trim a \<noteq> [] \<and> (cap \<in> set caps \<or> CAP_WILDCARD \<in> set caps)
    \<and> later \<le> now + ttl * SECOND - (now + ttl * SECOND) mod 1000
    \<and> Revoke k \<notin> set ops \<and> \<not> (\<exists>p \<in> set ops. pruned token p)"
proof -
  note row = issued_row [OF assms(2,4)]
  have "k \<notin> fst ` set tbl" using assms(4) by (simp add: map_of_eq_None_iff)
  then have "distinct (map fst tbl1)" "map_of tbl1 k = Some token"
    using assms(3,4) by (simp_all add: row(2) map_add_def)
  from row_after_run [OF this(1) assms(6) this(2)]
  have found: "map_of (fold token_exec ops tbl1) k =
      (if \<exists>p \<in> set ops. pruned token p then None else Some (token\<lparr>ct_valid := (ct_valid token \<and> Revoke k \<notin> set ops)\<rparr>))" .
  have grants: "token_grants l later st2 (token\<lparr>ct_valid := (ct_valid token \<and> Revoke k \<notin> set ops)\<rparr>) cap \<longleftrightarrow>
      Revoke k \<notin> set ops \<and> later \<le> now + ttl * SECOND - (now + ttl * SECOND) mod 1000 \<and> (cap \<in> set caps \<or> CAP_WILDCARD \<in> set caps)"
    unfolding token_grants_valid
    using token_grants_cong [of st2 token st] issued_token_grants [OF assms(1) row(1)] assms(8) row(4) by simp
  show ?thesis
    unfolding scope_authorized_iff get_capability_token_def
    using assms(5,7) grants row(4) by (auto simp: found)
qed

section \<open>Every admitted request was verified\<close>

definition entry_of :: "verified_key \<Rightarrow> nat \<Rightarrow> cached_key" where
  "entry_of v now = \<lparr>ck_key_id = vk_key_id v, ck_scope = vk_scope v, ck_agent_id = vk_agent_id v, ck_inserted_at = now\<rparr>"

definition context_of :: "cached_key \<Rightarrow> auth_context" where
  "context_of e = \<lparr>ax_scope = ck_scope e, ax_key_id = ck_key_id e, ax_agent_id = ck_agent_id e\<rparr>"

text \<open>
  The states of the cache, and the verifications the store has answered: requests in any
  interleaving of their two parts, deletions, and clearing.
\<close>

inductive auth_reachable :: "(bytes \<Rightarrow> bytes) \<Rightarrow> bool \<Rightarrow> nat \<Rightarrow> auth_cache \<Rightarrow> (bytes \<times> cached_key) set \<Rightarrow> bool"
  for h open_mode ttl where
  start: "auth_reachable h open_mode ttl (new_cache ttl) {}"
| opens: "auth_reachable h open_mode ttl c vs \<Longrightarrow> auth_reachable h open_mode ttl (snd (auth_open h open_mode now token listed c)) vs"
| closes: "auth_reachable h open_mode ttl c vs \<Longrightarrow>
    auth_reachable h open_mode ttl (snd (auth_close h open_mode now t verified listed c))
      (case verified of Inr (Some v) \<Rightarrow> insert (h (as_bytes t), entry_of v now) vs | _ \<Rightarrow> vs)"
| deletes: "auth_reachable h open_mode ttl c vs \<Longrightarrow> auth_reachable h open_mode ttl (invalidate_key_id k c) vs"
| clears: "auth_reachable h open_mode ttl c vs \<Longrightarrow> auth_reachable h open_mode ttl (cache_clear c) vs"

lemma set_keys_exist_keeps [simp]: "ac_entries (set_keys_exist now b c) = ac_entries c" "ac_ttl (set_keys_exist now b c) = ac_ttl c"
  by (simp_all add: set_keys_exist_def)

lemma auth_open_keeps [simp]:
  "ac_entries (snd (auth_open h m now token listed c)) = ac_entries c" "ac_ttl (snd (auth_open h m now token listed c)) = ac_ttl c"
  by (auto simp: auth_open_def Let_def split: option.splits)

lemma set_delete_subset: "set (AList.delete k xs) \<subseteq> set xs"
  by (auto simp: AList.delete_eq)

lemma set_update_subset: "set (AList.update k v xs) \<subseteq> insert (k, v) (set xs)"
  by (induction xs) auto

lemma cache_insert_subset: "set (ac_entries (cache_insert h now t v c)) \<subseteq> insert (h (as_bytes t), entry_of v now) (set (ac_entries c))"
proof -
  have "set (evict_oldest (ac_entries c)) \<subseteq> set (ac_entries c)" by (simp add: evict_oldest_def set_delete_subset)
  then show ?thesis using set_update_subset [of "h (as_bytes t)" "entry_of v now" "evict_oldest (ac_entries c)"]
    by (simp add: cache_insert_def entry_of_def) blast
qed

lemma cache_remove_keeps [simp]:
  "ac_entries (cache_remove h t c) = AList.delete (h (as_bytes t)) (ac_entries c)" "ac_ttl (cache_remove h t c) = ac_ttl c"
  by (simp_all add: cache_remove_def)

lemma auth_close_other:
  assumes "\<nexists>v. verified = Inr (Some v)"
  shows "ac_ttl (snd (auth_close h m now t verified listed c)) = ac_ttl c
    \<and> set (ac_entries (snd (auth_close h m now t verified listed c))) \<subseteq> set (ac_entries c)"
proof (cases verified)
  case (Inl e)
  then show ?thesis by (simp add: auth_close_def Let_def set_delete_subset)
next
  case (Inr r)
  then have "r = None" using assms by (cases r) simp_all
  then show ?thesis using Inr by (simp add: auth_close_def Let_def set_delete_subset)
qed

lemma cache_invariant:
  "auth_reachable h m ttl c vs \<Longrightarrow> set (ac_entries c) \<subseteq> vs \<and> ac_ttl c = ttl"
proof (induction rule: auth_reachable.induct)
  case (closes c vs now t verified listed)
  have ins: "set (ac_entries (cache_insert h now t v c)) \<subseteq> insert (h (as_bytes t), entry_of v now) vs" for v
    using order_trans [OF cache_insert_subset insert_mono] closes.IH by simp
  have ttl: "ac_ttl (cache_insert h now t v c) = ttl" for v using closes.IH by (simp add: cache_insert_def)
  show ?case
  proof (cases "\<exists>v. verified = Inr (Some v)")
    case True
    then obtain v where "verified = Inr (Some v)" by blast
    then show ?thesis using ins [of v] ttl [of v] by (simp add: auth_close_def)
  next
    case False
    then have "ac_ttl (snd (auth_close h m now t verified listed c)) = ac_ttl c
      \<and> set (ac_entries (snd (auth_close h m now t verified listed c))) \<subseteq> set (ac_entries c)" by (rule auth_close_other)
    then show ?thesis using False closes.IH by (cases verified; cases "projr verified") auto
  qed
qed (auto simp: new_cache_def invalidate_key_id_def cache_clear_def)

text \<open>
  A request is admitted as an identity that the store verified for a token with the same SHA-256, at
  most the time to live ago; only open mode admits without a key, and then only when no key exists.
\<close>

lemma admitted_was_verified:
  assumes "auth_reachable h m ttl c vs" "fst (auth_open h m now token listed c) = Admitted ctx"
  shows "(m \<and> token = None \<and> ctx = open_context)
    \<or> (\<exists>t e. token = Some t \<and> (h (as_bytes t), e) \<in> vs \<and> now - ck_inserted_at e \<le> ttl \<and> ctx = context_of e)"
proof -
  have inv1: "set (ac_entries c) \<subseteq> vs" "ac_ttl c = ttl" using cache_invariant [OF assms(1)] by simp_all
  have look: "\<exists>e. (h (as_bytes t), e) \<in> vs \<and> now - ck_inserted_at e \<le> ttl \<and> ctx = context_of e"
    if "cache_lookup h now t d = Some ctx" "ac_entries d = ac_entries c" "ac_ttl d = ac_ttl c" for t d
    using that inv1 by (auto simp: cache_lookup_def context_of_def split: if_splits option.splits dest!: map_of_SomeD)
  define r where "r = (case keys_exist now c of Some v \<Rightarrow> (v, c)
      | None \<Rightarrow> (let e = (case listed of Inr rows \<Rightarrow> rows \<noteq> [] | Inl _ \<Rightarrow> False) in (e, set_keys_exist now e c)))"
  have keep: "ac_entries (snd r) = ac_entries c" "ac_ttl (snd r) = ac_ttl c" by (simp_all add: r_def Let_def split: option.split)
  show ?thesis
  proof (cases token)
    case None
    then show ?thesis using assms(2) by (auto simp: auth_open_def Let_def case_prod_beta split: if_splits option.splits)
  next
    case (Some t)
    then have "cache_lookup h now t (snd r) = Some ctx"
      using assms(2) by (auto simp: auth_open_def r_def Let_def split: option.splits)
    from look [OF this keep] show ?thesis using Some by blast
  qed
qed

lemma closing_admits:
  "fst (auth_close h m now t verified listed c) = Some ctx \<Longrightarrow>
     (\<exists>v. verified = Inr (Some v) \<and> ctx = context_of (entry_of v now)) \<or> (m \<and> listed = Inr [] \<and> ctx = open_context)"
  by (auto simp: auth_close_def context_of_def entry_of_def Let_def split: sum.splits option.splits if_splits)

text \<open>A deletion empties the cache of the key; a verification that was under way puts it back.\<close>

lemma deletion_is_immediate:
  "distinct (map fst (ac_entries c)) \<Longrightarrow> cache_lookup h now t (invalidate_key_id k c) \<noteq> Some \<lparr>ax_scope = s, ax_key_id = Some k, ax_agent_id = a\<rparr>"
  by (auto simp: cache_lookup_def invalidate_key_id_def split: if_splits option.splits dest!: map_of_SomeD)

lemma deleted_key_survives_race:
  assumes "ac_ttl c \<noteq> 0" "later - now \<le> ac_ttl c"
  shows "cache_lookup h later t (snd (auth_close h m now t (Inr (Some v)) listed (invalidate_key_id k c)))
    = Some (context_of (entry_of v now))"
  using assms by (simp add: auth_close_def cache_insert_def cache_lookup_def cache_enabled_def invalidate_key_id_def set_keys_exist_def
      context_of_def entry_of_def update_conv')

section \<open>Witness\<close>

definition demo_nhi_lib :: nhi_lib where
  "demo_nhi_lib = \<lparr>nl_hmac = (\<lambda>k m. k @ m), nl_hex = map (\<lambda>b. char_of (unat b)), nl_unhex = (\<lambda>s. Some (map (\<lambda>ch. of_nat (of_char ch)) s)),
     nl_parse_time = (\<lambda>s. Some ((if CHR ''-'' \<in> set s then - int (length s) else int (length s)) * 1000)),
     nl_show_time = (\<lambda>_. []), nl_show_micros = (\<lambda>t. replicate (nat \<bar>t div 1000\<bar>) (if t < 0 then CHR ''-'' else CHR ''+''))\<rparr>"

lemma demo_nhi_lib_ok: "nhi_lib_ok demo_nhi_lib"
proof -
  have b: "word_of_nat (unat b mod 256) = b" for b :: byte
  proof -
    have "unat b < 2 ^ LENGTH(8)" by (rule unsigned_less)
    then show ?thesis by simp
  qed
  have "nl_parse_time demo_nhi_lib (nl_show_micros demo_nhi_lib t) = Some (t div 1000 * 1000)" for t
  proof (cases "t < 0")
    case True
    then have "t div 1000 < 0" by (simp add: pos_imp_zdiv_neg_iff)
    then show ?thesis using True by (simp add: demo_nhi_lib_def)
  next
    case False
    then have "0 \<le> t div 1000" by (simp add: pos_imp_zdiv_nonneg_iff)
    then show ?thesis using False by (simp add: demo_nhi_lib_def)
  qed
  then show ?thesis by (simp add: nhi_lib_ok_def minus_mod_eq_div_mult demo_nhi_lib_def b o_def)
qed

definition demo_nhi_state :: nhi_state where
  "demo_nhi_state = snd (register_identity demo_nhi_lib [] 0 ''a'' None [] nhi_empty)"

theorem capability_token_lifecycle_witness:
  "\<exists>token tbl1. issue_token_handler demo_nhi_lib (\<lambda>_. []) None (Some open_context) ''k'' 0 ''a'' [CAP_READ_SELF] 60 demo_nhi_state [] = (Inr token, tbl1)
    \<and> authorize_agent_scope demo_nhi_lib 0 demo_nhi_state (\<lambda>j. Inr (get_capability_token tbl1 j))
        (Some \<lparr>ax_scope = AgentKey, ax_key_id = None, ax_agent_id = Some ''a''\<rparr>) (Some ''k'') ''a'' CAP_READ_SELF = Inr ()
    \<and> authorize_agent_scope demo_nhi_lib 0 demo_nhi_state (\<lambda>j. Inr (get_capability_token (fold token_exec [Revoke ''k''] tbl1) j))
        (Some \<lparr>ax_scope = AgentKey, ax_key_id = None, ax_agent_id = Some ''a''\<rparr>) (Some ''k'') ''a'' CAP_READ_SELF \<noteq> Inr ()"
proof -
  have "\<exists>s. identity_of demo_nhi_state ''a'' = Some s"
    by (simp add: demo_nhi_state_def register_identity_def derive_keypair_def Let_def)
  then obtain token tbl1 where issued:
    "issue_token_handler demo_nhi_lib (\<lambda>_. []) None (Some open_context) ''k'' 0 ''a'' [CAP_READ_SELF] 60 demo_nhi_state [] = (Inr token, tbl1)"
    by (auto simp: issue_token_handler_def require_admin_def open_context_def MAX_TTL_SECONDS_def issue_capability_token_def Let_def)
  note life = capability_token_lifecycle [OF demo_nhi_lib_ok issued]
  have trim: "str_trim ''a'' \<noteq> []" by code_simp
  let ?ctx = "\<lparr>ax_scope = AgentKey, ax_key_id = None, ax_agent_id = Some ''a''\<rparr>"
  have "authorize_agent_scope demo_nhi_lib 0 demo_nhi_state (\<lambda>j. Inr (get_capability_token (fold token_exec [] tbl1) j)) (Some ?ctx) (Some ''k'') ''a'' CAP_READ_SELF = Inr ()"
    by (subst life) (simp_all add: trim SECOND_def)
  moreover have "authorize_agent_scope demo_nhi_lib 0 demo_nhi_state (\<lambda>j. Inr (get_capability_token (fold token_exec [Revoke ''k''] tbl1) j)) (Some ?ctx) (Some ''k'') ''a'' CAP_READ_SELF \<noteq> Inr ()"
    by (subst life) (simp_all add: issues_def)
  ultimately show ?thesis using issued unfolding fold_simps(1) by blast
qed

end
