(* ===== verification/Formal_Verify.thy ===== *)
theory Formal_Verify
  imports Policy_Properties Rules_Engine Rust_Floats
begin

text \<open>
  The policy checker of \<open>crates/iaga-sentinel-core/src/modules/policy/formal_verify.rs\<close>, which reports
  contradictions, coverage and satisfiability of a workspace policy, and how its claims relate to the
  evaluation it describes. A hash map is walked in the order of first insertion, which the language
  leaves open.
\<close>

section \<open>Reports\<close>

record policy_issue =
  is_severity :: string
  is_category :: string
  is_description :: string
  is_affected_tools :: "string list"
  is_suggestion :: string

record coverage_report =
  cv_total_action_types :: nat
  cv_covered_action_types :: nat
  cv_coverage_pct :: rat
  cv_uncovered :: "string list"
  cv_tools_with_no_actions :: "string list"

record verification_result =
  vr_workspace_id :: string
  vr_consistent :: bool
  vr_complete :: bool
  vr_satisfiable :: bool
  vr_issues :: "policy_issue list"
  vr_coverage :: coverage_report
  vr_timestamp :: u64

definition all_action_types :: "action_type list" where
  "all_action_types = [Shell, FileRead, FileWrite, Http, DbQuery, Email, Custom]"

fun action_type_name :: "action_type \<Rightarrow> string" where
  "action_type_name Shell = ''shell''"
| "action_type_name FileRead = ''file_read''"
| "action_type_name FileWrite = ''file_write''"
| "action_type_name Http = ''http''"
| "action_type_name DbQuery = ''db_query''"
| "action_type_name Email = ''email''"
| "action_type_name Custom = ''custom''"

definition issue :: "string \<Rightarrow> string \<Rightarrow> string \<Rightarrow> string list \<Rightarrow> string \<Rightarrow> policy_issue" where
  "issue severity category description tools suggestion =
     \<lparr>is_severity = severity, is_category = category, is_description = description, is_affected_tools = tools, is_suggestion = suggestion\<rparr>"

definition quoted_tool :: "string \<Rightarrow> string" where
  "quoted_tool name = ''Tool '' @ [CHR 0x27] @ name @ [CHR 0x27]"

section \<open>Consistency\<close>

definition entries_of :: "workspace_policy \<Rightarrow> string \<Rightarrow> tool_policy list" where
  "entries_of wp name = filter (\<lambda>t. tp_tool_name t = name) (wp_tools wp)"

definition debug_set :: "string list \<Rightarrow> string" where
  "debug_set xs = ''{'' @ join_with '', '' (map (\<lambda>s. [CHR 0x22] @ s @ [CHR 0x22]) xs) @ ''}''"

definition duplicate_issues :: "workspace_policy \<Rightarrow> policy_issue list" where
  "duplicate_issues wp =
     concat (map (\<lambda>name.
       (let entries = entries_of wp name; decisions = remdups (map (debug_decision \<circ> tp_max_decision) entries) in
        if 1 < length entries \<and> 1 < length decisions
        then [issue ''critical'' ''contradiction''
          (quoted_tool name @ '' has '' @ show_nat (length entries) @ '' duplicate entries with conflicting decisions: '' @ debug_set decisions)
          [name] ''Remove duplicate tool entries and keep one authoritative definition'']
        else [])) (remdups (map tp_tool_name (wp_tools wp))))"

definition review_issue :: "tool_policy \<Rightarrow> policy_issue list" where
  "review_issue t =
     (if tp_requires_human_review t \<and> tp_max_decision t = GAllow
      then [issue ''high'' ''contradiction''
        (quoted_tool (tp_tool_name t) @ '' requires human review but max_decision is Allow, review will never trigger'')
        [tp_tool_name t] ''Set max_decision to Review if human review is required'']
      else [])"

definition dead_issue :: "tool_policy \<Rightarrow> policy_issue list" where
  "dead_issue t =
     (if tp_allowed_action_types t = []
      then [issue ''high'' ''dead_rule''
        (quoted_tool (tp_tool_name t) @ '' has no allowed action types, all requests will be blocked'')
        [tp_tool_name t] ''Add at least one allowed action type or remove the tool entry'']
      else [])"

definition pinned_issue :: "tool_policy \<Rightarrow> policy_issue list" where
  "pinned_issue t =
     (if tp_max_decision t = GBlock \<and> tp_allowed_action_types t \<noteq> []
      then [issue ''medium'' ''contradiction''
        (quoted_tool (tp_tool_name t) @ '' has max_decision=Block but lists allowed action types, action types are meaningless'')
        [tp_tool_name t] ''Either remove allowed_action_types or change max_decision'']
      else [])"

definition check_consistency :: "workspace_policy \<Rightarrow> policy_issue list" where
  "check_consistency wp =
     duplicate_issues wp @ concat (map review_issue (wp_tools wp)) @ concat (map dead_issue (wp_tools wp)) @
     concat (map pinned_issue (wp_tools wp))"

section \<open>Completeness\<close>

definition covered_types :: "workspace_policy \<Rightarrow> string list" where
  "covered_types wp = remdups (concat (map (\<lambda>t. map action_type_name (tp_allowed_action_types t)) (wp_tools wp)))"

definition check_completeness :: "workspace_policy \<Rightarrow> policy_issue list \<times> coverage_report" where
  "check_completeness wp =
     (let covered = covered_types wp; uncovered = filter (\<lambda>n. n \<notin> set covered) (map action_type_name all_action_types)
      in (if uncovered = [] then []
          else [issue ''medium'' ''incomplete_coverage'' (''Action types not covered by any tool: ['' @ join_with '', '' uncovered @ '']'') []
            ''Add tool rules covering these action types or confirm they should be implicitly blocked''],
          \<lparr>cv_total_action_types = length all_action_types, cv_covered_action_types = length covered,
           cv_coverage_pct = (if all_action_types = [] then 100
             else fmul (fdiv (of_nat (length covered)) (of_nat (length all_action_types))) 100),
           cv_uncovered = uncovered,
           cv_tools_with_no_actions = map tp_tool_name (filter (\<lambda>t. tp_allowed_action_types t = []) (wp_tools wp))\<rparr>))"

section \<open>Satisfiability\<close>

definition PROVIDER_PREFIXES :: "string list" where
  "PROVIDER_PREFIXES = [''openai.'', ''anthropic.'', ''azure.'', ''bedrock.'', ''vertex.'', ''cohere.'', ''mistral.'']"

definition looks_like_provider_sdk :: "string \<Rightarrow> bool" where
  "looks_like_provider_sdk tool_name =
     (let lower = to_ascii_lowercase tool_name
      in list_ex (\<lambda>p. prefix p lower) PROVIDER_PREFIXES \<or> sublist ''chat.completions'' lower \<or> sublist ''model.inference'' lower)"

definition allows_type :: "action_type \<Rightarrow> tool_policy \<Rightarrow> bool" where
  "allows_type a t \<longleftrightarrow> a \<in> set (tp_allowed_action_types t)"

definition undeclared_egress :: "workspace_policy \<Rightarrow> tool_policy list" where
  "undeclared_egress wp =
     filter (\<lambda>t. allows_type Http t \<and> tp_destination_fields t = [] \<and> tp_tool_name t \<noteq> ''*'' \<and> \<not> looks_like_provider_sdk (tp_tool_name t))
       (wp_tools wp)"

definition dangerous_combo :: "tool_policy \<Rightarrow> bool" where
  "dangerous_combo t \<longleftrightarrow> tp_max_decision t = GAllow \<and> allows_type Shell t \<and> (allows_type Http t \<or> allows_type Email t)"

definition check_satisfiability :: "workspace_policy \<Rightarrow> policy_issue list" where
  "check_satisfiability wp =
     (if wp_allowed_protocols wp = []
      then [issue ''critical'' ''unsatisfiable'' ''No protocols are allowed, all requests will be blocked'' []
        ''Add at least one allowed protocol (e.g., Mcp, Acp)''] else []) @
     (if wp_tools wp = []
      then [issue ''critical'' ''unsatisfiable'' ''No tools are defined, all tool calls will be blocked'' []
        ''Define tool policies for expected tools''] else []) @
     (if wp_tools wp \<noteq> [] \<and> list_all (\<lambda>t. tp_max_decision t = GBlock) (wp_tools wp)
      then [issue ''critical'' ''unsatisfiable'' ''All tools have max_decision=Block, nothing can execute'' (map tp_tool_name (wp_tools wp))
        ''Set max_decision to Allow or Review for at least one tool''] else []) @
     (if list_ex (allows_type Http) (wp_tools wp) \<and> wp_allowed_domains wp = []
      then [issue ''high'' ''unsatisfiable'' ''Tools allow HTTP actions but no domains are whitelisted, all HTTP will be blocked''
        (map tp_tool_name (filter (allows_type Http) (wp_tools wp))) ''Add allowed domains or remove HTTP from tool action types''] else []) @
     (if undeclared_egress wp \<noteq> []
      then [issue ''medium'' ''weak-enforcement''
        (''HTTP tools do not declare destinationFields, so the domain allowlist is applied only to the legacy field names ''
          @ ''destination/url/endpoint/href and is skipped entirely for a payload that names its target anything else'')
        (map tp_tool_name (undeclared_egress wp))
        (''Add destinationFields (e.g. [destination, url, uri, endpoint, href, target]) to each tool whose destination is caller-supplied'')]
      else []) @
     map (\<lambda>t. issue ''high'' ''privilege_escalation''
       (quoted_tool (tp_tool_name t) @ '' can execute shell AND network actions with Allow, potential exfiltration path'') [tp_tool_name t]
       ''Separate shell and network capabilities into different tools, or require human review'') (filter dangerous_combo (wp_tools wp))"

definition verify_policy :: "u64 \<Rightarrow> workspace_policy \<Rightarrow> verification_result" where
  "verify_policy now wp =
     (let (completeness_issues, coverage) = check_completeness wp;
          issues = check_consistency wp @ completeness_issues @ check_satisfiability wp
      in \<lparr>vr_workspace_id = wp_workspace_id wp,
          vr_consistent = (\<not> list_ex (\<lambda>i. is_category i = ''contradiction'') issues),
          vr_complete = (100 \<le> cv_coverage_pct coverage),
          vr_satisfiable = (\<not> list_ex (\<lambda>i. is_category i = ''unsatisfiable'') issues),
          vr_issues = issues, vr_coverage = coverage, vr_timestamp = now\<rparr>)"

section \<open>What the flags mean\<close>

lemma consistency_categories: "i \<in> set (check_consistency wp) \<Longrightarrow> is_category i \<in> {''contradiction'', ''dead_rule''}"
  by (auto simp: check_consistency_def duplicate_issues_def review_issue_def dead_issue_def pinned_issue_def issue_def Let_def split: if_splits)

lemma completeness_categories: "i \<in> set (fst (check_completeness wp)) \<Longrightarrow> is_category i = ''incomplete_coverage''"
  by (auto simp: check_completeness_def issue_def Let_def split: if_splits)

lemma list_ex_singleton_if: "list_ex P (if c then [x] else []) \<longleftrightarrow> c \<and> P x"
  by simp

lemma list_ex_map: "list_ex P (map f xs) \<longleftrightarrow> list_ex (\<lambda>x. P (f x)) xs"
  by (simp add: list_ex_iff)

lemma satisfiable_iff:
  "vr_satisfiable (verify_policy now wp) \<longleftrightarrow>
     wp_allowed_protocols wp \<noteq> [] \<and> (\<exists>t \<in> set (wp_tools wp). tp_max_decision t \<noteq> GBlock)
     \<and> \<not> (list_ex (allows_type Http) (wp_tools wp) \<and> wp_allowed_domains wp = [])"
proof -
  have "vr_satisfiable (verify_policy now wp) \<longleftrightarrow> \<not> list_ex (\<lambda>i. is_category i = ''unsatisfiable'') (check_satisfiability wp)"
    using consistency_categories [of _ wp] completeness_categories [of _ wp]
    by (fastforce simp: verify_policy_def Let_def case_prod_beta list_ex_iff)
  also have "\<dots> \<longleftrightarrow> wp_allowed_protocols wp \<noteq> [] \<and> wp_tools wp \<noteq> [] \<and> \<not> list_all (\<lambda>t. tp_max_decision t = GBlock) (wp_tools wp)
     \<and> \<not> (list_ex (allows_type Http) (wp_tools wp) \<and> wp_allowed_domains wp = [])"
    unfolding check_satisfiability_def list_ex_append list_ex_singleton_if list_ex_map issue_def policy_issue.simps
    by (auto simp: list_ex_iff)
  finally show ?thesis by (auto simp: list_all_iff)
qed

section \<open>Claims about the evaluation\<close>

lemma tool_of_member: "tool_of input wp = Some t \<Longrightarrow> t \<in> set (wp_tools wp)"
  by (auto simp: tool_of_def find_Some_iff)

lemma blocked_by_demand: "GBlock \<in> set (policy_demands input profile wp protocol) \<Longrightarrow> pe_minimum_decision (evaluate_policy input profile wp protocol) = GBlock"
  by (simp only: policy_decision foldr_max_GBlock)

text \<open>The critical issues are right: such a policy blocks every request.\<close>

lemma unsatisfiable_policy_blocks:
  assumes "wp_allowed_protocols wp = [] \<or> (\<forall>t \<in> set (wp_tools wp). tp_max_decision t = GBlock \<or> tp_allowed_action_types t = [])"
  shows "pe_minimum_decision (evaluate_policy input profile wp protocol) = GBlock"
proof (cases "wp_allowed_protocols wp = []")
  case True
  then show ?thesis by (intro blocked_by_demand) (simp add: policy_demands_def needs_def)
next
  case False
  then have "tool_demand input (tool_of input wp) = GBlock"
    using assms tool_of_member [of input wp] by (cases "tool_of input wp") (auto simp: tool_demand_def needs_def)
  then show ?thesis by (intro blocked_by_demand) (simp add: policy_demands_def)
qed

text \<open>Review is required whatever the ceiling of the tool: the claim of \<open>review_issue\<close> is wrong.\<close>

lemma review_triggers_under_allow:
  assumes "tool_of input wp = Some t" "tp_requires_human_review t"
  shows "GReview \<le> pe_minimum_decision (evaluate_policy input profile wp protocol)"
proof -
  have "GReview \<le> tool_demand input (tool_of input wp)" using assms by (simp add: tool_demand_def needs_def le_max_iff_disj)
  moreover have "d \<le> foldr max ds GAllow" if "d \<in> set ds" for d :: governance_decision and ds
    using that by (induction ds) (auto simp: le_max_iff_disj)
  moreover have "tool_demand input (tool_of input wp) \<in> set (policy_demands input profile wp protocol)"
    by (simp add: policy_demands_def)
  ultimately show ?thesis unfolding policy_decision by (meson order_trans)
qed

text \<open>HTTP without a domain list is not blocked when the payload names no host: that claim is wrong too.\<close>

lemma http_without_domains_runs:
  assumes "tool_of input wp = Some t" "allows_type Http t" "tp_destination_fields t = []" "tp_max_decision t = GAllow"
    and "\<not> tp_requires_human_review t" "ad_action_type (ir_action input) = Http" "ad_payload (ir_action input) = []"
    and "protocol \<in> set (wp_allowed_protocols wp)" "ad_tool_name (ir_action input) \<in> set (ap_approved_tools profile)"
    and "Http \<in> set (ap_baseline_action_types profile)"
  shows "pe_minimum_decision (evaluate_policy input profile wp protocol) = GAllow"
proof -
  have "request_destinations input wp = []"
    using assms by (simp add: request_destinations_def declared_fields_def destinations_of_def extract_destination_def
        first_present_key_def List.map_filter_def str_field_def)
  moreover have "\<not> sweep_hits input wp []" using assms by (simp add: sweep_hits_def scan_undeclared_hosts_def)
  ultimately show ?thesis
    using assms unfolding policy_decision foldr_max_GAllow
    by (simp add: policy_demands_def tool_demand_def needs_def declared_fields_def allows_type_def)
qed

text \<open>A policy whose only tool has no action type passes every check of the summary and runs nothing.\<close>

definition dead_workspace :: workspace_policy where
  "dead_workspace = \<lparr>wp_workspace_id = ''w'', wp_tenant_id = None, wp_allowed_protocols = [Mcp],
     wp_tools = [\<lparr>tp_tool_name = ''t'', tp_allowed_action_types = [], tp_max_decision = GAllow, tp_requires_human_review = False,
       tp_destination_fields = []\<rparr>], wp_allowed_domains = [], wp_threshold_block = 70, wp_threshold_review = 35\<rparr>"

lemma dead_policy_passes:
  "vr_consistent (verify_policy now dead_workspace)" "vr_satisfiable (verify_policy now dead_workspace)"
  "pe_minimum_decision (evaluate_policy input profile dead_workspace protocol) = GBlock"
proof -
  show "vr_consistent (verify_policy now dead_workspace)"
    by (simp add: verify_policy_def check_consistency_def duplicate_issues_def entries_of_def review_issue_def dead_issue_def
        pinned_issue_def check_completeness_def check_satisfiability_def undeclared_egress_def dangerous_combo_def allows_type_def
        issue_def dead_workspace_def Let_def)
  show "vr_satisfiable (verify_policy now dead_workspace)"
    unfolding satisfiable_iff by (simp add: dead_workspace_def allows_type_def)
  show "pe_minimum_decision (evaluate_policy input profile dead_workspace protocol) = GBlock"
    by (rule unsatisfiable_policy_blocks) (simp add: dead_workspace_def)
qed

section \<open>Coverage\<close>

lemma action_type_name_inj: "action_type_name a = action_type_name b \<longleftrightarrow> a = b"
  by (cases a; cases b) simp_all

lemma in_all_action_types: "a \<in> set all_action_types"
  by (cases a) (simp_all add: all_action_types_def)

lemma covered_set: "set (covered_types wp) = action_type_name ` (\<Union>t \<in> set (wp_tools wp). set (tp_allowed_action_types t))"
  by (auto simp: covered_types_def)

lemma covered_length: "length (covered_types wp) = card (\<Union>t \<in> set (wp_tools wp). set (tp_allowed_action_types t))"
proof -
  have "length (covered_types wp) = card (set (covered_types wp))"
    unfolding covered_types_def by (metis distinct_card distinct_remdups)
  also have "\<dots> = card (\<Union>t \<in> set (wp_tools wp). set (tp_allowed_action_types t))"
    unfolding covered_set by (rule card_image) (simp add: inj_on_def action_type_name_inj)
  finally show ?thesis .
qed

lemma types_set: "set all_action_types = UNIV" "card (UNIV :: action_type set) = 7"
proof -
  show u: "set all_action_types = UNIV" using in_all_action_types by blast
  have "card (set all_action_types) = length all_action_types" by (rule distinct_card) (simp add: all_action_types_def)
  then show "card (UNIV :: action_type set) = 7" unfolding u by (simp add: all_action_types_def)
qed

text \<open>The percentage, in floating point, reaches one hundred exactly at full coverage.\<close>

lemma coverage_pct_full: "n \<le> 7 \<Longrightarrow> 100 \<le> fmul (fdiv (of_nat n) 7) 100 \<longleftrightarrow> n = 7"
proof -
  assume n: "n \<le> 7"
  have full: "fmul (fdiv (of_nat 7) 7) 100 = 100" by code_simp
  have "fmul (fdiv (of_nat n) 7) 100 < 100" if "n \<noteq> 7"
  proof -
    have "(of_nat n :: rat) / 7 \<le> 6 / 7" using that n by simp
    then have "fdiv (of_nat n) 7 \<le> 9 / 10" unfolding fdiv_def by (rule rnd64_le) simp_all
    then have "fdiv (of_nat n) 7 * 100 \<le> 90" by simp
    then have "fmul (fdiv (of_nat n) 7) 100 \<le> 91" unfolding fmul_def by (rule rnd64_le) simp_all
    then show ?thesis by simp
  qed
  then show "100 \<le> fmul (fdiv (of_nat n) 7) 100 \<longleftrightarrow> n = 7" using full by fastforce
qed

lemma complete_iff:
  "vr_complete (verify_policy now wp) \<longleftrightarrow> (\<forall>a. \<exists>t \<in> set (wp_tools wp). a \<in> set (tp_allowed_action_types t))"
proof -
  let ?C = "\<Union>t \<in> set (wp_tools wp). set (tp_allowed_action_types t)"
  have fin: "finite (UNIV :: action_type set)" using types_set(1) by (metis List.finite_set)
  have "card ?C \<le> 7" using card_mono [OF fin, of ?C] types_set(2) by simp
  then have "vr_complete (verify_policy now wp) \<longleftrightarrow> card ?C = 7"
    using coverage_pct_full [of "card ?C"]
    by (simp add: verify_policy_def check_completeness_def Let_def covered_length all_action_types_def)
  also have "\<dots> \<longleftrightarrow> ?C = UNIV" using card_subset_eq [OF fin, of ?C] types_set(2) by auto
  also have "\<dots> \<longleftrightarrow> (\<forall>a. \<exists>t \<in> set (wp_tools wp). a \<in> set (tp_allowed_action_types t))" by (auto simp: set_eq_iff)
  finally show ?thesis .
qed

end
