(* ===== verification/Mcp_Proxy.thy ===== *)
theory Mcp_Proxy
  imports Pipeline_Properties
begin

text \<open>
  The MCP proxy of \<open>crates/iaga-sentinel-core/src/mcp_proxy\<close>: it reads JSON-RPC lines from a client,
  governs every \<open>tools/call\<close> and relays the rest to a downstream server. With it come the bounded line
  reader (\<open>protocol.rs\<close>) and the cache of responses (\<open>modules/cost/cache.rs\<close>). The derived readers and
  the printer of JSON-RPC messages are parameters, as are the outcomes of reads and writes. A line
  counts as sent as soon as it is handed to the writer.
\<close>

section \<open>Messages\<close>

record json_rpc_request =
  jr_jsonrpc :: string
  jr_id :: "json option"
  jr_method :: string
  jr_params :: json

record json_rpc_error =
  je_code :: int
  je_message :: string
  je_data :: "json option"

record json_rpc_response =
  jp_jsonrpc :: string
  jp_id :: "json option"
  jp_result :: "json option"
  jp_error :: "json_rpc_error option"

record mcp_tool_call_params =
  tc_name :: string
  tc_arguments :: fields

definition rpc_success :: "json option \<Rightarrow> json \<Rightarrow> json_rpc_response" where
  "rpc_success i v = \<lparr>jp_jsonrpc = ''2.0'', jp_id = i, jp_result = Some v, jp_error = None\<rparr>"

definition rpc_error :: "json option \<Rightarrow> int \<Rightarrow> string \<Rightarrow> json_rpc_response" where
  "rpc_error i code message =
     \<lparr>jp_jsonrpc = ''2.0'', jp_id = i, jp_result = None, jp_error = Some \<lparr>je_code = code, je_message = message, je_data = None\<rparr>\<rparr>"

definition rpc_error_with_data :: "json option \<Rightarrow> int \<Rightarrow> string \<Rightarrow> json \<Rightarrow> json_rpc_response" where
  "rpc_error_with_data i code message v =
     \<lparr>jp_jsonrpc = ''2.0'', jp_id = i, jp_result = None, jp_error = Some \<lparr>je_code = code, je_message = message, je_data = Some v\<rparr>\<rparr>"

text \<open>
  What \<open>serde_json\<close> and the derived implementations provide: \<open>from_str\<close> on the two message types,
  \<open>from_value\<close> on the parameters, \<open>to_string\<close> on a request and on a response, and the text of an error.
\<close>

record rpc_lib =
  rl_read_request :: "string \<Rightarrow> string + json_rpc_request"
  rl_read_response :: "string \<Rightarrow> string + json_rpc_response"
  rl_read_call :: "json \<Rightarrow> string + mcp_tool_call_params"
  rl_show_request :: "json_rpc_request \<Rightarrow> string + string"
  rl_show_response :: "json_rpc_response \<Rightarrow> string + string"
  rl_show_error :: "sentinel_error \<Rightarrow> string"

section \<open>Bounded lines\<close>

definition MAX_LINE_BYTES :: nat where
  "MAX_LINE_BYTES = 2 * 1024 * 1024"

text \<open>
  \<open>CappedLines::next_line\<close>. The reader is the sequence of chunks that \<open>fill_buf\<close> returns; an empty one
  means the end of the input. A line over the cap is the error with the number of bytes seen.
\<close>

definition NEWLINE :: byte where
  "NEWLINE = 10"

definition take_line :: "bytes \<Rightarrow> bytes" where
  "take_line buf = (if buf \<noteq> [] \<and> last buf = 13 then butlast buf else buf)"

definition end_of_input :: "bytes \<Rightarrow> bytes option" where
  "end_of_input buf = (if buf = [] then None else Some (take_line buf))"

definition unread :: "bytes \<Rightarrow> bytes list \<Rightarrow> bytes list" where
  "unread chunk cs = (case tl (dropWhile (\<lambda>b. b \<noteq> NEWLINE) chunk) of [] \<Rightarrow> cs | r \<Rightarrow> r # cs)"

fun next_line :: "nat \<Rightarrow> bytes \<Rightarrow> bytes list \<Rightarrow> (nat + bytes option) \<times> bytes list" where
  "next_line cap buf [] = (Inr (end_of_input buf), [])"
| "next_line cap buf ([] # cs) = (Inr (end_of_input buf), [] # cs)"
| "next_line cap buf (c # cs) =
     (let buf1 = buf @ takeWhile (\<lambda>b. b \<noteq> NEWLINE) c in
      if NEWLINE \<in> set c then
        (if cap < length buf1 then (Inl (length buf1), unread c cs) else (Inr (Some (take_line buf1)), unread c cs))
      else if cap < length buf1 then (Inl (length buf1), cs)
      else next_line cap buf1 cs)"

section \<open>Interception\<close>

definition infer_action_type :: "(string \<Rightarrow> string) \<Rightarrow> string \<Rightarrow> action_type" where
  "infer_action_type lower tool =
     (let l = lower tool in
      if contains_any [''read'', ''get'', ''list'', ''search''] l then FileRead
      else if contains_any [''write'', ''create'', ''update'', ''edit''] l then FileWrite
      else if contains_any [''exec'', ''run'', ''shell'', ''bash'', ''command''] l then Shell
      else if contains_any [''http'', ''fetch'', ''request'', ''curl''] l then Http
      else if contains_any [''query'', ''sql'', ''db'', ''database''] l then DbQuery
      else if contains_any [''email'', ''mail'', ''send''] l then Email
      else Custom)"

datatype intercept_result = InterceptAllow | InterceptReview string u32 | InterceptBlock "string list" u32

definition tool_request :: "(string \<Rightarrow> string) \<Rightarrow> string \<Rightarrow> string \<Rightarrow> mcp_tool_call_params \<Rightarrow> inspect_request" where
  "tool_request lower agent session tc =
     \<lparr>ir_agent_id = agent, ir_tenant_id = None, ir_workspace_id = None, ir_framework = ''mcp'', ir_protocol = Some Mcp,
      ir_action = \<lparr>ad_action_type = infer_action_type lower (tc_name tc), ad_tool_name = tc_name tc, ad_payload = tc_arguments tc\<rparr>,
      ir_requested_secrets = None, ir_metadata = Some [(''sessionId'', JString session)], ir_usage = None\<rparr>"

definition intercept_tool_call ::
  "rpc_lib \<Rightarrow> 's pipeline_env \<Rightarrow> 's call_context \<Rightarrow> string \<Rightarrow> string \<Rightarrow> mcp_tool_call_params \<Rightarrow> 's pipeline_state
   \<Rightarrow> intercept_result \<times> 's pipeline_state" where
  "intercept_tool_call lib env cx agent session tc st =
     (case execute_pipeline_at env cx (tool_request (tl_lower (pv_taint env)) agent session tc) st of
        (Inr g, st1) \<Rightarrow>
          ((case gr_decision g of
              GAllow \<Rightarrow> InterceptAllow
            | GReview \<Rightarrow> InterceptReview (case gr_review_request_id g of Some i \<Rightarrow> i | None \<Rightarrow> []) (rs_score (gr_risk g))
            | GBlock \<Rightarrow> InterceptBlock (rs_reasons (gr_risk g)) (rs_score (gr_risk g))), st1)
      | (Inl err, st1) \<Rightarrow> (InterceptBlock [''governance pipeline error: '' @ rl_show_error lib err] 100, st1))"

section \<open>The cache of responses\<close>

record cache_key =
  ck_agent_id :: string
  ck_tool_name :: string
  ck_args_hash :: string

record cached_response =
  cr_result :: json
  cr_cost_micros :: u64
  cr_stored_at_ms :: u64

record cache_stats =
  cs_hits :: u64
  cs_misses :: u64
  cs_savings_micros :: u64

record response_cache =
  rc_entries :: "(cache_key \<times> cached_response) list"
  rc_stats :: cache_stats

definition is_cacheable :: "action_type \<Rightarrow> bool" where
  "is_cacheable a = (a = FileRead)"

fun canonical :: "(json \<Rightarrow> string) \<Rightarrow> json \<Rightarrow> string"
  and canonical_items :: "(json \<Rightarrow> string) \<Rightarrow> json list \<Rightarrow> string list"
  and canonical_fields :: "(json \<Rightarrow> string) \<Rightarrow> (string \<times> json) list \<Rightarrow> (string \<times> string) list" where
  "canonical shw (JObject fs) =
     ''{'' @ join_with '','' (map (\<lambda>kv. shw (JString (fst kv)) @ '':'' @ snd kv) (sort_key fst (canonical_fields shw fs))) @ ''}''"
| "canonical shw (JArray xs) = ''['' @ join_with '','' (canonical_items shw xs) @ '']''"
| "canonical shw JNull = shw JNull"
| "canonical shw (JBool b) = shw (JBool b)"
| "canonical shw (JNumber n) = shw (JNumber n)"
| "canonical shw (JString s) = shw (JString s)"
| "canonical_items shw [] = []"
| "canonical_items shw (x # xs) = canonical shw x # canonical_items shw xs"
| "canonical_fields shw [] = []"
| "canonical_fields shw ((k, v) # fs) = (k, canonical shw v) # canonical_fields shw fs"

definition args_hash :: "'s pipeline_env \<Rightarrow> json \<Rightarrow> string" where
  "args_hash env args = hex_encode (pv_crypto env) (sha256 (pv_crypto env) (as_bytes (canonical (pv_value_string env) args)))"

definition count_miss :: "response_cache \<Rightarrow> response_cache" where
  "count_miss c = c\<lparr>rc_stats := (rc_stats c)\<lparr>cs_misses := cs_misses (rc_stats c) + 1\<rparr>\<rparr>"

definition cache_get :: "u64 \<Rightarrow> u64 \<Rightarrow> cache_key \<Rightarrow> response_cache \<Rightarrow> cached_response option \<times> response_cache" where
  "cache_get ttl now key c =
     (case map_of (rc_entries c) key of
        Some v \<Rightarrow>
          if saturating_u64_sub now (cr_stored_at_ms v) \<le> ttl
          then (Some v, c\<lparr>rc_stats := (rc_stats c)\<lparr>cs_hits := cs_hits (rc_stats c) + 1,
                  cs_savings_micros := saturating_add (cs_savings_micros (rc_stats c)) (cr_cost_micros v)\<rparr>\<rparr>)
          else (None, count_miss (c\<lparr>rc_entries := AList.delete key (rc_entries c)\<rparr>))
      | None \<Rightarrow> (None, count_miss c))"

text \<open>\<open>min_by_key\<close> takes the first of equally old entries in the order of the map.\<close>

definition oldest_entry :: "(cache_key \<times> cached_response) list \<Rightarrow> cache_key option" where
  "oldest_entry es = (if es = [] then None else Some (fst (arg_min_list (\<lambda>kv. cr_stored_at_ms (snd kv)) es)))"

definition cache_put :: "nat \<Rightarrow> u64 \<Rightarrow> cache_key \<Rightarrow> json \<Rightarrow> u64 \<Rightarrow> response_cache \<Rightarrow> response_cache" where
  "cache_put cap now key v cost c =
     (let es = rc_entries c;
          es1 = (if cap \<le> length es \<and> map_of es key = None
                 then (case oldest_entry es of Some k \<Rightarrow> AList.delete k es | None \<Rightarrow> es) else es)
      in c\<lparr>rc_entries := AList.update key \<lparr>cr_result = v, cr_cost_micros = cost, cr_stored_at_ms = now\<rparr> es1\<rparr>)"

text \<open>\<open>Value::get\<close> on anything but an object finds nothing; \<open>as_u64\<close> and \<open>as_f64\<close> read a number.\<close>

fun json_get :: "string \<Rightarrow> json \<Rightarrow> json option" where
  "json_get k (JObject fs) = map_of fs k"
| "json_get k v = None"

definition either_field :: "string \<Rightarrow> string \<Rightarrow> json \<Rightarrow> json option" where
  "either_field j k v = or_else (json_get j v) (json_get k v)"

definition text_of :: "json option \<Rightarrow> string" where
  "text_of v = (case v of Some (JString s) \<Rightarrow> s | _ \<Rightarrow> [])"

definition count_of :: "json option \<Rightarrow> u64" where
  "count_of v = (case v of Some (JNumber (PosInt w)) \<Rightarrow> w | _ \<Rightarrow> 0)"

definition number_of :: "json option \<Rightarrow> f64 option" where
  "number_of v = (case v of Some (JNumber n) \<Rightarrow> num_as_f64 n | _ \<Rightarrow> None)"

definition estimate_cost_micros :: "(string \<Rightarrow> string) \<Rightarrow> pricing_table \<Rightarrow> json \<Rightarrow> u64" where
  "estimate_cost_micros lower pricing v =
     (case or_else (json_get ''usage'' v) (Option.bind (json_get ''_meta'' v) (json_get ''usage'')) of
        None \<Rightarrow> 0
      | Some u \<Rightarrow>
          (case number_of (either_field ''costUsd'' ''cost_usd'' u) of
             Some cost \<Rightarrow> usd_to_micros cost
           | None \<Rightarrow>
               (case table_cost_micros lower pricing (text_of (json_get ''provider'' u)) (text_of (json_get ''model'' u))
                  (count_of (either_field ''promptTokens'' ''prompt_tokens'' u))
                  (count_of (either_field ''completionTokens'' ''completion_tokens'' u)) of
                  Some w \<Rightarrow> w | None \<Rightarrow> 0)))"

section \<open>The proxy\<close>

text \<open>
  The configuration. Beside the fields of \<open>McpProxyConfig\<close> stand the constants of the process: the
  session id, made once at the start, and the two settings of the cache, read once. The child is
  started before the loop; the command, its arguments and its environment are not used after that.
\<close>

record mcp_proxy_config =
  mc_agent_id :: string
  mc_downstream_command :: string
  mc_downstream_args :: "string list"
  mc_downstream_env :: "(string \<times> string) list"
  mc_session_id :: string
  mc_cache_ttl :: u64
  mc_cache_cap :: nat

text \<open>
  What one exchange with the downstream server meets: the errors of the two writes, and what the
  reader returns (an error, the end of the input, or a line).
\<close>

record relay_io =
  io_write :: "string option"
  io_newline :: "string option"
  io_read :: "string + string option"

definition forward_and_relay :: "rpc_lib \<Rightarrow> relay_io \<Rightarrow> json_rpc_request \<Rightarrow> json_rpc_response \<times> string list" where
  "forward_and_relay lib io req =
     (case rl_show_request lib req of
        Inl e \<Rightarrow> (rpc_error (jr_id req) (- 32603) (''Failed to serialize request: '' @ e), [])
      | Inr line \<Rightarrow>
          ((case or_else (io_write io) (io_newline io) of
              Some e \<Rightarrow> rpc_error (jr_id req) (- 32603) (''Failed to write to downstream: '' @ e)
            | None \<Rightarrow>
                (case io_read io of
                   Inr (Some reply) \<Rightarrow>
                     (case rl_read_response lib reply of
                        Inr resp \<Rightarrow> resp
                      | Inl e \<Rightarrow> rpc_error (jr_id req) (- 32603) (''Invalid JSON-RPC from downstream: '' @ e))
                 | Inr None \<Rightarrow> rpc_error (jr_id req) (- 32603) ''Downstream server closed connection''
                 | Inl e \<Rightarrow> rpc_error (jr_id req) (- 32603) (''Error reading from downstream: '' @ e))), [line]))"


text \<open>The state of a proxy process, and what one line from the client meets.\<close>

record 's proxy_state =
  px_pipeline :: "'s pipeline_state"
  px_cache :: response_cache
  px_sent :: "string list"
  px_out :: "string list"

record 's proxy_call =
  pc_line :: string
  pc_context :: "'s call_context"
  pc_io :: relay_io
  pc_get_ms :: u64
  pc_put_ms :: u64

definition call_key :: "'s pipeline_env \<Rightarrow> mcp_proxy_config \<Rightarrow> mcp_tool_call_params \<Rightarrow> cache_key" where
  "call_key env cfg tc = \<lparr>ck_agent_id = mc_agent_id cfg, ck_tool_name = tc_name tc, ck_args_hash = args_hash env (to_value_object (tc_arguments tc))\<rparr>"

definition uses_cache :: "'s pipeline_env \<Rightarrow> mcp_proxy_config \<Rightarrow> mcp_tool_call_params \<Rightarrow> 's pipeline_state \<Rightarrow> bool" where
  "uses_cache env cfg tc st =
     (pv_cost_control env \<and> is_cacheable (infer_action_type (tl_lower (pv_taint env)) (tc_name tc))
      \<and> get_session_taint (ps_session_taints st) (mc_session_id cfg) = {})"

definition remember :: "'s pipeline_env \<Rightarrow> mcp_proxy_config \<Rightarrow> u64 \<Rightarrow> cache_key \<Rightarrow> json_rpc_response \<Rightarrow> response_cache \<Rightarrow> response_cache" where
  "remember env cfg now key resp c =
     (case jp_result resp of
        Some v \<Rightarrow> cache_put (mc_cache_cap cfg) now key v (estimate_cost_micros (tl_lower (pv_taint env)) (pv_pricing env) v) c
      | None \<Rightarrow> c)"

definition quoted_score :: "string \<Rightarrow> string \<Rightarrow> u32 \<Rightarrow> string" where
  "quoted_score tool what score =
     ''Tool '' @ [CHR 0x27] @ tool @ [CHR 0x27] @ what @ '' (risk score: '' @ show_nat (unat score) @ '')''"

definition review_response :: "json option \<Rightarrow> string \<Rightarrow> string \<Rightarrow> u32 \<Rightarrow> json_rpc_response" where
  "review_response i tool review score =
     rpc_error_with_data i (- 32001) (quoted_score tool '' requires human review'' score)
       (to_value_object [(''governance'', JString ''review''), (''reviewId'', JString review), (''riskScore'', ser_u32 score), (''tool'', JString tool)])"

definition block_response :: "json option \<Rightarrow> string \<Rightarrow> string list \<Rightarrow> u32 \<Rightarrow> json_rpc_response" where
  "block_response i tool why score =
     rpc_error_with_data i (- 32000) (quoted_score tool '' blocked by IAGA Sentinel governance'' score)
       (to_value_object [(''governance'', JString ''block''), (''riskScore'', ser_u32 score), (''reasons'', JArray (map JString why)), (''tool'', JString tool)])"

text \<open>An allowed call: served from the cache, or sent and remembered, or only sent.\<close>

definition allowed_call ::
  "rpc_lib \<Rightarrow> 's pipeline_env \<Rightarrow> mcp_proxy_config \<Rightarrow> 's proxy_call \<Rightarrow> json_rpc_request \<Rightarrow> mcp_tool_call_params \<Rightarrow> 's proxy_state
   \<Rightarrow> json_rpc_response \<times> 's proxy_state" where
  "allowed_call lib env cfg pc req tc st =
     (if uses_cache env cfg tc (px_pipeline st) then
        (case cache_get (mc_cache_ttl cfg) (pc_get_ms pc) (call_key env cfg tc) (px_cache st) of
           (Some v, c) \<Rightarrow> (rpc_success (jr_id req) (cr_result v), st\<lparr>px_cache := c\<rparr>)
         | (None, c) \<Rightarrow>
             (case forward_and_relay lib (pc_io pc) req of
                (resp, sent) \<Rightarrow>
                  (resp, st\<lparr>px_cache := remember env cfg (pc_put_ms pc) (call_key env cfg tc) resp c, px_sent := px_sent st @ sent\<rparr>)))
      else (case forward_and_relay lib (pc_io pc) req of (resp, sent) \<Rightarrow> (resp, st\<lparr>px_sent := px_sent st @ sent\<rparr>)))"

definition handle_tool_call ::
  "rpc_lib \<Rightarrow> 's pipeline_env \<Rightarrow> mcp_proxy_config \<Rightarrow> 's proxy_call \<Rightarrow> json_rpc_request \<Rightarrow> 's proxy_state
   \<Rightarrow> json_rpc_response \<times> 's proxy_state" where
  "handle_tool_call lib env cfg pc req st =
     (case rl_read_call lib (jr_params req) of
        Inl e \<Rightarrow> (rpc_error (jr_id req) (- 32602) (''Invalid tools/call params: '' @ e), st)
      | Inr tc \<Rightarrow>
          (case intercept_tool_call lib env (pc_context pc) (mc_agent_id cfg) (mc_session_id cfg) tc (px_pipeline st) of
             (outcome, ps) \<Rightarrow>
               (let st1 = st\<lparr>px_pipeline := ps\<rparr> in
                case outcome of
                  InterceptAllow \<Rightarrow> allowed_call lib env cfg pc req tc st1
                | InterceptReview review score \<Rightarrow> (review_response (jr_id req) (tc_name tc) review score, st1)
                | InterceptBlock why score \<Rightarrow> (block_response (jr_id req) (tc_name tc) why score, st1))))"


definition emit_response :: "rpc_lib \<Rightarrow> json_rpc_response \<times> 's proxy_state \<Rightarrow> 's proxy_state" where
  "emit_response lib r = (case rl_show_response lib (fst r) of Inr text \<Rightarrow> (snd r)\<lparr>px_out := px_out (snd r) @ [text]\<rparr> | Inl _ \<Rightarrow> snd r)"




section \<open>What reaches the downstream server\<close>







lemma emit_response_keeps [simp]:
  "px_pipeline (emit_response lib r) = px_pipeline (snd r)" "px_sent (emit_response lib r) = px_sent (snd r)"
  by (simp_all add: emit_response_def split: sum.splits)


definition granted_calls :: "stored_audit_event list \<Rightarrow> (string \<times> string) option list" where
  "granted_calls es = map (\<lambda>e. Some (ae_tool_name e, ae_input_sha256 e)) (filter (\<lambda>e. ae_decision e = GAllow) es)"



lemma granted_calls_append [simp]: "granted_calls (es @ fs) = granted_calls es @ granted_calls fs"
  by (simp add: granted_calls_def)




text \<open>The other direction: a call that the pipeline allows and the cache does not serve is sent.\<close>

lemma allowed_call_is_forwarded:
  assumes "rl_read_call lib (jr_params req) = Inr tc" "rl_show_request lib req = Inr line"
    and "execute_pipeline_at env (pc_context pc) (tool_request (tl_lower (pv_taint env)) (mc_agent_id cfg) (mc_session_id cfg) tc) (px_pipeline st) = (Inr g, ps)"
    and "gr_decision g = GAllow" "\<not> uses_cache env cfg tc ps"
  shows "px_sent (snd (handle_tool_call lib env cfg pc req st)) = px_sent st @ [line]"
  using assms by (simp add: handle_tool_call_def intercept_tool_call_def allowed_call_def forward_and_relay_def Let_def case_prod_beta)

section \<open>Lines\<close>

text \<open>
  The reader against its specification: what it returns depends on the bytes only, not on how they
  arrive in chunks. A line within the cap comes back whole and the rest stays unread; a longer one is
  refused and never returned in part.
\<close>

definition first_line :: "bytes \<Rightarrow> bytes" where
  "first_line bs = takeWhile (\<lambda>b. b \<noteq> NEWLINE) bs"

definition after_line :: "bytes \<Rightarrow> bytes" where
  "after_line bs = tl (dropWhile (\<lambda>b. b \<noteq> NEWLINE) bs)"

lemma concat_unread: "concat (unread c cs) = after_line c @ concat cs"
  by (simp add: unread_def after_line_def split: list.splits)

lemma first_line_append:
  "first_line (bs @ cs) = (if NEWLINE \<in> set bs then first_line bs else bs @ first_line cs)"
  by (induction bs) (auto simp: first_line_def)

lemma after_line_append:
  "after_line (bs @ cs) = (if NEWLINE \<in> set bs then after_line bs @ cs else after_line cs)"
  by (induction bs) (auto simp: after_line_def)

lemma first_line_plain: "NEWLINE \<notin> set bs \<Longrightarrow> first_line bs = bs"
  by (auto simp: first_line_def takeWhile_eq_all_conv)

lemma after_line_plain: "NEWLINE \<notin> set bs \<Longrightarrow> after_line bs = []"
  using after_line_append [of bs "[]"] by (simp add: after_line_def)

lemma next_line_spec:
  assumes "NEWLINE \<notin> set buf" "[] \<notin> set cs" "length buf \<le> cap"
  shows "(if length (first_line (buf @ concat cs)) \<le> cap
     then fst (next_line cap buf cs) = Inr (if buf @ concat cs = [] then None else Some (take_line (first_line (buf @ concat cs))))
       \<and> concat (snd (next_line cap buf cs)) = after_line (buf @ concat cs)
     else \<exists>n. fst (next_line cap buf cs) = Inl n \<and> cap < n)"
  using assms
proof (induction cap buf cs rule: next_line.induct)
  case (1 cap buf)
  then show ?case by (simp add: end_of_input_def first_line_plain after_line_plain)
next
  case (3 cap buf b bs cs)
  let ?c = "b # bs"
  show ?case
  proof (cases "NEWLINE \<in> set ?c")
    case True
    have nonempty: "buf @ concat (?c # cs) \<noteq> []" by simp
    from True have "first_line (buf @ concat (?c # cs)) = buf @ first_line ?c" "after_line (buf @ concat (?c # cs)) = after_line ?c @ concat cs"
      using "3.prems"(1) by (simp_all only: concat.simps first_line_append after_line_append if_True if_False)
    then show ?thesis using True nonempty unfolding next_line.simps Let_def first_line_def [symmetric]
      by (simp add: concat_unread del: concat.simps set_simps concat_eq_Nil_conv append_is_Nil_conv)
  next
    case False
    have whole: "takeWhile (\<lambda>b. b \<noteq> NEWLINE) ?c = ?c" using False by (auto simp: takeWhile_eq_all_conv)
    show ?thesis
    proof (cases "cap < length (buf @ ?c)")
      case True
      have "first_line (buf @ concat (?c # cs)) = buf @ ?c @ first_line (concat cs)"
        using "3.prems"(1) False by (simp only: concat.simps first_line_append if_False)
      then show ?thesis using True False unfolding next_line.simps Let_def whole by (simp del: set_simps)
    next
      case small: False
      have "[] \<notin> set cs" "NEWLINE \<notin> set (buf @ ?c)" using "3.prems" False by simp_all
      from "3.IH" [OF refl False _ _ this(1)] small this(2) show ?thesis
        using False unfolding next_line.simps Let_def whole by (simp del: set_simps)
    qed
  qed
qed simp

text \<open>
  A refused line is not skipped to its end: what arrives after the refusal is read as a line of its
  own. The proxy goes on reading its downstream server after such an error.
\<close>

lemma over_long_tail_is_read:
  "next_line 4 [] [as_bytes ''aaaaaa'', as_bytes ''bb'' @ [NEWLINE]] = (Inl 6, [as_bytes ''bb'' @ [NEWLINE]])"
  "next_line 4 [] [as_bytes ''bb'' @ [NEWLINE]] = (Inr (Some (as_bytes ''bb'')), [])"
  by (simp_all add: NEWLINE_def as_bytes_def unread_def take_line_def)

section \<open>Responses and the cache\<close>

text \<open>
  The order of arguments does not matter to the key of the cache.
\<close>

lemma canonical_fields_map: "canonical_fields shw fs = map (\<lambda>(k, v). (k, canonical shw v)) fs"
  by (induction fs) auto

lemma args_hash_ignores_order:
  assumes "mset fs = mset gs" "distinct (map fst fs)"
  shows "args_hash env (JObject fs) = args_hash env (JObject gs)"
proof -
  have "sort_key fst (canonical_fields shw fs) = sort_key fst (canonical_fields shw gs)" for shw
    using assms by (intro sort_key_mset) (auto simp: canonical_fields_map case_prod_beta comp_def distinct_map inj_on_def)
  then show ?thesis by (simp add: args_hash_def)
qed

text \<open>
  A response is relayed as it comes: its id is not compared with the id of the request. Whatever the
  next line of the downstream server holds becomes the answer, and is remembered as the result of
  this call when it has one.
\<close>

lemma relay_takes_next_line:
  assumes "rl_show_request lib req = Inr line" "io_write io = None" "io_newline io = None"
    and "io_read io = Inr (Some reply)" "rl_read_response lib reply = Inr resp"
  shows "forward_and_relay lib io req = (resp, [line])"
  using assms by (simp add: forward_and_relay_def or_else_def)

lemma put_then_get:
  assumes "saturating_u64_sub now2 now1 \<le> ttl"
  shows "map_option cr_result (fst (cache_get ttl now2 key (cache_put cap now1 key v cost c))) = Some v"
  using assms by (simp add: cache_get_def cache_put_def Let_def update_conv')

lemma any_result_is_cached:
  assumes "uses_cache env cfg tc (px_pipeline st)" "fst (cache_get (mc_cache_ttl cfg) (pc_get_ms pc) (call_key env cfg tc) (px_cache st)) = None"
    and "rl_show_request lib req = Inr line" "io_write (pc_io pc) = None" "io_newline (pc_io pc) = None"
    and "io_read (pc_io pc) = Inr (Some reply)" "rl_read_response lib reply = Inr resp" "jp_result resp = Some v"
    and "saturating_u64_sub (pc_get_ms pc2) (pc_put_ms pc) \<le> mc_cache_ttl cfg"
  shows "fst (allowed_call lib env cfg pc2 req2 tc (snd (allowed_call lib env cfg pc req tc st))) = rpc_success (jr_id req2) v"
    "px_sent (snd (allowed_call lib env cfg pc2 req2 tc (snd (allowed_call lib env cfg pc req tc st)))) = px_sent st @ [line]"
proof -
  let ?key = "call_key env cfg tc"
  let ?c = "snd (cache_get (mc_cache_ttl cfg) (pc_get_ms pc) ?key (px_cache st))"
  let ?p = "cache_put (mc_cache_cap cfg) (pc_put_ms pc) ?key v (estimate_cost_micros (tl_lower (pv_taint env)) (pv_pricing env) v) ?c"
  have first: "snd (allowed_call lib env cfg pc req tc st) = st\<lparr>px_cache := ?p, px_sent := px_sent st @ [line]\<rparr>"
    using assms(1,2,8) relay_takes_next_line [OF assms(3-7)] by (simp add: allowed_call_def remember_def case_prod_beta)
  obtain r c2 where "cache_get (mc_cache_ttl cfg) (pc_get_ms pc2) ?key ?p = (Some r, c2)" "cr_result r = v"
    using put_then_get [OF assms(9), of ?key "mc_cache_cap cfg" v "estimate_cost_micros (tl_lower (pv_taint env)) (pv_pricing env) v" ?c]
    by (cases "cache_get (mc_cache_ttl cfg) (pc_get_ms pc2) ?key ?p") auto
  then have "allowed_call lib env cfg pc2 req2 tc (snd (allowed_call lib env cfg pc req tc st)) =
      (rpc_success (jr_id req2) v, st\<lparr>px_cache := c2, px_sent := px_sent st @ [line]\<rparr>)"
    using assms(1) unfolding first by (simp add: allowed_call_def)
  then show "fst (allowed_call lib env cfg pc2 req2 tc (snd (allowed_call lib env cfg pc req tc st))) = rpc_success (jr_id req2) v"
    "px_sent (snd (allowed_call lib env cfg pc2 req2 tc (snd (allowed_call lib env cfg pc req tc st)))) = px_sent st @ [line]"
    by simp_all
qed

text \<open>The kind of a tool is guessed from its name: some tools that write count as reading.\<close>

lemma writing_tool_is_cacheable:
  "is_cacheable (infer_action_type id ''create_spreadsheet'')" "is_cacheable (infer_action_type id ''delete_target'')"
  by (simp_all add: is_cacheable_def infer_action_type_def contains_any_def) (code_simp+)

section \<open>Witness\<close>









end
