(* ===== verification/Plugin_Trust.thy ===== *)
theory Plugin_Trust
  imports Pipeline
begin

text \<open>
  Plugins and the trust in their files, \<open>crates/iaga-sentinel-core/src/plugins\<close>: the registry, the signed
  manifests (\<open>manifest.rs\<close>), the offline attestation with its SBOM summary (\<open>attestation.rs\<close>) and the
  provenance statements (\<open>attest.rs\<close>). The WebAssembly runtime, base64, UTF-8 decoding and the pretty
  printer are parameters; a path is its directory with the last component, and the file system says
  what exists and what a read returns.
\<close>

section \<open>Files\<close>

type_synonym path = "string \<times> string option"

record file_system =
  fs_exists :: "path \<Rightarrow> bool"
  fs_read :: "path \<Rightarrow> bytes option"

definition write_file :: "path \<Rightarrow> bytes \<Rightarrow> file_system \<Rightarrow> file_system" where
  "write_file p bs fs = fs\<lparr>fs_exists := (fs_exists fs)(p := True), fs_read := (fs_read fs)(p := Some bs)\<rparr>"

definition sibling_path :: "path \<Rightarrow> string \<Rightarrow> path option" where
  "sibling_path wasm ext = map_option (\<lambda>n. (fst wasm, Some (n @ ''.'' @ ext))) (snd wasm)"

definition sibling :: "file_system \<Rightarrow> path \<Rightarrow> string \<Rightarrow> path option" where
  "sibling fs wasm ext =
     (case sibling_path wasm ext of Some p \<Rightarrow> if fs_exists fs p then Some p else None | None \<Rightarrow> None)"

definition sha256_hex :: "crypto \<Rightarrow> bytes \<Rightarrow> string" where
  "sha256_hex c bs = hex_encode c (sha256 c bs)"

section \<open>Signed manifests\<close>

record plugin_manifest_payload =
  mp_name :: string
  mp_version :: string
  mp_plugin_sha256 :: string
  mp_created_at :: string
  mp_signer_key_id :: string
  mp_metadata :: "json option"

definition payload_fields :: "plugin_manifest_payload \<Rightarrow> fields" where
  "payload_fields m =
     ser_field ''name'' (JString (mp_name m)) @ ser_field ''version'' (JString (mp_version m)) @
     ser_field ''pluginSha256'' (JString (mp_plugin_sha256 m)) @ ser_field ''createdAt'' (JString (mp_created_at m)) @
     ser_field ''signerKeyId'' (JString (mp_signer_key_id m)) @ ser_skip_none ''metadata'' id (mp_metadata m)"

definition de_payload :: "fields \<Rightarrow> plugin_manifest_payload option" where
  "de_payload fs =
     Option.bind (de_required ''name'' de_string fs) (\<lambda>n.
     Option.bind (de_required ''version'' de_string fs) (\<lambda>v.
     Option.bind (de_required ''pluginSha256'' de_string fs) (\<lambda>h.
     Option.bind (de_required ''createdAt'' de_string fs) (\<lambda>t.
     Option.bind (de_required ''signerKeyId'' de_string fs) (\<lambda>k.
     Option.bind (de_default ''metadata'' None (de_option Some) fs) (\<lambda>x.
       Some \<lparr>mp_name = n, mp_version = v, mp_plugin_sha256 = h, mp_created_at = t, mp_signer_key_id = k, mp_metadata = x\<rparr>))))))"

record signed_plugin_manifest =
  sm_manifest :: "plugin_manifest_payload option"
  sm_signer_key_id :: "string option"
  sm_verified :: bool
  sm_reason :: "string option"

datatype manifest_error = ManifestIo | ManifestSerialize | ManifestBadSignature | ManifestSignatureInvalid

definition verify_manifest_signature :: "crypto \<Rightarrow> bytes \<Rightarrow> string \<Rightarrow> verifying_key \<Rightarrow> manifest_error + unit" where
  "verify_manifest_signature c manifest sig_hex vk =
     (case hex_decode c (str_trim sig_hex) of
        None \<Rightarrow> Inl ManifestBadSignature
      | Some raw \<Rightarrow>
          if length raw \<noteq> 64 then Inl ManifestBadSignature
          else if ed_verify c vk manifest raw then Inr () else Inl ManifestSignatureInvalid)"

text \<open>
  \<open>sign_manifest\<close> writes the manifest and then the signature; \<open>pretty\<close> is \<open>to_vec_pretty\<close>, and
  \<open>unwritable\<close> says which writes fail.
\<close>

definition sign_manifest ::
  "crypto \<Rightarrow> (json \<Rightarrow> bytes option) \<Rightarrow> (path \<Rightarrow> bool) \<Rightarrow> path \<Rightarrow> local_disk_signer \<Rightarrow> string \<Rightarrow> string \<Rightarrow> string \<Rightarrow> file_system
   \<Rightarrow> (manifest_error + path \<times> path) \<times> file_system" where
  "sign_manifest c pretty unwritable wasm signer name version created_at fs =
     (case fs_read fs wasm of
        None \<Rightarrow> (Inl ManifestIo, fs)
      | Some bs \<Rightarrow>
          (case pretty (JObject (payload_fields \<lparr>mp_name = name, mp_version = version, mp_plugin_sha256 = sha256_hex c bs,
                  mp_created_at = created_at, mp_signer_key_id = key_id signer, mp_metadata = None\<rparr>)) of
             None \<Rightarrow> (Inl ManifestSerialize, fs)
           | Some manifest \<Rightarrow>
               (case (sibling_path wasm ''manifest.json'', sibling_path wasm ''manifest.json.sig'') of
                  (Some mpath, Some spath) \<Rightarrow>
                    (if unwritable mpath then (Inl ManifestIo, fs)
                     else
                       (let fs1 = write_file mpath manifest fs in
                        if unwritable spath then (Inl ManifestIo, fs1)
                        else (Inr (mpath, spath),
                          write_file spath (as_bytes (hex_encode c (ed_sign c (signing_key signer) manifest))) fs1)))
                | _ \<Rightarrow> (Inl ManifestBadSignature, fs))))"

definition unverified :: "plugin_manifest_payload option \<Rightarrow> string \<Rightarrow> signed_plugin_manifest" where
  "unverified payload why =
     \<lparr>sm_manifest = payload, sm_signer_key_id = map_option mp_signer_key_id payload, sm_verified = False, sm_reason = Some why\<rparr>"

definition key_verdict :: "crypto \<Rightarrow> bytes \<Rightarrow> string \<Rightarrow> verifying_key list \<Rightarrow> string \<Rightarrow> bool \<times> string" where
  "key_verdict c manifest sig_hex trusted declared =
     (case List.find (\<lambda>vk. is_ok (verify_manifest_signature c manifest (str_trim sig_hex) vk)) trusted of
        None \<Rightarrow> (False, if trusted = [] then ''no trusted keys provided'' else ''signature did not match any trusted key'')
      | Some vk \<Rightarrow>
          if key_id_for_verifying_key c vk = declared then (True, ''signature verified against the declared trusted key'')
          else (False, ''signature verifies but signer_key_id does not match the verifying key''))"

definition verify_signed_manifest ::
  "crypto \<Rightarrow> (bytes \<Rightarrow> string option) \<Rightarrow> file_system \<Rightarrow> path \<Rightarrow> verifying_key list \<Rightarrow> signed_plugin_manifest" where
  "verify_signed_manifest c utf8 fs wasm trusted =
     (case (sibling fs wasm ''manifest.json'', sibling fs wasm ''manifest.json.sig'') of
        (Some mpath, Some spath) \<Rightarrow>
          (case fs_read fs mpath of
             None \<Rightarrow> unverified None ''manifest unreadable''
           | Some manifest \<Rightarrow>
               (case Option.bind (from_slice c manifest) (de_object de_payload) of
                  None \<Rightarrow> unverified None ''manifest malformed''
                | Some payload \<Rightarrow>
                    (case fs_read fs wasm of
                       None \<Rightarrow> unverified (Some payload) ''plugin unreadable''
                     | Some bs \<Rightarrow>
                         if sha256_hex c bs \<noteq> mp_plugin_sha256 payload then unverified (Some payload) ''plugin sha256 does not match manifest''
                         else
                           (case Option.bind (fs_read fs spath) utf8 of
                              None \<Rightarrow> unverified (Some payload) ''signature unreadable''
                            | Some sig_hex \<Rightarrow>
                                (case key_verdict c manifest sig_hex trusted (mp_signer_key_id payload) of
                                   (ok, why) \<Rightarrow> (unverified (Some payload) why)\<lparr>sm_verified := ok\<rparr>)))))
      | _ \<Rightarrow> \<lparr>sm_manifest = None, sm_signer_key_id = None, sm_verified = False, sm_reason = Some ''no signed manifest present''\<rparr>)"

section \<open>Offline attestation\<close>

record sbom_report =
  sb_spec_version :: string
  sb_component_count :: u32

datatype sbom_error = SbomParse | NotCycloneDx | NotSpdx | Unrecognized

fun get_field :: "string \<Rightarrow> json \<Rightarrow> json option" where
  "get_field k (JObject fs) = map_of fs k"
| "get_field k v = None"

definition str_at :: "string \<Rightarrow> json \<Rightarrow> string option" where
  "str_at k v = Option.bind (get_field k v) de_string"

definition count_at :: "string \<Rightarrow> json \<Rightarrow> u32" where
  "count_at k v = (case get_field k v of Some (JArray xs) \<Rightarrow> of_nat (length xs) | _ \<Rightarrow> 0)"

definition parse_sbom_cyclonedx_bytes :: "crypto \<Rightarrow> bytes \<Rightarrow> sbom_error + sbom_report" where
  "parse_sbom_cyclonedx_bytes c bs =
     (case from_slice c bs of
        None \<Rightarrow> Inl SbomParse
      | Some v \<Rightarrow>
          if eq_ignore_ascii_case (case str_at ''bomFormat'' v of Some s \<Rightarrow> s | None \<Rightarrow> []) ''CycloneDX''
          then Inr \<lparr>sb_spec_version = (case str_at ''specVersion'' v of Some s \<Rightarrow> s | None \<Rightarrow> ''unknown''), sb_component_count = count_at ''components'' v\<rparr>
          else Inl NotCycloneDx)"

definition parse_sbom_spdx_bytes :: "crypto \<Rightarrow> bytes \<Rightarrow> sbom_error + sbom_report" where
  "parse_sbom_spdx_bytes c bs =
     (case from_slice c bs of
        None \<Rightarrow> Inl SbomParse
      | Some v \<Rightarrow>
          (case str_at ''spdxVersion'' v of
             Some s \<Rightarrow> Inr \<lparr>sb_spec_version = s, sb_component_count = count_at ''packages'' v\<rparr>
           | None \<Rightarrow> Inl NotSpdx))"

definition parse_sbom_bytes :: "crypto \<Rightarrow> bytes \<Rightarrow> sbom_error + sbom_report" where
  "parse_sbom_bytes c bs =
     (case parse_sbom_cyclonedx_bytes c bs of
        Inr r \<Rightarrow> Inr r
      | Inl NotCycloneDx \<Rightarrow>
          (case parse_sbom_spdx_bytes c bs of Inr r \<Rightarrow> Inr r | Inl NotSpdx \<Rightarrow> Inl Unrecognized | Inl e \<Rightarrow> Inl e)
      | Inl e \<Rightarrow> Inl e)"

definition parse_sbom_path :: "crypto \<Rightarrow> file_system \<Rightarrow> path \<Rightarrow> sbom_report option" where
  "parse_sbom_path c fs p =
     (case fs_read fs p of Some bs \<Rightarrow> (case parse_sbom_bytes c bs of Inr r \<Rightarrow> Some r | Inl _ \<Rightarrow> None) | None \<Rightarrow> None)"

record plugin_attestation =
  pa_plugin_sha256 :: string
  pa_bundle_path :: "path option"
  pa_sbom_path :: "path option"
  pa_bundle_well_formed :: bool
  pa_payload_digest_match :: bool
  pa_rekor_log_index :: "u64 option"
  pa_sbom :: "sbom_report option"
  pa_signature_verified :: bool
  pa_signature_checked :: bool

definition digest_attested :: "plugin_attestation \<Rightarrow> bool" where
  "digest_attested a = (pa_bundle_path a \<noteq> None \<and> pa_bundle_well_formed a \<and> pa_payload_digest_match a)"

definition offline_verified :: "plugin_attestation \<Rightarrow> bool" where
  "offline_verified a = (digest_attested a \<and> pa_signature_verified a)"

definition attestation_level :: "plugin_attestation \<Rightarrow> string" where
  "attestation_level a =
     (if offline_verified a then ''key-verified'' else if digest_attested a then ''digest-only'' else ''none'')"

text \<open>
  \<open>Value::pointer\<close>: a step is the name of a field, or an index into an array. The two pointers of the
  code only use the index zero.
\<close>

fun json_pointer :: "string list \<Rightarrow> json \<Rightarrow> json option" where
  "json_pointer [] v = Some v"
| "json_pointer (k # ks) (JObject fs) = Option.bind (map_of fs k) (json_pointer ks)"
| "json_pointer (k # ks) (JArray xs) = (if k = ''0'' \<and> xs \<noteq> [] then json_pointer ks (hd xs) else None)"
| "json_pointer (k # ks) v = None"

definition v03_digest :: "json \<Rightarrow> string option" where
  "v03_digest v = Option.bind (Option.bind (Option.bind (get_field ''messageSignature'' v) (get_field ''messageDigest'')) (get_field ''digest'')) de_string"

definition v01_digest :: "json \<Rightarrow> string option" where
  "v01_digest v = Option.bind (json_pointer [''Payload'', ''Body'', ''IntotoObj'', ''payload'', ''subject'', ''0'', ''digest'', ''sha256''] v) de_string"

text \<open>Libraries of this section: base64 decoding and \<open>str::parse::<u64>\<close>.\<close>

record attest_lib =
  al_b64 :: "string \<Rightarrow> bytes option"
  al_parse_u64 :: "string \<Rightarrow> u64 option"

definition rekor_index :: "attest_lib \<Rightarrow> json \<Rightarrow> u64 option" where
  "rekor_index l v =
     (case json_pointer [''verificationMaterial'', ''tlogEntries'', ''0'', ''logIndex''] v of
        Some (JString s) \<Rightarrow> al_parse_u64 l s
      | Some (JNumber (PosInt w)) \<Rightarrow> Some w
      | _ \<Rightarrow> None)"

definition payload_match :: "crypto \<Rightarrow> attest_lib \<Rightarrow> json \<Rightarrow> bytes \<Rightarrow> bool" where
  "payload_match c l v wasm =
     (case v03_digest v of
        Some d \<Rightarrow> (case al_b64 l d of Some bs \<Rightarrow> hex_encode c bs = sha256_hex c wasm | None \<Rightarrow> False)
      | None \<Rightarrow> (case v01_digest v of Some h \<Rightarrow> eq_ignore_ascii_case h (sha256_hex c wasm) | None \<Rightarrow> False))"

definition bundle_json :: "crypto \<Rightarrow> file_system \<Rightarrow> path \<Rightarrow> json option" where
  "bundle_json c fs p = Option.bind (fs_read fs p) (from_slice c)"

definition verify_bundle :: "crypto \<Rightarrow> attest_lib \<Rightarrow> file_system \<Rightarrow> path option \<Rightarrow> bytes \<Rightarrow> bool \<times> bool \<times> u64 option" where
  "verify_bundle c l fs bpath wasm =
     (case Option.bind bpath (bundle_json c fs) of
        None \<Rightarrow> (False, False, None)
      | Some v \<Rightarrow> (v03_digest v \<noteq> None \<or> v01_digest v \<noteq> None, payload_match c l v wasm, rekor_index l v))"

definition verify_pinned_ed25519 :: "crypto \<Rightarrow> attest_lib \<Rightarrow> file_system \<Rightarrow> string \<Rightarrow> path \<Rightarrow> bytes \<Rightarrow> bool option" where
  "verify_pinned_ed25519 c l fs pubkey_hex bpath wasm =
     Option.bind (hex_decode c (str_trim pubkey_hex)) (\<lambda>key.
       if length key \<noteq> 32 then None
       else
         Option.bind (vk_from_bytes c key) (\<lambda>vk.
         Option.bind (bundle_json c fs bpath) (\<lambda>v.
         Option.bind (Option.bind (get_field ''messageSignature'' v) (str_at ''signature'')) (\<lambda>s.
         Option.bind (al_b64 l s) (\<lambda>raw. if length raw \<noteq> 64 then None else Some (ed_verify c vk wasm raw))))))"

definition verify_bundle_signature :: "crypto \<Rightarrow> attest_lib \<Rightarrow> file_system \<Rightarrow> path option \<Rightarrow> bytes \<Rightarrow> string option \<Rightarrow> bool \<times> bool" where
  "verify_bundle_signature c l fs bpath wasm pinned =
     (case (pinned, bpath) of
        (Some k, Some p) \<Rightarrow> (verify_pinned_ed25519 c l fs k p wasm = Some True, True)
      | _ \<Rightarrow> (False, False))"

definition verify_plugin_with_pinned_key ::
  "crypto \<Rightarrow> attest_lib \<Rightarrow> file_system \<Rightarrow> path \<Rightarrow> string option \<Rightarrow> plugin_attestation option" where
  "verify_plugin_with_pinned_key c l fs wasm pinned =
     map_option (\<lambda>bs.
       let bpath = sibling fs wasm ''sigstore.json'';
           sbom = (case sibling fs wasm ''cdx.json'' of Some p \<Rightarrow> Some p | None \<Rightarrow> sibling fs wasm ''spdx.json'');
           (well_formed, same_digest, log_index) = verify_bundle c l fs bpath bs;
           (verified, checked) = verify_bundle_signature c l fs bpath bs pinned
       in \<lparr>pa_plugin_sha256 = sha256_hex c bs, pa_bundle_path = bpath, pa_sbom_path = sbom, pa_bundle_well_formed = well_formed,
           pa_payload_digest_match = same_digest, pa_rekor_log_index = log_index, pa_sbom = Option.bind sbom (parse_sbom_path c fs),
           pa_signature_verified = verified, pa_signature_checked = checked\<rparr>) (fs_read fs wasm)"

section \<open>Provenance statements\<close>

definition INTOTO_STATEMENT_TYPE :: string where
  "INTOTO_STATEMENT_TYPE = ''https://in-toto.io/Statement/v1''"

definition SLSA_PROVENANCE_PREDICATE_TYPE :: string where
  "SLSA_PROVENANCE_PREDICATE_TYPE = ''https://slsa.dev/provenance/v1''"

definition DSSE_PAYLOAD_TYPE :: string where
  "DSSE_PAYLOAD_TYPE = ''application/vnd.in-toto+json''"

definition OFFLINE_DECLARED_BUILD_TYPE :: string where
  "OFFLINE_DECLARED_BUILD_TYPE = ''https://iaga.tech/slsa/offline-declared/v1''"

definition DECLARED_NOTE :: string where
  "DECLARED_NOTE = ''slsaLevel is operator-DECLARED build intent. Offline OSS attest cannot verify hermeticity, provenance, or build isolation: it signs your declaration, it does not certify it. Verified SLSA (Rekor inclusion + Fulcio keyless identity) is an Enterprise feature (ADR 0010/0013).''"

text \<open>
  The statement as the JSON that its derived \<open>Serialize\<close> gives; \<open>cli_version\<close> is the version of the
  crate, which the build fixes.
\<close>

definition build_statement :: "crypto \<Rightarrow> string \<Rightarrow> file_system \<Rightarrow> path \<Rightarrow> string \<Rightarrow> string \<Rightarrow> byte \<Rightarrow> json option" where
  "build_statement c cli_version fs wasm name version slsa_level =
     map_option (\<lambda>bs. JObject
       [(''_type'', JString INTOTO_STATEMENT_TYPE),
        (''subject'', JArray [JObject [(''name'', JString (name @ ''@'' @ version)), (''digest'', JObject [(''sha256'', JString (sha256_hex c bs))])]]),
        (''predicateType'', JString SLSA_PROVENANCE_PREDICATE_TYPE),
        (''predicate'', JObject
          [(''buildDefinition'', JObject [(''buildType'', JString OFFLINE_DECLARED_BUILD_TYPE)]),
           (''runDetails'', JObject [(''builder'', JObject [(''id'', JString (''iaga-sentinel-cli@'' @ cli_version))])]),
           (''declaredSlsaLevel'', ser_u32 (ucast slsa_level)), (''declaredNote'', JString DECLARED_NOTE)])]) (fs_read fs wasm)"

definition dsse_pae :: "string \<Rightarrow> bytes \<Rightarrow> bytes" where
  "dsse_pae payload_type payload =
     as_bytes ''DSSEv1 '' @ as_bytes (show_nat (length payload_type)) @ [32] @ as_bytes payload_type @ [32] @
     as_bytes (show_nat (length payload)) @ [32] @ payload"

record dsse_envelope =
  de_payload_type :: string
  de_payload_b64 :: string
  de_keyid :: string
  de_sig :: string

definition wrap_dsse :: "crypto \<Rightarrow> (bytes \<Rightarrow> string) \<Rightarrow> json \<Rightarrow> local_disk_signer \<Rightarrow> dsse_envelope option" where
  "wrap_dsse c b64 statement signer =
     map_option (\<lambda>payload. \<lparr>de_payload_type = DSSE_PAYLOAD_TYPE, de_payload_b64 = b64 payload, de_keyid = key_id signer,
       de_sig = b64 (ed_sign c (signing_key signer) (dsse_pae DSSE_PAYLOAD_TYPE payload))\<rparr>) (to_vec c statement)"

section \<open>The registry\<close>

record plugin_manifest =
  pm_name :: string
  pm_version :: string
  pm_path :: path
  pm_attestation :: "plugin_attestation option"
  pm_sbom :: "sbom_report option"
  pm_attestation_offline_verified :: bool

record plugin_registry =
  rg_plugins :: "plugin_manifest list"
  rg_load_errors :: "(string \<times> string) list"

definition annotate_with_attestation ::
  "crypto \<Rightarrow> attest_lib \<Rightarrow> file_system \<Rightarrow> string option \<Rightarrow> path \<Rightarrow> plugin_manifest \<Rightarrow> plugin_manifest" where
  "annotate_with_attestation c l fs pinned p m =
     (case verify_plugin_with_pinned_key c l fs p pinned of
        Some a \<Rightarrow> m\<lparr>pm_attestation_offline_verified := offline_verified a, pm_sbom := pa_sbom a, pm_attestation := Some a\<rparr>
      | None \<Rightarrow> m)"

text \<open>\<open>Path::extension\<close>: what follows the last dot, unless the name begins with it.\<close>

definition is_wasm :: "path \<Rightarrow> bool" where
  "is_wasm p =
     (case Option.bind (snd p) (rsplit_once (CHR ''.'')) of
        Some (stem, ext) \<Rightarrow> stem \<noteq> [] \<and> eq_ignore_ascii_case ext ''wasm''
      | None \<Rightarrow> False)"

datatype dir_listing = DirEntries "path list" | DirMissing | DirError string

text \<open>\<open>load\<close> is \<open>LoadedPlugin::from_file\<close>, with the manifest or the text of its error.\<close>

definition reload ::
  "crypto \<Rightarrow> attest_lib \<Rightarrow> file_system \<Rightarrow> string option \<Rightarrow> (path \<Rightarrow> string + plugin_manifest) \<Rightarrow> (path \<Rightarrow> string) \<Rightarrow> path \<Rightarrow> dir_listing
   \<Rightarrow> plugin_registry" where
  "reload c l fs pinned load shown dir listing =
     (let wasms = (case listing of DirEntries ps \<Rightarrow> filter is_wasm ps | _ \<Rightarrow> []);
          loaded = List.map_filter (\<lambda>p. case load p of Inr m \<Rightarrow> Some (annotate_with_attestation c l fs pinned p m) | Inl _ \<Rightarrow> None) wasms;
          failed = List.map_filter (\<lambda>p. case load p of Inl e \<Rightarrow> Some (shown p, e) | Inr _ \<Rightarrow> None) wasms
            @ (case listing of DirError e \<Rightarrow> [(shown dir, e)] | _ \<Rightarrow> [])
      in \<lparr>rg_plugins = sort_key pm_name loaded, rg_load_errors = sort_key fst failed\<rparr>)"

text \<open>\<open>run\<close> is the call into the runtime with the decoded result; the host clamps the score.\<close>

definition call_inspect :: "(plugin_manifest \<Rightarrow> string + (u32 \<times> string list \<times> string option)) \<Rightarrow> plugin_manifest \<Rightarrow> string + plugin_output" where
  "call_inspect run m =
     (case run m of
        Inl e \<Rightarrow> Inl e
      | Inr (score, findings, hint) \<Rightarrow>
          Inr \<lparr>po_plugin_name = pm_name m, po_risk_score = min score 100, po_findings = findings, po_decision_hint = hint\<rparr>)"

definition evaluate_plugins ::
  "(plugin_manifest \<Rightarrow> string + (u32 \<times> string list \<times> string option)) \<Rightarrow> plugin_registry \<Rightarrow> plugin_output list \<times> string list" where
  "evaluate_plugins run reg =
     (sort_key po_plugin_name (List.map_filter (\<lambda>m. case call_inspect run m of Inr out \<Rightarrow> Some out | Inl _ \<Rightarrow> None) (rg_plugins reg)),
      List.map_filter (\<lambda>m. case call_inspect run m of Inl e \<Rightarrow> Some (''plugin '' @ pm_name m @ '' failed: '' @ e) | Inr _ \<Rightarrow> None) (rg_plugins reg))"

section \<open>Signed manifests prove who signed which plugin\<close>

text \<open>
  A manifest counts as verified exactly when its two files are there, it names the digest of the
  plugin that is on disk, and the first trusted key under which its signature holds is the one it
  declares. The reported signer is then the id of that trusted key.
\<close>

lemma key_verdict_ok:
  "fst (key_verdict c manifest s trusted k) \<longleftrightarrow>
     (\<exists>vk. List.find (\<lambda>vk. is_ok (verify_manifest_signature c manifest (str_trim s) vk)) trusted = Some vk \<and> key_id_for_verifying_key c vk = k)"
  by (auto simp: key_verdict_def split: option.splits)

lemma manifest_verified_iff:
  "sm_verified (verify_signed_manifest c utf8 fs wasm trusted) \<longleftrightarrow>
     (\<exists>mpath spath manifest payload bs s vk.
        sibling fs wasm ''manifest.json'' = Some mpath \<and> sibling fs wasm ''manifest.json.sig'' = Some spath
        \<and> fs_read fs mpath = Some manifest \<and> Option.bind (from_slice c manifest) (de_object de_payload) = Some payload
        \<and> fs_read fs wasm = Some bs \<and> sha256_hex c bs = mp_plugin_sha256 payload \<and> Option.bind (fs_read fs spath) utf8 = Some s
        \<and> List.find (\<lambda>vk. is_ok (verify_manifest_signature c manifest (str_trim s) vk)) trusted = Some vk
        \<and> key_id_for_verifying_key c vk = mp_signer_key_id payload)"
  by (auto simp: verify_signed_manifest_def unverified_def case_prod_beta key_verdict_ok split: option.split)

lemma verified_signer_is_trusted:
  assumes "sm_verified (verify_signed_manifest c utf8 fs wasm trusted)"
  shows "\<exists>vk \<in> set trusted. sm_signer_key_id (verify_signed_manifest c utf8 fs wasm trusted) = Some (key_id_for_verifying_key c vk)"
proof -
  obtain mpath spath manifest payload bs s vk where v: "sibling fs wasm ''manifest.json'' = Some mpath" "sibling fs wasm ''manifest.json.sig'' = Some spath"
    "fs_read fs mpath = Some manifest" "Option.bind (from_slice c manifest) (de_object de_payload) = Some payload"
    "fs_read fs wasm = Some bs" "sha256_hex c bs = mp_plugin_sha256 payload" "Option.bind (fs_read fs spath) utf8 = Some s"
    "List.find (\<lambda>vk. is_ok (verify_manifest_signature c manifest (str_trim s) vk)) trusted = Some vk"
    "key_id_for_verifying_key c vk = mp_signer_key_id payload"
    using assms unfolding manifest_verified_iff by blast
  then have "sm_signer_key_id (verify_signed_manifest c utf8 fs wasm trusted) = Some (key_id_for_verifying_key c vk)"
    by (simp add: verify_signed_manifest_def unverified_def key_verdict_def)
  moreover have "vk \<in> set trusted" using v(8) by (auto simp: find_Some_iff)
  ultimately show ?thesis by blast
qed

text \<open>What \<open>sign_manifest\<close> wrote verifies under the key of the signer, and under no other plugin.\<close>

lemma de_payload_fields: "mp_metadata m = None \<Longrightarrow> de_payload (payload_fields m) = Some m"
  by (simp add: de_payload_def payload_fields_def de_required_def de_default_def read_field_def)

lemma is_ok_iff_manifest: "is_ok (verify_manifest_signature c m s vk) \<longleftrightarrow> (\<exists>raw. hex_decode c (str_trim s) = Some raw \<and> length raw = 64 \<and> ed_verify c vk m raw)"
  by (auto simp: verify_manifest_signature_def split: option.splits)

lemma signed_manifest_verifies:
  assumes "ed25519_correct c" "hex_round_trip c" "\<forall>j bs. pretty j = Some bs \<longrightarrow> from_slice c bs = Some j" "\<forall>s. utf8 (as_bytes s) = Some s"
    and "\<forall>bs. str_trim (hex_encode c bs) = hex_encode c bs"
    and "sign_manifest c pretty unwritable wasm (signer_of_key c sk) name version created_at fs = (Inr paths, fs')"
  shows "sm_verified (verify_signed_manifest c utf8 fs' wasm [ed_verifying_key c sk])"
proof -
  let ?signer = "signer_of_key c sk"
  obtain bs where bs: "fs_read fs wasm = Some bs" using assms(6) by (cases "fs_read fs wasm") (auto simp: sign_manifest_def)
  define payload where "payload = \<lparr>mp_name = name, mp_version = version, mp_plugin_sha256 = sha256_hex c bs,
    mp_created_at = created_at, mp_signer_key_id = key_id ?signer, mp_metadata = None\<rparr>"
  obtain manifest where m: "pretty (JObject (payload_fields payload)) = Some manifest"
    using assms(6) bs by (cases "pretty (JObject (payload_fields payload))") (auto simp: sign_manifest_def payload_def)
  obtain d n where wasm: "wasm = (d, Some n)"
    using assms(6) bs m by (cases wasm; cases "snd wasm") (auto simp: sign_manifest_def payload_def sibling_path_def)
  define mpath spath where "mpath = (d, Some (n @ ''.manifest.json''))" and "spath = (d, Some (n @ ''.manifest.json.sig''))"
  have apart: "wasm \<noteq> mpath" "wasm \<noteq> spath" "mpath \<noteq> spath" by (simp_all add: wasm mpath_def spath_def)
  have fs': "fs' = write_file spath (as_bytes (hex_encode c (ed_sign c sk manifest))) (write_file mpath manifest fs)"
    using assms(6) bs m by (auto simp: sign_manifest_def payload_def wasm sibling_path_def mpath_def spath_def signer_of_key_def Let_def split: if_splits)
  have files: "fs_read fs' wasm = Some bs" "fs_read fs' mpath = Some manifest" "fs_read fs' spath = Some (as_bytes (hex_encode c (ed_sign c sk manifest)))"
    "sibling fs' wasm ''manifest.json'' = Some mpath" "sibling fs' wasm ''manifest.json.sig'' = Some spath"
    using apart bs by (simp_all add: fs' write_file_def sibling_def sibling_path_def wasm mpath_def spath_def)
  have "is_ok (verify_manifest_signature c manifest (str_trim (hex_encode c (ed_sign c sk manifest))) (ed_verifying_key c sk))"
    using assms(1,2,5) by (simp add: is_ok_iff_manifest hex_round_trip_def ed25519_correct_def)
  moreover have "Option.bind (from_slice c manifest) (de_object de_payload) = Some payload"
    using assms(3) m by (simp add: de_payload_fields payload_def)
  ultimately show ?thesis
    unfolding manifest_verified_iff using files assms(4) by (simp add: payload_def signer_of_key_def)
qed

section \<open>What an attestation is worth\<close>

text \<open>Without a pinned key nothing is verified, and with one the signature over the plugin itself is.\<close>

lemma offline_verified_needs_signature:
  assumes "verify_plugin_with_pinned_key c l fs wasm pinned = Some a" "offline_verified a"
  shows "\<exists>bs hexkey key vk raw. fs_read fs wasm = Some bs \<and> pinned = Some hexkey \<and> hex_decode c (str_trim hexkey) = Some key
    \<and> vk_from_bytes c key = Some vk \<and> length raw = 64 \<and> ed_verify c vk bs raw"
proof -
  obtain bs where bs: "fs_read fs wasm = Some bs" using assms(1) by (auto simp: verify_plugin_with_pinned_key_def)
  let ?bpath = "sibling fs wasm ''sigstore.json''"
  have "fst (verify_bundle_signature c l fs ?bpath bs pinned)"
    using assms bs by (auto simp: verify_plugin_with_pinned_key_def offline_verified_def Let_def case_prod_beta)
  then obtain k p where "pinned = Some k" "verify_pinned_ed25519 c l fs k p bs = Some True"
    by (auto simp: verify_bundle_signature_def split: option.splits)
  then show ?thesis using bs by (auto simp: verify_pinned_ed25519_def bind_eq_Some_conv split: if_splits)
qed

text \<open>
  A matching digest alone proves nothing: whoever writes the bundle next to a plugin can attest any
  bytes. Only the level of the attestation tells the two apart.
\<close>

lemma digest_is_forgeable:
  assumes "from_slice c content = Some (JObject [(''messageSignature'', JObject [(''messageDigest'', JObject [(''digest'', JString d)])])])"
    and "al_b64 l d = Some (sha256 c bs)" "fs_read fs (dir, Some n) = Some bs"
    and "fs' = write_file (dir, Some (n @ ''.sigstore.json'')) content fs"
  shows "\<exists>a. verify_plugin_with_pinned_key c l fs' (dir, Some n) None = Some a \<and> digest_attested a \<and> attestation_level a = ''digest-only''"
  using assms
  by (simp add: verify_plugin_with_pinned_key_def write_file_def sibling_def sibling_path_def verify_bundle_def bundle_json_def v03_digest_def
      payload_match_def sha256_hex_def verify_bundle_signature_def attestation_level_def offline_verified_def digest_attested_def Let_def)

lemma sbom_formats:
  assumes "from_slice c bs = Some v"
  shows "is_ok (parse_sbom_bytes c bs) \<longleftrightarrow> (\<exists>s. str_at ''bomFormat'' v = Some s \<and> eq_ignore_ascii_case s ''CycloneDX'') \<or> (\<exists>s. str_at ''spdxVersion'' v = Some s)"
  using assms
  by (auto simp: parse_sbom_bytes_def parse_sbom_cyclonedx_bytes_def parse_sbom_spdx_bytes_def eq_ignore_ascii_case_def to_ascii_lowercase_def split: option.splits)

section \<open>The signed encoding of a statement is unambiguous\<close>

definition digits_nat :: "string \<Rightarrow> nat" where
  "digits_nat s = foldl (\<lambda>n ch. n * 10 + (of_char ch - 48)) 0 s"

lemma digits_nat_show [simp]: "digits_nat (show_nat n) = n"
proof (induction n rule: show_nat.induct)
  case (1 n)
  show ?case
  proof (cases "n < 10")
    case False
    then show ?thesis using 1 by (subst show_nat.simps) (simp add: digits_nat_def)
  qed (subst show_nat.simps, simp add: digits_nat_def)
qed

lemma show_nat_inj: "show_nat a = show_nat b \<longleftrightarrow> a = b"
  by (metis digits_nat_show)

lemma show_nat_digits: "ch \<in> set (show_nat n) \<Longrightarrow> 48 \<le> (of_char ch :: nat)"
proof (induction n rule: show_nat.induct)
  case (1 n)
  show ?case
  proof (cases "n < 10")
    case False
    then show ?thesis using 1 by (subst (asm) (2) show_nat.simps) auto
  qed (use "1.prems" in \<open>subst (asm) show_nat.simps, simp\<close>)
qed

lemma no_space_in_number: "(32 :: byte) \<notin> set (as_bytes (show_nat n))"
proof
  assume "(32 :: byte) \<in> set (as_bytes (show_nat n))"
  then obtain ch where ch: "ch \<in> set (show_nat n)" "(of_char ch :: byte) = of_char (CHR '' '')"
    by (auto simp: as_bytes_def)
  then show False using show_nat_digits [OF ch(1)] by (simp only: byte_of_char_inj) simp
qed

theorem dsse_pae_inj:
  assumes "dsse_pae t p = dsse_pae t' p'"
  shows "t = t' \<and> p = p'"
proof -
  let ?rest = "\<lambda>t p. as_bytes t @ 32 # as_bytes (show_nat (length p)) @ 32 # p"
  have "as_bytes (show_nat (length t)) @ 32 # ?rest t p = as_bytes (show_nat (length t')) @ 32 # ?rest t' p'"
    using assms by (simp add: dsse_pae_def)
  then have "show_nat (length t) = show_nat (length t')" and r: "?rest t p = ?rest t' p'"
    by (simp_all add: split_at_separator no_space_in_number as_bytes_inj)
  then have "length (as_bytes t) = length (as_bytes t')" by (simp add: show_nat_inj as_bytes_def)
  with r have "as_bytes t = as_bytes t'" "as_bytes (show_nat (length p)) @ 32 # p = as_bytes (show_nat (length p')) @ 32 # p'"
    by simp_all
  then show ?thesis by (simp add: split_at_separator no_space_in_number as_bytes_inj)
qed

section \<open>The registry is deterministic\<close>

text \<open>
  Plugins with different names are loaded and heard in the order of their names, whatever order the
  directory lists them in. Every plugin is heard, with an answer or an error, and no score exceeds 100.
\<close>

lemma map_filter_mset: "mset xs = mset ys \<Longrightarrow> mset (List.map_filter f xs) = mset (List.map_filter f ys)"
  by (simp add: List.map_filter_def mset_filter)

lemma reload_ignores_listing_order:
  assumes "mset ps = mset qs" "inj_on pm_name (set (rg_plugins (reload c l fs pinned load shown dir (DirEntries ps))))"
  shows "rg_plugins (reload c l fs pinned load shown dir (DirEntries ps)) = rg_plugins (reload c l fs pinned load shown dir (DirEntries qs))"
  using assms(2) unfolding reload_def Let_def plugin_registry.simps dir_listing.case
  by (intro sort_key_mset map_filter_mset) (simp_all add: assms(1) mset_filter)

lemma answers_and_errors:
  "length (List.map_filter (\<lambda>m. case f m of Inr x \<Rightarrow> Some x | Inl e \<Rightarrow> None) ms) +
     length (List.map_filter (\<lambda>m. case f m of Inl e \<Rightarrow> Some (h m e) | Inr x \<Rightarrow> None) ms) = length ms"
  by (induction ms) (auto simp: List.map_filter_def split: sum.splits)

lemma evaluation_bounds:
  "\<forall>out \<in> set (fst (evaluate_plugins run reg)). po_risk_score out \<le> 100"
  "length (fst (evaluate_plugins run reg)) + length (snd (evaluate_plugins run reg)) = length (rg_plugins reg)"
proof -
  show "\<forall>out \<in> set (fst (evaluate_plugins run reg)). po_risk_score out \<le> 100"
    by (auto simp: evaluate_plugins_def call_inspect_def List.map_filter_def split: sum.splits prod.splits if_splits)
  show "length (fst (evaluate_plugins run reg)) + length (snd (evaluate_plugins run reg)) = length (rg_plugins reg)"
    by (simp add: evaluate_plugins_def answers_and_errors)
qed

end
