(* ===== verification/Spec2Isabelle.thy ===== *)
theory Spec2Isabelle
  imports Logger_Properties Dictum_Properties Limiter_Properties Overlay_Properties Policy_Hash Pipeline_Properties
    Agent_Access Formal_Verify Mcp_Proxy Plugin_Trust
begin

text \<open>
  A verification development for IAGA Sentinel, a governance service for the tool calls of AI agents.
  An agent asks the service before it acts; the service answers allow, review or block and leaves a
  signed receipt. All sources are below \<open>src/crates\<close>.

  \<^bold>\<open>How the parts work together.\<close> A request enters \<open>execute_pipeline_at\<close> (theory \<open>Pipeline\<close>). The
  pipeline resolves the agent profile and its workspace policy, asks the rate limiter
  (\<open>Rate_Limiter\<close>), finds out which protocol the call speaks and whether it is well formed
  (\<open>Protocol\<close>), scans the payload for injected prompts (\<open>Prompt_Firewall\<close>) and known threats
  (\<open>Threat_Feed\<close>), reads the labels its session has collected (\<open>Taint_Tracker\<close>), records the call in
  the session graph (\<open>Session_Dag\<close>), analyses the flow of labels into the sink of the action, evaluates
  the workspace policy (\<open>Policy_Eval\<close>) and the workspace rules (\<open>Rules_Engine\<close>), plans requested
  secrets, asks the adaptive scorer (\<open>Adaptive_Scorer\<close>), and combines the demands and scores of all
  layers into one risk score (\<open>Tool_Risk\<close>). On top come the policy overlay (\<open>Dictum_Overlay\<close>), which
  evaluates programs of the policy language Dictum, and the budget of the session (\<open>Cost_Ledger\<close>). The
  answer is written to the audit log, to the chain of signed receipts (\<open>Receipt_Logger\<close> over
  \<open>Receipt_Store\<close>), and to the review queue when a human has to decide. Receipts can be exported,
  verified offline and replayed. Around the pipeline stand the proxy that puts it in front of an MCP
  server (\<open>Mcp_Proxy\<close>), the plugins it consults with the trust in their files (\<open>Plugin_Trust\<close>), the
  identities of agents (\<open>Agent_Identity\<close>) with the keys and capability tokens that give access to
  their data (\<open>Agent_Access\<close>), and a checker for workspace policies (\<open>Formal_Verify\<close>).

  \<^bold>\<open>Theories and sources.\<close>
  \<^item> \<open>Sentinel_Prelude\<close>: machine words, results, collections of facts (\<open>rbind_simps\<close> and others), runs
    of a step function, and the locale \<open>watched_monitor\<close>: a condition on the state that every step keeps
    as long as the thing it watches is there, and under which the calls it guards are refused; its
    conclusion is about all later runs. \<open>closing_monitor\<close> is the case where nothing can disappear.
    \<open>Rust_Strings\<close> and \<open>Rust_Floats\<close> hold the parts of the standard library the code uses: strings as
    sequences of bytes, and double precision arithmetic as rational arithmetic with rounding to nearest
    even, with its error bound. \<open>Json_Model\<close> is \<open>serde_json\<close>'s value and the derived field readers.
  \<^item> \<open>Receipt_Model\<close>, \<open>Receipt_Chain\<close>, \<open>Receipt_Store\<close>, \<open>Receipt_Export\<close>
    (\<open>iaga-sentinel-receipts\<close>, \<open>iaga-sentinel-verify\<close>): receipt bodies and their canonical bytes,
    signing and chain verification, the table of the SQLite store with the interleaving of its writers,
    replay, export. \<open>Receipt_Spec\<close> states what a store owes its clients as the locale
    \<open>receipt_store\<close>; \<open>Receipt_Store\<close> interprets it, \<open>Receipt_Logger\<close> and the properties use it.
  \<^item> \<open>Core_Types\<close>, \<open>Governance_Types\<close> (\<open>core/types.rs\<close>): decisions with their order, requests,
    profiles, policies, audit events. \<open>Receipt_Logger\<close> (\<open>pipeline/receipts.rs\<close>): the logger with its
    five attempts against other writers, and its registry of dropped receipts.
  \<^item> \<open>Dictum_Syntax\<close>, \<open>Dictum_Parser\<close>, \<open>Dictum_Types\<close>, \<open>Dictum_Eval\<close>, \<open>Dictum_Wasm\<close>
    (\<open>iaga-sentinel-dictum\<close>): syntax and validator, lexer and parser, type inference, the evaluator with
    its step budget, the WebAssembly back end with a semantics of the instructions it emits.
    \<open>Dictum_Roundtrip\<close>, \<open>Dictum_Soundness\<close> and \<open>Dictum_Cost\<close> hold the larger proofs about them.
  \<^item> \<open>Policy_Eval\<close> (\<open>evaluate_policy.rs\<close>), \<open>Policy_Hash\<close> (\<open>policy_hash.rs\<close>), \<open>Rules_Engine\<close>
    (\<open>rules_engine.rs\<close>, \<open>time_window.rs\<close>), \<open>Tool_Risk\<close> (\<open>tool_risk.rs\<close>, \<open>modules/secrets\<close>),
    \<open>Rate_Limiter\<close> (\<open>limiter.rs\<close>), \<open>Taint_Tracker\<close> (\<open>taint_tracker.rs\<close>), \<open>Session_Dag\<close>
    (\<open>session_dag.rs\<close>), \<open>Cost_Ledger\<close> (\<open>iaga-sentinel-cost\<close>, \<open>spend_store.rs\<close>, \<open>pipeline/cost.rs\<close>),
    \<open>Dictum_Overlay\<close> (\<open>dictum_overlay.rs\<close>), \<open>Protocol\<close> (\<open>modules/protocol\<close>), \<open>Prompt_Firewall\<close>
    (\<open>prompt_firewall.rs\<close>), \<open>Threat_Feed\<close> (\<open>threat_intel/feed.rs\<close>), \<open>Adaptive_Scorer\<close>
    (\<open>adaptive_scorer.rs\<close>), \<open>Pipeline\<close> (\<open>execute_pipeline.rs\<close>).
  \<^item> \<open>Agent_Identity\<close> (\<open>nhi/crypto_identity.rs\<close>), \<open>Agent_Access\<close> (\<open>auth\<close>, the key and token tables of
    \<open>storage/sqlite.rs\<close>, the handlers of \<open>server/create_server.rs\<close> that use them), \<open>Formal_Verify\<close>
    (\<open>formal_verify.rs\<close>).
  \<^item> \<open>Mcp_Proxy\<close> (\<open>mcp_proxy\<close>, \<open>modules/cost/cache.rs\<close>): the line reader, the interception of tool calls,
    the cache of responses and the loop of the proxy, one step per line of the client. \<open>Plugin_Trust\<close>
    (\<open>plugins\<close>): signed manifests, offline attestation, provenance statements, registry.

  Definitions keep the names of the functions they translate. Where a function is long, its blocks are
  definitions of their own and the function composes them in the order of the code. A process-global
  map is a component of an explicit state; a lock is one step; the reading of a clock, a fresh
  identifier and what another writer does in between are arguments of the call that meets them.

  \<^bold>\<open>What is shown.\<close> A property carries its number in the text before it.
  \<^item> \<open>Receipt_Properties\<close> (C1, C3 to C11): chain verification accepts exactly the intact chains and names
    the first break; receipts cannot be changed without a collision of the digest; appending, storing
    and listing keep every run verifiable under all interleavings of writers, for receipts that read
    back from their printed form; export and replay report exactly what they should. \<open>Logger_Properties\<close> (C12, C13): a recorded event is in the chain, a lost
    one raises the counter of its run by one and fails the call when the logger is fail-closed.
  \<^item> \<open>Dictum_Properties\<close> (C15 to C19, C21, C23): evaluation, inference and parsing return;
    a failing condition of a restricting policy restricts; typed expressions meet no type error; the
    back end agrees with the evaluator; parsing inverts printing. The theory
    also shows that the card check finds every single wrong digit.
  \<^item> \<open>Policy_Properties\<close> (C27 to C30): the decision is the strictest demand of the rules, and which
    destinations an allowed request can name: the declared fields that are strings, and the first URL
    of every other string. \<open>Policy_Hash\<close> (C37): equal digests, equal decisions.
  \<^item> \<open>Limiter_Properties\<close> (C31 to C33): in every state of the concurrent limiter, no interval of the
    length of a window (for the hour, less the longest wait for the lock) holds more requests than the
    largest limit configured; waiting as told helps when the limits are positive. \<open>Overlay_Properties\<close> (C35, C36): the overlay only tightens, and start-up
    validation is exact.
  \<^item> \<open>Session_Properties\<close> (C20, C26, C38): the recorded data flow is acyclic with growing labels, strikes
    are bounded; a session that struck out or completed an attack chain refuses its calls as long as it
    stays in the store, whatever other sessions do, and only a sweep of idle sessions removes it. \<open>Risk_Properties\<close> (C34): the
    signed reasons do not depend on the order in which layers report.
  \<^item> \<open>Pipeline_Properties\<close> (C14, C22, C24, C39, C40): the scope comes from the profile, a detected attack
    is blocked, every answered call is on record, labels are enforced across all later calls of a
    session, and the decision is at least, and for ordered thresholds exactly, the maximum of
    everything that was demanded.
  \<^item> \<open>Agent_Access\<close> (C2): what a capability token opens, for how long, and that revocation is final; also
    that every admitted request was verified, and the one race in which a deleted key stays usable.
  \<^item> \<open>Mcp_Proxy\<close> (C25): the tool calls that pass the proxy are calls the audit log holds as allowed. Its
    lemmas show that the line reader does not depend on how bytes arrive, and what a relayed response
    may put into the cache. \<open>Plugin_Trust\<close>: a verified manifest names its trusted signer and the plugin
    on disk, a fresh one verifies, and the signed encoding of a statement is injective.
  \<^item> The theories of the detectors hold the lemmas behind C22 and more: a feed matches through its own
    expressions and its digest binds them (\<open>Threat_Feed\<close>), a disguised signature is still found
    (\<open>Prompt_Firewall\<close>), the adaptive score stays below the blocking threshold (\<open>Adaptive_Scorer\<close>), which
    calls are valid (\<open>Protocol\<close>). \<open>Agent_Identity\<close>: a challenge counts once and trust is bounded.
    \<open>Formal_Verify\<close>: where the reports of the checker agree with the evaluation and where they do not.

  \<^bold>\<open>Parameters and hypotheses.\<close> SHA-256, Ed25519, hexadecimal text, JSON text, regular expressions,
  Unicode case tables, the token automaton of the lexer and calendar arithmetic come from other crates
  and are parameters, gathered in records such as \<open>crypto\<close>, \<open>dictum_lib\<close> and \<open>taint_lib\<close>. Theorems that
  rely on them name the documented behaviour (\<open>ed25519_correct\<close>, \<open>hex_round_trip\<close>)
  or state the collision that would break the claim. JSON text is not assumed to keep every value: the
  library is built without exact reading of floating point numbers. The theorems about stored receipts
  speak of bodies that read back (\<open>body_reads_back\<close>); \<open>plain_body_stable\<close> derives this, from
  \<open>json_round_trip\<close> for values without floats that nest at most 127 levels deep, for every body whose
  scores and captured request contain no float. Plugins and the reasoning engine answer through
  \<open>outside_answers\<close>, and the theorems hold for whatever they answer.

  \<^bold>\<open>Bounds and fuel.\<close> The parser takes fuel, and the number of tokens plus three is always enough
  (\<open>parse_returns\<close> in \<open>Dictum_Properties\<close>).
  The evaluator counts steps as the code does, against a budget that is part of the state (C15). The
  logger makes five attempts, as the code does. Counters and scores are words of the width the code
  gives them; where they could wrap, the theorem states the bound.

  \<^bold>\<open>Not modelled.\<close> The behavioral fingerprint, the sandbox and telemetry feed no decision; the
  WebAssembly runtime of the plugin host reaches one only through the answers above. The HTTP server
  around the modelled handlers, the command line, the MCP server and its doctor, event delivery, the
  other tables of the storage backends, the PostgreSQL stores and kernel enforcement are input and
  output around the modelled parts.
\<close>

end
